(* ===== verification/Prelude.thy ===== *)
theory Prelude
  imports Complex_Main "HOL-Library.List_Lexorder" "HOL-Library.Char_ord" "HOL-Library.Product_Lexorder"
    "HOL-Library.Multiset" "HOL-Library.Sublist"
begin

text \<open>
  Shared notions of the development.

  Go values: \<open>string\<close> is a Go string read as its bytes; \<open>int\<close> is an \<open>int64\<close> or
  \<open>int\<close> whose arithmetic is far from its bounds, and \<open>w64\<close> writes the two's
  complement wrap-around of an \<open>int64\<close> where a value that arrives from outside is
  scaled; \<open>nullint\<close> is \<open>sql.NullInt64\<close> or \<open>*int64\<close>; \<open>any\<close> is the content of a
  Go \<open>map[string]any\<close>, a decoded number being a \<open>float64\<close> and \<open>AStrs\<close> a \<open>[]string\<close>; \<open>go_error\<close> is an error value, \<open>CoreError\<close> being the
  \<open>core.Error\<close> of internal/core/core.go with its code, detail and HTTP status.

  \<open>sort_slice\<close> is \<open>sort.Slice\<close>; the locales \<open>ranking\<close> and \<open>keyed_ranking\<close> state
  what a comparison function has to satisfy for its result to be ordered, and are
  interpreted by the routers on their own comparison functions.
\<close>

named_theorems i64_simps \<open>wrap-around arithmetic on values that fit an int64\<close>
named_theorems select_simps \<open>selecting the marked elements of a list\<close>

type_synonym nullint = "int option"

datatype any =
    ANil
  | ABool bool
  | AInt int
  | AFloat rat
  | AStr string
  | AArr "any list"
  | AMap "(string \<times> any) list"
  | AStrs "string list"

datatype go_error =
    CoreError (err_code: string) (err_detail: string) (err_status: int)
  | OtherError string

definition NewError :: "string \<Rightarrow> string \<Rightarrow> int \<Rightarrow> go_error" where
  "NewError code detail status = CoreError code detail status"

subsection \<open>Wrap-around of an int64\<close>

definition w64 :: "int \<Rightarrow> int" where
  "w64 x = (x + 2 ^ 63) mod 2 ^ 64 - 2 ^ 63"

definition i64 :: "int \<Rightarrow> bool" where
  "i64 x \<longleftrightarrow> - (2 ^ 63) \<le> x \<and> x < 2 ^ 63"

definition MaxInt64 :: int where
  "MaxInt64 = 2 ^ 63 - 1"

lemma i64_w64 [simp]: "i64 (w64 x)"
  by (simp add: i64_def w64_def)

lemma w64_id [i64_simps]: "i64 x \<Longrightarrow> w64 x = x"
  by (simp add: i64_def w64_def)

lemma w64_le_MaxInt64 [simp]: "w64 x \<le> MaxInt64"
proof -
  have "(x + 2 ^ 63) mod 2 ^ 64 < (2 ^ 64 :: int)" by simp
  then show ?thesis unfolding w64_def MaxInt64_def by simp
qed

text \<open>Go's \<open>/\<close> on integers truncates towards zero.\<close>

definition go_div :: "int \<Rightarrow> int \<Rightarrow> int" where
  "go_div a b = sgn a * sgn b * (\<bar>a\<bar> div \<bar>b\<bar>)"

lemma go_div_nonneg: "0 \<le> a \<Longrightarrow> 0 < b \<Longrightarrow> go_div a b = a div b"
  by (cases "a = 0") (auto simp: go_div_def)

subsection \<open>sort.Slice and the comparison functions it needs\<close>

fun insert_by :: "('a \<Rightarrow> 'a \<Rightarrow> bool) \<Rightarrow> 'a \<Rightarrow> 'a list \<Rightarrow> 'a list" where
  "insert_by lt x [] = [x]"
| "insert_by lt x (y # ys) = (if lt y x then y # insert_by lt x ys else x # y # ys)"

definition sort_slice :: "('a \<Rightarrow> 'a \<Rightarrow> bool) \<Rightarrow> 'a list \<Rightarrow> 'a list" where
  "sort_slice lt xs = foldr (insert_by lt) xs []"

lemma mset_insert_by [simp]: "mset (insert_by lt x xs) = add_mset x (mset xs)"
  by (induction xs) auto

lemma set_insert_by [simp]: "set (insert_by lt x xs) = insert x (set xs)"
  by (induction xs) auto

lemma mset_sort_slice [simp]: "mset (sort_slice lt xs) = mset xs"
  by (induction xs) (auto simp: sort_slice_def)

lemma set_sort_slice [simp]: "set (sort_slice lt xs) = set xs"
  by (rule mset_eq_setD) simp

lemma length_sort_slice [simp]: "length (sort_slice lt xs) = length xs"
  by (rule mset_eq_length) simp

lemma sort_slice_Nil [simp]: "sort_slice lt xs = [] \<longleftrightarrow> xs = []"
  by (metis length_0_conv length_sort_slice)

lemma sort_slice_distinct: "distinct xs \<Longrightarrow> distinct (sort_slice lt xs)"
  by (metis mset_sort_slice mset_eq_imp_distinct_iff)

lemma hd_sort_slice_in: "xs \<noteq> [] \<Longrightarrow> hd (sort_slice lt xs) \<in> set xs"
  by (metis hd_in_set set_sort_slice sort_slice_Nil)

locale ranking =
  fixes lt :: "'a \<Rightarrow> 'a \<Rightarrow> bool"
  assumes asym: "lt a b \<Longrightarrow> \<not> lt b a"
    and cotrans: "lt a c \<Longrightarrow> lt a b \<or> lt b c"
begin

lemma insert_by_sorted:
  "sorted_wrt (\<lambda>a b. \<not> lt b a) xs \<Longrightarrow> sorted_wrt (\<lambda>a b. \<not> lt b a) (insert_by lt x xs)"
proof (induction xs)
  case Nil
  then show ?case by simp
next
  case (Cons y ys)
  then have y: "\<forall>z\<in>set ys. \<not> lt z y" by simp
  show ?case
  proof (cases "lt y x")
    case True
    then show ?thesis using Cons y asym by auto
  next
    case False
    then have "\<forall>z\<in>set ys. \<not> lt z x" using y cotrans by blast
    then show ?thesis using Cons.prems False by auto
  qed
qed

lemma sort_slice_sorted: "sorted_wrt (\<lambda>a b. \<not> lt b a) (sort_slice lt xs)"
  unfolding sort_slice_def by (induction xs) (auto intro: insert_by_sorted)

lemma hd_minimal:
  assumes "x \<in> set xs"
  shows "\<not> lt x (hd (sort_slice lt xs))"
proof -
  obtain y ys where s: "sort_slice lt xs = y # ys"
    using assms by (metis list.exhaust list.set_cases sort_slice_Nil list.discI)
  moreover have "x \<in> set (y # ys)" using assms s by (metis set_sort_slice)
  ultimately show ?thesis using sort_slice_sorted [of xs] asym by auto
qed

end

locale keyed_ranking =
  fixes lt :: "'a \<Rightarrow> 'a \<Rightarrow> bool" and key :: "'a \<Rightarrow> 'k::linorder"
  assumes lt_key: "lt a b \<longleftrightarrow> key a < key b"

sublocale keyed_ranking \<subseteq> ranking
  by unfold_locales (auto simp: lt_key)

context keyed_ranking
begin

lemma hd_key_le: "x \<in> set xs \<Longrightarrow> key (hd (sort_slice lt xs)) \<le> key x"
  using hd_minimal [of x xs] by (simp add: lt_key)

lemma sorted_keys: "sorted (map key (sort_slice lt xs))"
  using sort_slice_sorted [of xs] by (simp add: sorted_map lt_key not_less)

end

subsection \<open>Keeping the marked elements of a list\<close>

fun select :: "bool list \<Rightarrow> 'a list \<Rightarrow> 'a list" where
  "select (k # ks) (x # xs) = (if k then x # select ks xs else select ks xs)"
| "select _ _ = []"

lemma select_subseq: "subseq (select ks xs) xs"
  by (induction ks xs rule: select.induct) auto

lemma select_map [select_simps]: "select ks (map f xs) = map f (select ks xs)"
  by (induction ks xs rule: select.induct) auto

lemma set_select_subset: "set (select ks xs) \<subseteq> set xs"
  by (induction ks xs rule: select.induct) auto

lemma length_select_le: "length (select ks xs) \<le> length xs"
  by (induction ks xs rule: select.induct) auto


subsection \<open>Systems with an invariant\<close>

text \<open>
  The contract between the steps of a component and the invariant its clients rely on: it
  holds at the start and every step keeps it.
\<close>

locale inv_system =
  fixes start :: "'s \<Rightarrow> bool" and step :: "'s \<Rightarrow> 's \<Rightarrow> bool" and inv :: "'s \<Rightarrow> bool"
  assumes start_inv: "start s \<Longrightarrow> inv s"
    and step_inv: "inv s \<Longrightarrow> step s t \<Longrightarrow> inv t"
begin

lemma steps_inv: "step\<^sup>*\<^sup>* s t \<Longrightarrow> inv s \<Longrightarrow> inv t"
  by (induction rule: rtranclp_induct) (auto intro: step_inv)

lemma reachable_inv: "start s \<Longrightarrow> step\<^sup>*\<^sup>* s t \<Longrightarrow> inv t"
  by (blast intro: steps_inv start_inv)

end

end
