(* ===== verification/Event_Bus.thy ===== *)
theory Event_Bus
  imports Prelude
begin

text \<open>
  internal/events/events.go: the in-process event bus behind the dashboard's event stream.

  A channel of capacity \<open>clientSize\<close> is the list of the events it buffers, the map of
  subscribed channels a partial map from channel identities to those lists. A
  non-blocking send adds at the end when there is room, a non-blocking receive drops the
  head. Every operation holds the bus mutex and is one step; a receive by a client is a
  step of its own. Event identifiers are \<open>uint64\<close>: \<open>u64\<close> writes their wrap-around.
\<close>

definition u64 :: "nat \<Rightarrow> nat" where
  "u64 n = n mod 2 ^ 64"

record event =
  ev_ID :: nat
  ev_Name :: string
  ev_Data :: "(string \<times> any) list"

record bus =
  bus_next :: nat
  bus_replay :: "event list"
  bus_clients :: "nat \<Rightarrow> event list option"
  replaySize :: nat
  clientSize :: nat

definition bus_New :: "nat \<Rightarrow> nat \<Rightarrow> bus" where
  "bus_New rs cs = \<lparr>bus_next = 0, bus_replay = [], bus_clients = (\<lambda>_. None),
     replaySize = rs, clientSize = cs\<rparr>"

definition gap_event :: "nat \<Rightarrow> string \<Rightarrow> event" where
  "gap_event i reason = \<lparr>ev_ID = i, ev_Name = ''gap'', ev_Data = [(''reason'', AStr reason)]\<rparr>"

text \<open>The select statement of Publish for one client: send, else drop the oldest and send a gap.\<close>

definition offer :: "nat \<Rightarrow> event \<Rightarrow> event list \<Rightarrow> event list" where
  "offer cap ev q =
     (if length q < cap then q @ [ev]
      else let q' = tl q
           in if length q' < cap then q' @ [gap_event (ev_ID ev) ''slow_client''] else q')"

definition keep_last :: "nat \<Rightarrow> 'a list \<Rightarrow> 'a list" where
  "keep_last n xs = (if n < length xs then drop (length xs - n) xs else xs)"

definition Publish :: "bus \<Rightarrow> string \<Rightarrow> (string \<times> any) list \<Rightarrow> bus \<times> event" where
  "Publish b name data =
     (let i = u64 (bus_next b + 1);
          ev = \<lparr>ev_ID = i, ev_Name = name, ev_Data = data\<rparr>
      in (b\<lparr>bus_next := i,
            bus_replay := keep_last (replaySize b) (bus_replay b @ [ev]),
            bus_clients := (\<lambda>c. map_option (offer (clientSize b) ev) (bus_clients b c))\<rparr>, ev))"

text \<open>
  What Subscribe puts into a fresh channel. The sends are blocking: when they do not fit
  the channel, Subscribe never returns (it holds the mutex), which is \<open>None\<close>.
\<close>

definition initial_queue :: "bus \<Rightarrow> nat \<Rightarrow> bool \<Rightarrow> event list option" where
  "initial_queue b after replayRequested =
     (if \<not> replayRequested then Some []
      else let replay = filter (\<lambda>ev. after < ev_ID ev) (bus_replay b);
               gap = (bus_replay b \<noteq> [] \<and> u64 (after + 1) < ev_ID (hd (bus_replay b))
                      \<or> clientSize b < length replay);
               q = (if gap
                    then gap_event (bus_next b) ''replay_unavailable''
                         # keep_last (clientSize b - 1) replay
                    else replay)
           in if length q \<le> clientSize b then Some q else None)"

definition Subscribe :: "bus \<Rightarrow> nat \<Rightarrow> nat \<Rightarrow> bool \<Rightarrow> bus option" where
  "Subscribe b channel after replayRequested =
     (case initial_queue b after replayRequested of
        None \<Rightarrow> None
      | Some q \<Rightarrow> Some (b\<lparr>bus_clients := (bus_clients b)(channel \<mapsto> q)\<rparr>))"

definition Unsubscribe :: "bus \<Rightarrow> nat \<Rightarrow> bus" where
  "Unsubscribe b channel = b\<lparr>bus_clients := (bus_clients b)(channel := None)\<rparr>"

definition bus_receive :: "bus \<Rightarrow> nat \<Rightarrow> bus" where
  "bus_receive b channel =
     (case bus_clients b channel of
        Some (ev # q) \<Rightarrow> b\<lparr>bus_clients := (bus_clients b)(channel \<mapsto> q)\<rparr>
      | _ \<Rightarrow> b)"

inductive bus_step :: "bus \<Rightarrow> bus \<Rightarrow> bool" where
  publish: "bus_next b + 1 < 2 ^ 64 \<Longrightarrow> bus_step b (fst (Publish b name data))"
| subscribe: "bus_clients b c = None \<Longrightarrow> after < 2 ^ 64 \<Longrightarrow>
     Subscribe b c after r = Some b' \<Longrightarrow> bus_step b b'"
| unsubscribe: "bus_step b (Unsubscribe b c)"
| receive: "bus_step b (bus_receive b c)"

inductive bus_reachable :: "nat \<Rightarrow> nat \<Rightarrow> bus \<Rightarrow> bool" for rs cs where
  start: "bus_reachable rs cs (bus_New rs cs)"
| step: "bus_reachable rs cs b \<Longrightarrow> bus_step b b' \<Longrightarrow> bus_reachable rs cs b'"

inductive_cases bus_stepE: "bus_step b b'"

subsection \<open>The invariant\<close>

definition last_id :: "event list \<Rightarrow> nat option" where
  "last_id q = (if q = [] then None else Some (ev_ID (last q)))"

definition bus_inv :: "bus \<Rightarrow> bool" where
  "bus_inv b \<longleftrightarrow>
     bus_next b < 2 ^ 64 \<and> length (bus_replay b) \<le> replaySize b
     \<and> length (bus_replay b) = min (replaySize b) (bus_next b)
     \<and> map ev_ID (bus_replay b) = [Suc (bus_next b - length (bus_replay b)) ..< Suc (bus_next b)]
     \<and> (\<forall>c q. bus_clients b c = Some q \<longrightarrow> length q \<le> clientSize b)"

lemma length_keep_last [simp]: "length (keep_last n xs) = min n (length xs)"
  by (simp add: keep_last_def)

lemma keep_last_upt:
  "keep_last n [i..<j] = [max i (j - n)..<j]"
proof (cases "n < j - i")
  case True
  then show ?thesis by (simp add: keep_last_def max_def)
next
  case False
  then have "max i (j - n) = i" by simp
  then show ?thesis using False by (simp add: keep_last_def)
qed

lemma map_keep_last: "map f (keep_last n xs) = keep_last n (map f xs)"
  by (simp add: keep_last_def drop_map)

lemma length_offer_le: "length q \<le> cap \<Longrightarrow> length (offer cap ev q) \<le> cap"
  by (auto simp: offer_def Let_def)

lemma bus_inv_New: "bus_inv (bus_New rs cs)"
  by (simp add: bus_inv_def bus_New_def)

lemma bus_inv_Publish:
  assumes inv: "bus_inv b" and room: "bus_next b + 1 < 2 ^ 64"
  shows "bus_inv (fst (Publish b name data))"
proof -
  let ?b = "fst (Publish b name data)" and ?n = "bus_next b" and ?l = "length (bus_replay b)"
  have ids: "map ev_ID (bus_replay b) = [Suc (?n - ?l)..<Suc ?n]"
    and len: "?l = min (replaySize b) ?n"
    using inv by (auto simp: bus_inv_def)
  have "map ev_ID (bus_replay ?b) = keep_last (replaySize b) ([Suc (?n - ?l)..<Suc ?n] @ [Suc ?n])"
    using ids room by (simp add: Publish_def Let_def map_keep_last u64_def)
  also have "\<dots> = keep_last (replaySize b) [Suc (?n - ?l)..<Suc (Suc ?n)]"
    by simp
  also have "\<dots> = [max (Suc (?n - ?l)) (Suc (Suc ?n) - replaySize b)..<Suc (Suc ?n)]"
    by (rule keep_last_upt)
  also have "max (Suc (?n - ?l)) (Suc (Suc ?n) - replaySize b)
      = Suc (bus_next ?b - length (bus_replay ?b))"
    using len room by (simp add: Publish_def Let_def u64_def min_def max_def) arith
  also have "Suc (Suc ?n) = Suc (bus_next ?b)"
    using room by (simp add: Publish_def Let_def u64_def)
  finally have "map ev_ID (bus_replay ?b) = [Suc (bus_next ?b - length (bus_replay ?b))..<Suc (bus_next ?b)]" .
  moreover have "\<forall>c q. bus_clients ?b c = Some q \<longrightarrow> length q \<le> clientSize ?b"
    using inv by (auto simp: bus_inv_def Publish_def Let_def length_offer_le)
  moreover have "length (bus_replay ?b) = min (replaySize ?b) (bus_next ?b)" "bus_next ?b < 2 ^ 64"
    using len room by (auto simp: Publish_def Let_def u64_def min_def)
  ultimately show ?thesis
    by (simp add: bus_inv_def)
qed

lemma initial_queue_length: "initial_queue b after r = Some q \<Longrightarrow> length q \<le> clientSize b"
  by (auto simp: initial_queue_def Let_def split: if_splits)

lemma bus_inv_step: "bus_step b b' \<Longrightarrow> bus_inv b \<Longrightarrow> bus_inv b'"
proof (induction rule: bus_step.induct)
  case (publish b name data)
  then show ?case by (simp add: bus_inv_Publish)
next
  case (subscribe b c after r b')
  then show ?case
    by (auto simp: bus_inv_def Subscribe_def dest: initial_queue_length
        split: option.splits if_splits simp del: upt_Suc)
next
  case (unsubscribe b c)
  then show ?case by (auto simp: bus_inv_def Unsubscribe_def)
next
  case (receive b c)
  then show ?case
    by (fastforce simp: bus_inv_def bus_receive_def split: option.splits list.splits)
qed

lemma bus_reachable_inv: "bus_reachable rs cs b \<Longrightarrow> bus_inv b"
  by (induction rule: bus_reachable.induct) (auto intro: bus_inv_New bus_inv_step)

lemma bus_step_sizes: "bus_step b b' \<Longrightarrow> replaySize b' = replaySize b \<and> clientSize b' = clientSize b"
  by (induction rule: bus_step.induct)
    (auto simp: Publish_def Let_def Subscribe_def Unsubscribe_def bus_receive_def
          split: option.splits list.splits)

lemma bus_reachable_sizes: "bus_reachable rs cs b \<Longrightarrow> replaySize b = rs \<and> clientSize b = cs"
  by (induction rule: bus_reachable.induct) (auto simp: bus_New_def dest: bus_step_sizes)

subsection \<open>What a subscriber sees\<close>

lemma filter_gt_upt: "filter (\<lambda>i. a < i) [m..<n] = [max (Suc a) m..<n]"
  by (induction n) (auto simp: max_def not_less le_Suc_eq)

lemma replay_ids_after:
  assumes "bus_inv b"
  shows "map ev_ID (filter (\<lambda>ev. after < ev_ID ev) (bus_replay b))
    = [max (Suc after) (Suc (bus_next b - length (bus_replay b)))..<Suc (bus_next b)]"
proof -
  have "map ev_ID (filter (\<lambda>ev. after < ev_ID ev) (bus_replay b))
      = filter (\<lambda>i. after < i) (map ev_ID (bus_replay b))"
    by (simp add: filter_map o_def)
  also have "\<dots> = filter (\<lambda>i. after < i)
      [Suc (bus_next b - length (bus_replay b))..<Suc (bus_next b)]"
    using assms by (simp add: bus_inv_def del: upt_Suc)
  finally show ?thesis by (simp only: filter_gt_upt)
qed

lemma hd_replay_id:
  assumes "bus_inv b" and "bus_replay b \<noteq> []"
  shows "ev_ID (hd (bus_replay b)) = Suc (bus_next b - length (bus_replay b))"
proof -
  have "ev_ID (hd (bus_replay b)) = hd (map ev_ID (bus_replay b))"
    using assms(2) by (simp add: hd_map)
  also have "\<dots> = hd [Suc (bus_next b - length (bus_replay b))..<Suc (bus_next b)]"
    using assms(1) by (simp add: bus_inv_def del: upt_Suc)
  also have "\<dots> = Suc (bus_next b - length (bus_replay b))"
    using assms length_greater_0_conv [of "bus_replay b"]
    by (intro hd_upt) (simp add: bus_inv_def min_def split: if_splits)
  finally show ?thesis .
qed

lemma no_gap_replay_ids:
  assumes inv: "bus_inv b" and after: "after \<le> bus_next b" and "u64 (after + 1) = after + 1"
    and nogap: "\<not> (bus_replay b \<noteq> [] \<and> after + 1 < ev_ID (hd (bus_replay b)))"
    and some: "bus_replay b = [] \<Longrightarrow> bus_next b = 0"
  shows "map ev_ID (filter (\<lambda>ev. after < ev_ID ev) (bus_replay b)) = [Suc after..<Suc (bus_next b)]"
proof -
  have "max (Suc after) (Suc (bus_next b - length (bus_replay b))) = Suc after"
  proof (cases "bus_replay b = []")
    case True
    then show ?thesis using some after by simp
  next
    case False
    then show ?thesis using nogap hd_replay_id [OF inv False] by (simp add: max_def)
  qed
  then show ?thesis by (simp only: replay_ids_after [OF inv])
qed

lemma keep_last_ids:
  assumes "map ev_ID xs = [Suc m..<Suc n]" and "m \<le> n"
  shows "map ev_ID (keep_last k xs) = [Suc (n - length (keep_last k xs))..<Suc n]"
proof -
  have len: "length xs = n - m"
    using arg_cong [OF assms(1), of length] by (simp del: upt_Suc)
  have "map ev_ID (keep_last k xs) = [max (Suc m) (Suc n - k)..<Suc n]"
    by (simp only: map_keep_last assms(1) keep_last_upt)
  moreover have "length (keep_last k xs) > 0 \<Longrightarrow>
      max (Suc m) (Suc n - k) = Suc (n - length (keep_last k xs))"
    using len assms(2) by (simp add: max_def min_def) arith
  ultimately show ?thesis
    by (cases "keep_last k xs = []") (simp_all del: upt_Suc length_keep_last)
qed

lemma subscribe_queue:
  assumes inv: "bus_inv b" and after: "after \<le> bus_next b"
    and rs: "0 < replaySize b" and cs: "0 < clientSize b" and q: "initial_queue b after True = Some q"
  shows "map ev_ID q = [Suc after..<Suc (bus_next b)]
    \<or> (\<exists>rest. q = gap_event (bus_next b) ''replay_unavailable'' # rest
        \<and> map ev_ID rest = [Suc (bus_next b - length rest)..<Suc (bus_next b)])"
proof -
  let ?replay = "filter (\<lambda>ev. after < ev_ID ev) (bus_replay b)"
  let ?gap = "bus_replay b \<noteq> [] \<and> u64 (after + 1) < ev_ID (hd (bus_replay b))
    \<or> clientSize b < length ?replay"
  have empty: "bus_replay b = [] \<Longrightarrow> bus_next b = 0"
    using inv rs by (auto simp: bus_inv_def min_def split: if_splits)
  show ?thesis
  proof (cases ?gap)
    case True
    let ?m = "max after (bus_next b - length (bus_replay b))"
    have "map ev_ID ?replay = [Suc ?m..<Suc (bus_next b)]"
      by (simp only: replay_ids_after [OF inv] max_Suc_Suc)
    then have "map ev_ID (keep_last (clientSize b - 1) ?replay)
        = [Suc (bus_next b - length (keep_last (clientSize b - 1) ?replay))..<Suc (bus_next b)]"
      by (rule keep_last_ids) (use after in simp)
    moreover have "q = gap_event (bus_next b) ''replay_unavailable''
        # keep_last (clientSize b - 1) ?replay"
      using q True by (simp add: initial_queue_def Let_def split: if_splits)
    ultimately show ?thesis by blast
  next
    case False
    then have q': "q = ?replay"
      using q by (simp add: initial_queue_def Let_def split: if_splits)
    have "map ev_ID ?replay = [Suc after..<Suc (bus_next b)]"
    proof (cases "after = bus_next b")
      case True
      then show ?thesis by (simp add: replay_ids_after [OF inv] del: upt_Suc)
    next
      case after_less: False
      have "u64 (after + 1) = after + 1"
        using inv after after_less by (simp add: u64_def bus_inv_def)
      then show ?thesis
        using False by (intro no_gap_replay_ids [OF inv after _ _ empty]) auto
    qed
    then show ?thesis using q' by blast
  qed
qed

lemma subscribe_returns:
  "0 < clientSize b \<Longrightarrow> \<exists>q. initial_queue b after r = Some q"
  by (auto simp: initial_queue_def Let_def)

lemma offer_full:
  "0 < cap \<Longrightarrow> length q \<le> cap \<Longrightarrow>
   offer cap ev q = q @ [ev] \<and> length q < cap
   \<or> offer cap ev q = tl q @ [gap_event (ev_ID ev) ''slow_client''] \<and> length q = cap"
  by (auto simp: offer_def Let_def)


definition bus_example :: bus where
  "bus_example = fst (Publish (fst (Publish (bus_New 1 2) ''a'' [])) ''b'' [])"

lemma bus_example_reachable: "bus_reachable 1 2 bus_example"
  unfolding bus_example_def
  by (intro bus_reachable.step [OF _ bus_step.publish] bus_reachable.start)
    (auto simp: Publish_def bus_New_def Let_def u64_def)


text \<open>
  C28: Publishing reaches every subscriber within its buffer: the new event is appended when
  there is room, and otherwise the oldest buffered event gives way to a gap marker that
  carries the new event's identifier; no buffer exceeds the configured client size.
\<close>

theorem publish_reaches_every_client:
  assumes "bus_reachable rs cs b" and "0 < cs" and "bus_clients b c = Some q"
  shows "\<exists>q'. bus_clients (fst (Publish b name data)) c = Some q' \<and> length q' \<le> cs
    \<and> (length q < cs \<and> q' = q @ [snd (Publish b name data)]
       \<or> length q = cs \<and> q' = tl q @ [gap_event (ev_ID (snd (Publish b name data))) ''slow_client''])"
proof -
  have inv: "bus_inv b" and sizes: "clientSize b = cs"
    using assms(1) bus_reachable_inv bus_reachable_sizes by auto
  then have len: "length q \<le> cs"
    using assms(3) by (auto simp: bus_inv_def)
  show ?thesis
    using offer_full [OF assms(2) len, of "snd (Publish b name data)"] assms(3) sizes
      length_offer_le [OF len, of "snd (Publish b name data)"]
    by (auto simp: Publish_def Let_def)
qed

definition bus_example_subscribed :: bus where
  "bus_example_subscribed = the (Subscribe (bus_New 1 1) 7 0 False)"

lemma bus_example_subscribed_reachable: "bus_reachable 1 1 bus_example_subscribed"
  by (rule bus_reachable.step [OF bus_reachable.start], rule bus_step.subscribe [where c = 7 and after = 0 and r = False])
    (auto simp: bus_example_subscribed_def Subscribe_def initial_queue_def bus_New_def)

theorem publish_reaches_every_client_witness:
  "\<exists>q'. bus_clients (fst (Publish bus_example_subscribed ''x'' [])) 7 = Some q' \<and> length q' \<le> 1
    \<and> (length ([] :: event list) < (1::nat) \<and> q' = [] @ [snd (Publish bus_example_subscribed ''x'' [])]
       \<or> length ([] :: event list) = (1::nat)
         \<and> q' = tl ([] :: event list) @ [gap_event (ev_ID (snd (Publish bus_example_subscribed ''x'' []))) ''slow_client''])"
  by (rule publish_reaches_every_client [OF bus_example_subscribed_reachable])
    (simp_all add: bus_example_subscribed_def Subscribe_def initial_queue_def bus_New_def)

end
