(* ===== verification/Json.thy ===== *)
theory Json
  imports Prelude "HOL-Library.AList"
begin

text \<open>
  What the request and response rewriting uses of Go's encoding/json and unicode/utf8.

  A \<open>json\<close> value is a parsed document that still knows its text, as a
  \<open>json.RawMessage\<close> does: a string keeps the literal between its quotes and the bytes
  it stands for, a number its literal, an object its fields in order with duplicates.
  \<open>json_text\<close> is the text \<open>json.Marshal\<close> writes for it (compacted, with the HTML
  escapes). Parsing text is a parameter of the operations that need it.

  A Go \<open>map[string]json.RawMessage\<close> is an association list with distinct keys;
  marshalling sorts them. \<open>unmarshal_\<dots>\<close> returns \<open>None\<close> where \<open>json.Unmarshal\<close>
  returns an error; its argument is \<open>None\<close> for the empty message, which is an error.
\<close>

datatype json =
    JNull
  | JBool bool
  | JNum string
  | JStr string string
  | JArr "json list"
  | JObj "((string \<times> string) \<times> json) list"

subsection \<open>Decimal numbers\<close>

fun itoa_nat :: "nat \<Rightarrow> string" where
  "itoa_nat n =
     (if n < 10 then [char_of (48 + n)] else itoa_nat (n div 10) @ [char_of (48 + n mod 10)])"

declare itoa_nat.simps [simp del]

definition itoa :: "int \<Rightarrow> string" where
  "itoa n = (if n < 0 then CHR ''-'' # itoa_nat (nat (- n)) else itoa_nat (nat n))"

lemma length_itoa_nat: "length (itoa_nat n) \<le> n div 10 + 1"
proof (induction n rule: itoa_nat.induct)
  case (1 n)
  show ?case
  proof (cases "n < 10")
    case True
    then show ?thesis by (simp add: itoa_nat.simps [of n])
  next
    case False
    then have "length (itoa_nat n) \<le> n div 10 div 10 + 2"
      using 1 by (simp add: itoa_nat.simps [of n])
    then show ?thesis using False by linarith
  qed
qed

subsection \<open>UTF-8\<close>

definition byte :: "char \<Rightarrow> nat" where
  "byte c = of_char c"

definition in_range :: "nat \<Rightarrow> nat \<Rightarrow> nat \<Rightarrow> bool" where
  "in_range lo hi n \<longleftrightarrow> lo \<le> n \<and> n \<le> hi"

definition cont_byte :: "char \<Rightarrow> bool" where
  "cont_byte c \<longleftrightarrow> in_range 128 191 (byte c)"

text \<open>Bytes of the rune at the front of a string; 0 where utf8.DecodeRune reports an error.\<close>

fun rune_len :: "string \<Rightarrow> nat" where
  "rune_len [] = 0"
| "rune_len (a # rest) =
     (let x = byte a in
      if x < 128 then 1
      else case rest of [] \<Rightarrow> 0
      | b # rest2 \<Rightarrow>
          (let y = byte b in
           if in_range 194 223 x then (if cont_byte b then 2 else 0)
           else case rest2 of [] \<Rightarrow> 0
           | c # rest3 \<Rightarrow>
               if x = 224 \<and> in_range 160 191 y \<or> x = 237 \<and> in_range 128 159 y
                  \<or> in_range 225 239 x \<and> x \<noteq> 237 \<and> cont_byte b
               then (if cont_byte c then 3 else 0)
               else if x = 240 \<and> in_range 144 191 y \<or> x = 244 \<and> in_range 128 143 y
                  \<or> in_range 241 243 x \<and> cont_byte b
               then (case rest3 of [] \<Rightarrow> 0
                     | d # _ \<Rightarrow> if cont_byte c \<and> cont_byte d then 4 else 0)
               else 0))"

function valid_utf8 :: "string \<Rightarrow> bool" where
  "valid_utf8 s =
     (if s = [] then True else if rune_len s = 0 then False else valid_utf8 (drop (rune_len s) s))"
  by pat_completeness auto
termination
  by (relation "measure length") auto

declare valid_utf8.simps [simp del]

definition RuneStart :: "char \<Rightarrow> bool" where
  "RuneStart c \<longleftrightarrow> \<not> cont_byte c"

subsection \<open>String literals\<close>

definition bslash :: "string \<Rightarrow> string" where
  "bslash s = CHR 0x5C # s"

definition hex_digit :: "nat \<Rightarrow> char" where
  "hex_digit n = (if n < 10 then char_of (48 + n) else char_of (87 + n))"

definition is_line_sep :: "string \<Rightarrow> bool" where
  "is_line_sep s \<longleftrightarrow> take 2 s = [CHR 0xE2, CHR 0x80]
     \<and> (take 1 (drop 2 s) = [CHR 0xA8] \<or> take 1 (drop 2 s) = [CHR 0xA9])"

definition line_sep_escape :: "string \<Rightarrow> string" where
  "line_sep_escape s = bslash (''u202'' @ (if take 1 (drop 2 s) = [CHR 0xA8] then ''8'' else ''9''))"

definition html_escape :: "char \<Rightarrow> string option" where
  "html_escape c =
     (if c = CHR ''<'' then Some (bslash ''u003c'')
      else if c = CHR ''>'' then Some (bslash ''u003e'')
      else if c = CHR ''&'' then Some (bslash ''u0026'')
      else None)"

text \<open>What compaction does to the inside of a literal that is kept as it is.\<close>

function compact_lit :: "string \<Rightarrow> string" where
  "compact_lit [] = []"
| "compact_lit (c # cs) =
     (case html_escape c of
        Some e \<Rightarrow> e @ compact_lit cs
      | None \<Rightarrow> if is_line_sep (c # cs) then line_sep_escape (c # cs) @ compact_lit (drop 2 cs)
                else c # compact_lit cs)"
  by pat_completeness auto
termination by (relation "measure length") auto

text \<open>The literal json.Marshal writes for a Go string.\<close>

definition ascii_escape :: "char \<Rightarrow> string option" where
  "ascii_escape c =
     (if c = CHR 0x22 then Some (bslash [CHR 0x22])
      else if c = CHR 0x5C then Some (bslash [CHR 0x5C])
      else if byte c = 8 then Some (bslash ''b'')
      else if byte c = 12 then Some (bslash ''f'')
      else if byte c = 10 then Some (bslash ''n'')
      else if byte c = 13 then Some (bslash ''r'')
      else if byte c = 9 then Some (bslash ''t'')
      else if byte c < 32
        then Some (bslash (''u00'' @ [hex_digit (byte c div 16), hex_digit (byte c mod 16)]))
      else html_escape c)"

function go_quote :: "string \<Rightarrow> string" where
  "go_quote [] = []"
| "go_quote (c # cs) =
     (case ascii_escape c of
        Some e \<Rightarrow> e @ go_quote cs
      | None \<Rightarrow>
          if rune_len (c # cs) = 0 then bslash ''ufffd'' @ go_quote cs
          else if is_line_sep (c # cs) then line_sep_escape (c # cs) @ go_quote (drop 2 cs)
          else c # take (rune_len (c # cs) - 1) cs @ go_quote (drop (rune_len (c # cs) - 1) cs))"
  by pat_completeness auto
termination by (relation "measure length") auto

definition go_string :: "string \<Rightarrow> json" where
  "go_string s = JStr (go_quote s) s"

subsection \<open>Marshalling\<close>

fun intercalate_comma :: "string list \<Rightarrow> string" where
  "intercalate_comma [] = []"
| "intercalate_comma [x] = x"
| "intercalate_comma (x # xs) = x @ '','' @ intercalate_comma xs"

definition quoted :: "string \<Rightarrow> string" where
  "quoted lit = [CHR 0x22] @ compact_lit lit @ [CHR 0x22]"

fun json_text :: "json \<Rightarrow> string" where
  "json_text JNull = ''null''"
| "json_text (JBool b) = (if b then ''true'' else ''false'')"
| "json_text (JNum n) = n"
| "json_text (JStr lit _) = quoted lit"
| "json_text (JArr xs) = ''['' @ intercalate_comma (map json_text xs) @ '']''"
| "json_text (JObj fs) =
     ''{'' @ intercalate_comma (map (\<lambda>f. quoted (fst (fst f)) @ '':'' @ json_text (snd f)) fs) @ ''}''"

definition marshal_map :: "(string \<times> json) list \<Rightarrow> json" where
  "marshal_map m = JObj (map (\<lambda>(k, v). ((go_quote k, k), v)) (sort_slice (\<lambda>a b. fst a < fst b) m))"

subsection \<open>Unmarshalling\<close>

definition unmarshal_map :: "json option \<Rightarrow> (string \<times> json) list option" where
  "unmarshal_map j =
     (case j of
        Some JNull \<Rightarrow> Some []
      | Some (JObj fs) \<Rightarrow> Some (fold (\<lambda>((_, k), v) m. AList.update k v m) fs [])
      | _ \<Rightarrow> None)"

definition unmarshal_array :: "json option \<Rightarrow> json list option" where
  "unmarshal_array j =
     (case j of Some JNull \<Rightarrow> Some [] | Some (JArr xs) \<Rightarrow> Some xs | _ \<Rightarrow> None)"

definition unmarshal_string :: "json option \<Rightarrow> string option" where
  "unmarshal_string j =
     (case j of Some JNull \<Rightarrow> Some [] | Some (JStr _ s) \<Rightarrow> Some s | _ \<Rightarrow> None)"

text \<open>
  A string field of a struct: keys match without regard to case, the last match wins, and a
  value that is not a string leaves the field as it is.
\<close>

definition fold_char :: "char \<Rightarrow> char" where
  "fold_char c = (if in_range 97 122 (byte c) then char_of (byte c - 32) else c)"

definition field_matches :: "string \<Rightarrow> string \<Rightarrow> bool" where
  "field_matches name key \<longleftrightarrow> map fold_char key = map fold_char name"

definition struct_string :: "string \<Rightarrow> json \<Rightarrow> string" where
  "struct_string name j =
     (case j of
        JObj fs \<Rightarrow>
          fold (\<lambda>((_, k), v) acc.
                  case v of JStr _ s \<Rightarrow> (if field_matches name k then s else acc) | _ \<Rightarrow> acc)
               fs []
      | _ \<Rightarrow> [])"

definition HasPrefix :: "string \<Rightarrow> string \<Rightarrow> bool" where
  "HasPrefix s pre \<longleftrightarrow> take (length pre) s = pre"

end
