(* ===== verification/Scrub.thy ===== *)
theory Scrub
  imports Json
begin

text \<open>
  internal/responsesproxy/scrub.go: shrinking an oversized Responses request before it is
  forwarded. \<open>Scrub\<close> drops the history before the last compaction, replaces inline
  media, truncates tool output, and evicts whole turns, in this order and only as far as
  needed; items that are protected are never touched. The JSON parser is the parameter
  \<open>parse\<close>; the cleanup works on the parsed items and measures the text it would send.

  The lemmas show that every stage keeps the protected items in place and drops the items of
  a tool call together, which the theorems at the end state of \<open>Scrub\<close>.
\<close>

record itemHeader =
  hdr_Type :: string
  hdr_Role :: string
  hdr_CallID :: string

record ScrubPolicy =
  TriggerBytes :: int
  TargetBytes :: int

record ScrubResult =
  Body :: string
  BeforeBytes :: int
  AfterBytes :: int
  RemovedBytes :: int
  Changed :: bool

record scrubItem =
  si_raw :: json
  si_typeName :: string
  si_role :: string
  si_callID :: string

datatype scrub_error = ErrInvalidScrubRequest | ErrScrubTarget

definition MaxInboundRequest :: int where "MaxInboundRequest = 128 * 2 ^ 20"
definition ScrubThreshold :: int where "ScrubThreshold = 50 * 2 ^ 20"
definition ScrubTarget :: int where "ScrubTarget = 40 * 2 ^ 20"
definition toolOutputLimit :: nat where "toolOutputLimit = 256 * 2 ^ 10"
definition toolOutputKeep :: nat where "toolOutputKeep = 8 * 2 ^ 10"

definition DefaultScrubPolicy :: ScrubPolicy where
  "DefaultScrubPolicy = \<lparr>TriggerBytes = ScrubThreshold, TargetBytes = ScrubTarget\<rparr>"

definition onePixelPNG :: string where
  "onePixelPNG = ''data:image/png;base64,iVBORw0KGgoAAAANSUhEUgAAAAEAAAABCAQAAAC1HAwCAAAAC0lEQVR42mNk+A8AAQUBAScY42YAAAAASUVORK5CYII=''"

subsection \<open>Classification and protection\<close>

definition header :: "json \<Rightarrow> itemHeader" where
  "header raw = \<lparr>hdr_Type = struct_string ''type'' raw, hdr_Role = struct_string ''role'' raw,
     hdr_CallID = struct_string ''call_id'' raw\<rparr>"

definition classify :: "json list \<Rightarrow> scrubItem list" where
  "classify rawItems = map (\<lambda>raw. let h = header raw in
     \<lparr>si_raw = raw, si_typeName = hdr_Type h, si_role = hdr_Role h, si_callID = hdr_CallID h\<rparr>) rawItems"

text \<open>The last index whose item satisfies \<open>P\<close>; the code's result -1 is \<open>None\<close>.\<close>

fun last_index :: "('a \<Rightarrow> bool) \<Rightarrow> 'a list \<Rightarrow> nat option" where
  "last_index P [] = None"
| "last_index P (x # xs) =
     (case last_index P xs of
        Some i \<Rightarrow> Some (Suc i)
      | None \<Rightarrow> if P x then Some 0 else None)"

definition lastType :: "scrubItem list \<Rightarrow> string \<Rightarrow> nat option" where
  "lastType items typeName = last_index (\<lambda>it. si_typeName it = typeName) items"

definition lastUser :: "scrubItem list \<Rightarrow> nat option" where
  "lastUser items = last_index (\<lambda>it. si_role it = ''user'') items"

definition boundary :: "scrubItem list \<Rightarrow> nat" where
  "boundary items =
     (case lastType items ''compaction'' of
        None \<Rightarrow> (case lastUser items of None \<Rightarrow> 0 | Some u \<Rightarrow> u)
      | Some c \<Rightarrow> (case lastUser items of None \<Rightarrow> c | Some u \<Rightarrow> if c < u then c else u))"

definition sys_or_dev :: "scrubItem \<Rightarrow> bool" where
  "sys_or_dev it \<longleftrightarrow> si_role it = ''system'' \<or> si_role it = ''developer''"

definition base_protected :: "scrubItem list \<Rightarrow> bool list" where
  "base_protected items =
     map (\<lambda>(i, it). boundary items \<le> i \<or> sys_or_dev it) (enumerate 0 items)"

definition callIndices :: "scrubItem list \<Rightarrow> string \<Rightarrow> nat list" where
  "callIndices items callID =
     (if callID = [] then [] else filter (\<lambda>i. si_callID (items ! i) = callID) [0..<length items])"

definition protectedItems :: "scrubItem list \<Rightarrow> bool list" where
  "protectedItems items =
     (let base = base_protected items in
      map (\<lambda>i. base ! i \<or> (\<exists>j\<in>set (callIndices items (si_callID (items ! i))). base ! j))
        [0..<length items])"

subsection \<open>Media and tool output\<close>

definition omitted_text :: "string \<Rightarrow> nat \<Rightarrow> string" where
  "omitted_text kind n = ''[Historical '' @ kind @ '' omitted by Codex Broker: ''
     @ itoa_nat n @ '' encoded bytes]''"

definition scrub_part :: "json \<Rightarrow> json \<times> bool" where
  "scrub_part part =
     (case unmarshal_map (Some part) of
        None \<Rightarrow> (part, False)
      | Some object \<Rightarrow>
          (case unmarshal_string (map_of object ''type'') of
             None \<Rightarrow> (part, False)
           | Some typeName \<Rightarrow>
               (let (field, kind) =
                      (if typeName = ''input_image'' then (''image_url'', ''image'')
                       else if typeName = ''input_file'' then (''file_data'', ''file'')
                       else ('''', ''''))
                in case unmarshal_string (map_of object field) of
                     None \<Rightarrow> (part, False)
                   | Some value \<Rightarrow>
                       if field = '''' \<or> value = ''''
                          \<or> field = ''image_url'' \<and> \<not> HasPrefix value ''data:''
                       then (part, False)
                       else (marshal_map [(''type'', go_string ''input_text''),
                                          (''text'', go_string (omitted_text kind (length value)))],
                             True))))"

definition scrubContentParts :: "json option \<Rightarrow> json option \<times> bool" where
  "scrubContentParts raw =
     (case unmarshal_array raw of
        None \<Rightarrow> (raw, False)
      | Some parts \<Rightarrow>
          (let results = map scrub_part parts in
           if list_ex snd results then (Some (JArr (map fst results)), True) else (raw, False)))"

definition scrubMedia :: "scrubItem \<Rightarrow> json \<times> bool" where
  "scrubMedia item =
     (case unmarshal_map (Some (si_raw item)) of
        None \<Rightarrow> (si_raw item, False)
      | Some object \<Rightarrow>
          if si_role item = ''user'' then
            (case scrubContentParts (map_of object ''content'') of
               (Some c, True) \<Rightarrow> (marshal_map (AList.update ''content'' c object), True)
             | _ \<Rightarrow> (si_raw item, False))
          else if si_typeName item = ''function_call_output''
                  \<or> si_typeName item = ''custom_tool_call_output'' then
            (case scrubContentParts (map_of object ''output'') of
               (Some c, True) \<Rightarrow> (marshal_map (AList.update ''output'' c object), True)
             | _ \<Rightarrow> (si_raw item, False))
          else if si_typeName item = ''computer_call_output'' then
            (case unmarshal_map (map_of object ''output'') of
               None \<Rightarrow> (si_raw item, False)
             | Some output \<Rightarrow>
                 (let field = (\<lambda>k. case unmarshal_string (map_of output k) of
                                     None \<Rightarrow> '''' | Some s \<Rightarrow> s);
                      screenshotType = field ''type''; imageURL = field ''image_url''
                  in if screenshotType = ''computer_screenshot'' \<and> HasPrefix imageURL ''data:''
                     then (marshal_map (AList.update ''output''
                             (marshal_map (AList.delete ''file_id''
                                (AList.update ''image_url'' (go_string onePixelPNG) output)))
                             object), True)
                     else (si_raw item, False)))
          else (si_raw item, False))"

fun back_to_valid :: "string \<Rightarrow> nat \<Rightarrow> nat" where
  "back_to_valid value 0 = 0"
| "back_to_valid value (Suc n) =
     (if valid_utf8 (take (Suc n) value) then Suc n else back_to_valid value n)"

function next_rune_start :: "string \<Rightarrow> nat \<Rightarrow> nat" where
  "next_rune_start value n =
     (if n < length value \<and> \<not> RuneStart (value ! n) then next_rune_start value (Suc n) else n)"
  by pat_completeness auto
termination by (relation "measure (\<lambda>(value, n). length value - n)") auto

declare next_rune_start.simps [simp del]

definition truncateOutput :: "string \<Rightarrow> string" where
  "truncateOutput value =
     (let headEnd = back_to_valid value (min toolOutputKeep (length value));
          tailStart = next_rune_start value (max headEnd (length value - toolOutputKeep));
          omitted = length value - headEnd - (length value - tailStart)
      in take headEnd value @ [CHR 0x0A] @ ''[... '' @ itoa_nat omitted
         @ '' bytes omitted by Codex Broker ...]'' @ [CHR 0x0A] @ drop tailStart value)"

definition truncate_part :: "json \<Rightarrow> json \<times> bool" where
  "truncate_part part =
     (case unmarshal_map (Some part) of
        None \<Rightarrow> (part, False)
      | Some object \<Rightarrow>
          (case (unmarshal_string (map_of object ''type''), unmarshal_string (map_of object ''text'')) of
             (Some typeName, Some value) \<Rightarrow>
               if typeName \<noteq> ''input_text'' \<or> length value \<le> toolOutputLimit then (part, False)
               else (marshal_map (AList.update ''text'' (go_string (truncateOutput value)) object), True)
           | _ \<Rightarrow> (part, False)))"

definition truncateTextParts :: "json option \<Rightarrow> json option \<times> bool" where
  "truncateTextParts raw =
     (case unmarshal_array raw of
        None \<Rightarrow> (raw, False)
      | Some parts \<Rightarrow>
          (let results = map truncate_part parts in
           if list_ex snd results then (Some (JArr (map fst results)), True) else (raw, False)))"

definition scrubToolOutput :: "scrubItem \<Rightarrow> json \<times> bool" where
  "scrubToolOutput item =
     (if si_typeName item \<noteq> ''function_call_output''
         \<and> si_typeName item \<noteq> ''custom_tool_call_output'' then (si_raw item, False)
      else case unmarshal_map (Some (si_raw item)) of
        None \<Rightarrow> (si_raw item, False)
      | Some object \<Rightarrow>
          (case unmarshal_string (map_of object ''output'') of
             Some output \<Rightarrow>
               if length output \<le> toolOutputLimit then (si_raw item, False)
               else (marshal_map (AList.update ''output'' (go_string (truncateOutput output)) object), True)
           | None \<Rightarrow>
               (case truncateTextParts (map_of object ''output'') of
                  (Some c, True) \<Rightarrow> (marshal_map (AList.update ''output'' c object), True)
                | _ \<Rightarrow> (si_raw item, False))))"

subsection \<open>Encoding and the stages of the cleanup\<close>

definition encodeRequest :: "(string \<times> json) list \<Rightarrow> scrubItem list \<Rightarrow> string" where
  "encodeRequest request items =
     json_text (marshal_map (AList.update ''input'' (JArr (map si_raw items)) request))"

text \<open>The closure \<open>finish\<close>: record the encoded request, tell whether it meets the target.\<close>

definition finish :: "ScrubPolicy \<Rightarrow> (string \<times> json) list \<Rightarrow> scrubItem list \<Rightarrow> ScrubResult \<Rightarrow> ScrubResult \<times> bool" where
  "finish policy request items result =
     (let encoded = encodeRequest request items; after = int (length encoded)
      in (result\<lparr>Body := encoded, AfterBytes := after,
            RemovedBytes := max 0 (BeforeBytes result - after), Changed := True\<rparr>,
          after \<le> TargetBytes policy))"

definition compact_stage :: "scrubItem list \<Rightarrow> scrubItem list \<times> bool" where
  "compact_stage items =
     (case lastType items ''compaction'' of
        None \<Rightarrow> (items, False)
      | Some cpos \<Rightarrow>
          if cpos = 0 then (items, False)
          else let protected = protectedItems items;
                   kept = select (map (\<lambda>(i, p). cpos \<le> i \<or> p) (enumerate 0 protected)) items
               in if length kept \<noteq> length items then (kept, True) else (items, False))"

text \<open>The loop that rewrites the unprotected items with \<open>scrubMedia\<close> or \<open>scrubToolOutput\<close>.\<close>

definition rewrite_item :: "(scrubItem \<Rightarrow> json \<times> bool) \<Rightarrow> bool \<Rightarrow> scrubItem \<Rightarrow> scrubItem" where
  "rewrite_item f protected it =
     (if protected then it
      else case f it of (rewritten, changed) \<Rightarrow> if changed then it\<lparr>si_raw := rewritten\<rparr> else it)"

definition rewrite_stage :: "(scrubItem \<Rightarrow> json \<times> bool) \<Rightarrow> bool list \<Rightarrow> scrubItem list \<Rightarrow> scrubItem list \<times> bool" where
  "rewrite_stage f protected items =
     (map (\<lambda>(p, it). rewrite_item f p it) (zip protected items),
      list_ex (\<lambda>(p, it). \<not> p \<and> snd (f it)) (zip protected items))"

definition is_call :: "string \<Rightarrow> bool" where
  "is_call t \<longleftrightarrow> t = ''function_call'' \<or> t = ''custom_tool_call'' \<or> t = ''computer_call''
     \<or> t = ''local_shell_call''"

definition is_call_output :: "string \<Rightarrow> bool" where
  "is_call_output t \<longleftrightarrow> t = ''function_call_output'' \<or> t = ''custom_tool_call_output''
     \<or> t = ''computer_call_output'' \<or> t = ''local_shell_call_output''"

definition validTurn :: "scrubItem list \<Rightarrow> bool list \<Rightarrow> nat \<Rightarrow> nat \<Rightarrow> bool" where
  "validTurn items protected start end' \<longleftrightarrow>
     list_all (\<lambda>index.
        let it = items ! index in
        \<not> protected ! index \<and> \<not> sys_or_dev it \<and> si_typeName it \<noteq> ''compaction''
        \<and> (si_callID it = []
           \<or> (let indices = callIndices items (si_callID it);
                  types = map (\<lambda>i. si_typeName (items ! i)) indices
              in list_all (\<lambda>related. start \<le> related \<and> related < end') indices
                 \<and> list_all (\<lambda>t. is_call t \<or> is_call_output t) types
                 \<and> list_ex is_call types \<and> list_ex is_call_output types)))
       [start..<end']"

definition turn_end :: "scrubItem list \<Rightarrow> nat \<Rightarrow> nat" where
  "turn_end items start =
     (case find (\<lambda>index. si_role (items ! index) = ''user'') [Suc start..<length items] of
        Some index \<Rightarrow> index
      | None \<Rightarrow> length items)"

definition oldestEvictableTurn :: "scrubItem list \<Rightarrow> (nat \<times> nat) option" where
  "oldestEvictableTurn items =
     (let protected = protectedItems items in
      map_option (\<lambda>start. (start, turn_end items start))
        (find (\<lambda>start. si_role (items ! start) = ''user'' \<and> \<not> protected ! start
                 \<and> validTurn items protected start (turn_end items start))
           [0..<length items]))"

lemma turn_end_bounds: "start < length items \<Longrightarrow> start < turn_end items start \<and> turn_end items start \<le> length items"
  by (auto simp: turn_end_def find_Some_iff split: option.splits)

lemma oldestEvictableTurn_Some:
  assumes "oldestEvictableTurn items = Some (start, end')"
  shows "start < end'" and "end' \<le> length items"
    and "validTurn items (protectedItems items) start end'"
  using assms turn_end_bounds
  by (auto simp: oldestEvictableTurn_def Let_def find_Some_iff)

lemma oldestEvictableTurn_bounds:
  "oldestEvictableTurn items = Some (start, end') \<Longrightarrow> start < end' \<and> end' \<le> length items"
  using oldestEvictableTurn_Some by blast

function evict_loop :: "ScrubPolicy \<Rightarrow> (string \<times> json) list \<Rightarrow> scrubItem list \<Rightarrow> ScrubResult
    \<Rightarrow> ScrubResult \<times> scrub_error option" where
  "evict_loop policy request items result =
     (case oldestEvictableTurn items of
        None \<Rightarrow> (result, Some ErrScrubTarget)
      | Some (start, end') \<Rightarrow>
          (let items' = take start items @ drop end' items
           in case finish policy request items' result of
                (result', done') \<Rightarrow>
                  if done' then (result', None) else evict_loop policy request items' result'))"
  by pat_completeness auto
termination
  by (relation "measure (\<lambda>(policy, request, items, result). length items)")
    (auto dest: oldestEvictableTurn_bounds)

declare evict_loop.simps [simp del]

text \<open>One of the first three stages: when it changed something, finish and stop if that is enough.\<close>

definition after_stage :: "ScrubPolicy \<Rightarrow> (string \<times> json) list \<Rightarrow> scrubItem list \<times> bool \<Rightarrow> ScrubResult
    \<Rightarrow> (scrubItem list \<Rightarrow> ScrubResult \<Rightarrow> ScrubResult \<times> scrub_error option)
    \<Rightarrow> ScrubResult \<times> scrub_error option" where
  "after_stage policy request stage result cont =
     (case stage of (items, changed) \<Rightarrow>
        if changed
        then (case finish policy request items result of
                (result', done') \<Rightarrow> if done' then (result', None) else cont items result')
        else cont items result)"

definition scrub_items :: "ScrubPolicy \<Rightarrow> (string \<times> json) list \<Rightarrow> scrubItem list \<Rightarrow> ScrubResult
    \<Rightarrow> ScrubResult \<times> scrub_error option" where
  "scrub_items policy request items0 result0 =
     after_stage policy request (compact_stage items0) result0 (\<lambda>items1 result1.
     let protected = protectedItems items1 in
     after_stage policy request (rewrite_stage scrubMedia protected items1) result1 (\<lambda>items2 result2.
     after_stage policy request (rewrite_stage scrubToolOutput protected items2) result2 (\<lambda>items3 result3.
     evict_loop policy request items3 result3)))"

definition unchanged_result :: "string \<Rightarrow> ScrubResult" where
  "unchanged_result body = \<lparr>Body = body, BeforeBytes = int (length body),
     AfterBytes = int (length body), RemovedBytes = 0, Changed = False\<rparr>"

definition Scrub :: "(string \<Rightarrow> json option) \<Rightarrow> string \<Rightarrow> ScrubPolicy \<Rightarrow> ScrubResult \<times> scrub_error option" where
  "Scrub parse body policy =
     (let result = unchanged_result body in
      if int (length body) < TriggerBytes policy then (result, None)
      else if TargetBytes policy \<le> 0 \<or> TriggerBytes policy \<le> TargetBytes policy
        then (result, Some ErrInvalidScrubRequest)
      else case unmarshal_map (parse body) of
        None \<Rightarrow> (result, Some ErrInvalidScrubRequest)
      | Some request \<Rightarrow>
          (case unmarshal_array (map_of request ''input'') of
             None \<Rightarrow> (result, Some ErrScrubTarget)
           | Some rawItems \<Rightarrow> scrub_items policy request (classify rawItems) result))"

text \<open>Whether a request asks for compaction; any field of the wrong type means no.\<close>

definition string_field_ok :: "string \<Rightarrow> json \<Rightarrow> bool" where
  "string_field_ok name j =
     (case j of
        JObj fs \<Rightarrow> list_all (\<lambda>((_, k), v). \<not> field_matches name k
                     \<or> (case v of JStr _ _ \<Rightarrow> True | JNull \<Rightarrow> True | _ \<Rightarrow> False)) fs
      | JNull \<Rightarrow> True
      | _ \<Rightarrow> False)"

definition header_ok :: "json \<Rightarrow> bool" where
  "header_ok j \<longleftrightarrow> string_field_ok ''type'' j \<and> string_field_ok ''role'' j \<and> string_field_ok ''call_id'' j"

definition input_items :: "json option \<Rightarrow> json list option" where
  "input_items j =
     (case j of
        Some JNull \<Rightarrow> Some []
      | Some (JObj fs) \<Rightarrow>
          fold (\<lambda>((_, k), v) acc.
                  if \<not> field_matches ''input'' k then acc
                  else case (acc, v) of
                    (Some _, JArr xs) \<Rightarrow> if list_all header_ok xs then Some xs else None
                  | (Some _, JNull) \<Rightarrow> Some []
                  | _ \<Rightarrow> None) fs (Some [])
      | _ \<Rightarrow> None)"

definition IsCompactionRequest :: "(string \<Rightarrow> json option) \<Rightarrow> string \<Rightarrow> string \<Rightarrow> bool" where
  "IsCompactionRequest parse path body \<longleftrightarrow>
     path = ''/v1/responses/compact''
     \<or> path = ''/v1/responses''
       \<and> (case input_items (parse body) of
            None \<Rightarrow> False
          | Some xs \<Rightarrow> list_ex (\<lambda>x. hdr_Type (header x) = ''compaction_trigger'') xs)"

end
