(* ===== verification/Scrub_Correct.thy ===== *)
theory Scrub_Correct
  imports Scrub
begin

text \<open>
  What the cleanup of \<open>Scrub\<close> guarantees. \<open>preserves a b\<close> says that the items \<open>b\<close> still
  hold the protected items of \<open>a\<close>, unchanged and in order, and the items of a tool call
  either all or not at all. Each stage preserves; the theorems lift this to \<open>Scrub\<close>.
\<close>

subsection \<open>Selecting items by a mask\<close>

lemma select_append [select_simps]:
  "length ks = length xs \<Longrightarrow> select (ks @ ls) (xs @ ys) = select ks xs @ select ls ys"
  by (induction ks xs rule: list_induct2) auto

lemma select_all [select_simps]: "select (replicate (length xs) True) xs = xs"
  by (induction xs) auto

lemma select_none [select_simps]: "select (replicate (length xs) False) xs = []"
  by (induction xs) auto

lemma select_zip [select_simps]:
  "length ks = length xs \<Longrightarrow> length bs = length xs \<Longrightarrow>
   zip (select ks bs) (select ks xs) = select ks (zip bs xs)"
  by (induction ks xs arbitrary: bs rule: list_induct2) (auto simp: length_Suc_conv)

lemma select_select [select_simps]:
  "length ks = length xs \<Longrightarrow> list_all2 (\<longrightarrow>) ps ks \<Longrightarrow>
   select (select ks ps) (select ks xs) = select ps xs"
proof (induction ks xs arbitrary: ps rule: list_induct2)
  case Nil
  then show ?case by simp
next
  case (Cons k ks x xs)
  then show ?case by (cases ps) auto
qed

lemma in_set_select:
  "length ks = length xs \<Longrightarrow> x \<in> set (select ks xs) \<longleftrightarrow> (\<exists>i<length xs. ks ! i \<and> xs ! i = x)"
proof (induction ks xs rule: list_induct2)
  case Nil
  then show ?case by simp
next
  case (Cons k ks y ys)
  then show ?case by (auto simp: less_Suc_eq_0_disj)
qed

lemma filter_select:
  "length ks = length xs \<Longrightarrow> (\<forall>i<length xs. P (xs ! i) \<longrightarrow> ks ! i) \<Longrightarrow>
   filter P (select ks xs) = filter P xs"
proof (induction ks xs rule: list_induct2)
  case Nil
  then show ?case by simp
next
  case (Cons k ks y ys)
  have "\<forall>i<length ys. P (ys ! i) \<longrightarrow> ks ! i" "P y \<longrightarrow> k"
    using Cons.prems by force+
  then show ?case using Cons.IH by simp
qed

subsection \<open>The protection boundary\<close>

lemma last_index_less: "last_index P xs = Some i \<Longrightarrow> i < length xs"
  by (induction xs arbitrary: i) (auto split: option.splits if_splits)

lemma last_index_append:
  "last_index P (xs @ ys) =
     (case last_index P ys of Some i \<Rightarrow> Some (length xs + i) | None \<Rightarrow> last_index P xs)"
  by (induction xs) (auto split: option.splits)

lemma last_index_map: "last_index P (map f xs) = last_index (\<lambda>x. P (f x)) xs"
  by (induction xs) (auto split: option.splits)

lemma last_index_None: "last_index P xs = None \<longleftrightarrow> (\<forall>x\<in>set xs. \<not> P x)"
  by (induction xs) (auto split: option.splits if_splits)

lemma boundary_le: "boundary items \<le> length items"
  by (auto simp: boundary_def lastType_def lastUser_def dest: last_index_less split: option.splits)

lemma boundary_le_compaction: "lastType items ''compaction'' = Some c \<Longrightarrow> boundary items \<le> c"
  by (auto simp: boundary_def split: option.splits)

lemma boundary_append:
  assumes "boundary (xs @ ys) = length xs" and "set xs' \<subseteq> set xs"
  shows "boundary (xs' @ ys) = length xs'"
proof -
  have none: "last_index P xs = None \<Longrightarrow> last_index P xs' = None" for P :: "scrubItem \<Rightarrow> bool"
    using assms(2) by (auto simp: last_index_None)
  have empty: "xs = [] \<Longrightarrow> xs' = []"
    using assms(2) by simp
  show ?thesis
    using assms(1) none empty
    by (auto simp: boundary_def lastType_def lastUser_def last_index_append
        split: option.splits if_splits dest: last_index_less)
qed

lemma base_protected_eq:
  "base_protected items = map sys_or_dev (take (boundary items) items)
     @ replicate (length items - boundary items) True"
  using boundary_le [of items]
  by (intro nth_equalityI) (auto simp: base_protected_def nth_append nth_enumerate_eq)

lemma length_base [simp]: "length (base_protected items) = length items"
  by (simp add: base_protected_def)

lemma base_protected_select:
  assumes len: "length ks = length items"
    and le: "list_all2 (\<longrightarrow>) (base_protected items) ks"
  shows "base_protected (select ks items) = select ks (base_protected items)"
proof -
  let ?n = "boundary items"
  let ?xs = "take ?n items" and ?ys = "drop ?n items" and ?k1 = "take ?n ks"
  have items: "items = ?xs @ ?ys" by simp
  have n: "length ?xs = ?n" "length ?k1 = ?n" using boundary_le [of items] len by simp_all
  have "drop ?n ks = replicate (length ?ys) True"
  proof (rule nth_equalityI)
    fix i
    assume i: "i < length (drop ?n ks)"
    then have "base_protected items ! (?n + i)"
      using len by (simp add: base_protected_eq nth_append min_def boundary_le)
    then show "drop ?n ks ! i = replicate (length ?ys) True ! i"
      using le i len by (auto simp: list_all2_conv_all_nth)
  qed (use len in simp)
  then have ks: "ks = ?k1 @ replicate (length ?ys) True"
    by (metis append_take_drop_id)
  have sel: "select ks items = select ?k1 ?xs @ ?ys"
    using n by (subst ks, subst (2) items, simp only: select_append select_all)
  have b: "boundary (select ?k1 ?xs @ ?ys) = length (select ?k1 ?xs)"
    by (rule boundary_append [of ?xs]) (use n in simp, rule set_select_subset)
  have "base_protected (select ks items)
      = map sys_or_dev (select ?k1 ?xs) @ replicate (length ?ys) True"
    by (simp only: sel base_protected_eq b) simp
  also have "\<dots> = select ?k1 (map sys_or_dev ?xs) @ select (replicate (length ?ys) True) (replicate (length ?ys) True)"
    using select_all [of "replicate (length ?ys) True"] by (simp add: select_map)
  also have "\<dots> = select (?k1 @ replicate (length ?ys) True) (map sys_or_dev ?xs @ replicate (length ?ys) True)"
    using n by (simp add: select_append)
  also have "\<dots> = select ks (base_protected items)"
    using ks by (simp add: base_protected_eq)
  finally show ?thesis .
qed

subsection \<open>Protected items\<close>

definition crossing :: "scrubItem list \<Rightarrow> string \<Rightarrow> bool" where
  "crossing items c \<longleftrightarrow> c \<noteq> []
     \<and> (\<exists>(b, it)\<in>set (zip (base_protected items) items). si_callID it = c \<and> b)"

lemma protectedItems_eq:
  "protectedItems items
     = map (\<lambda>(b, it). b \<or> crossing items (si_callID it)) (zip (base_protected items) items)"
  by (rule nth_equalityI)
    (auto simp: protectedItems_def Let_def callIndices_def crossing_def set_zip
          split: if_splits)

lemma length_protected [simp]: "length (protectedItems items) = length items"
  by (simp add: protectedItems_def Let_def)

lemma base_le_protected: "list_all2 (\<longrightarrow>) (base_protected items) (protectedItems items)"
  by (auto simp: protectedItems_eq list_all2_conv_all_nth)

lemma list_all2_imp_trans:
  "list_all2 (\<longrightarrow>) a b \<Longrightarrow> list_all2 (\<longrightarrow>) b c \<Longrightarrow> list_all2 (\<longrightarrow>) a c"
  by (auto simp: list_all2_conv_all_nth)

lemma crossing_select:
  assumes len: "length ks = length items"
    and le: "list_all2 (\<longrightarrow>) (base_protected items) ks"
  shows "crossing (select ks items) c = crossing items c"
proof -
  have z: "zip (base_protected (select ks items)) (select ks items)
      = select ks (zip (base_protected items) items)"
    using base_protected_select [OF len le] len by (simp add: select_zip)
  let ?Q = "\<lambda>(b, it). si_callID it = c \<and> b"
  have "filter ?Q (select ks (zip (base_protected items) items)) = filter ?Q (zip (base_protected items) items)"
    by (rule filter_select) (use len le in \<open>auto simp: list_all2_conv_all_nth\<close>)
  then have "(\<exists>z\<in>set (select ks (zip (base_protected items) items)). ?Q z)
      \<longleftrightarrow> (\<exists>z\<in>set (zip (base_protected items) items). ?Q z)"
    by (metis (no_types, lifting) filter_empty_conv)
  then show ?thesis by (simp add: crossing_def z)
qed

lemma protectedItems_select:
  assumes len: "length ks = length items"
    and le: "list_all2 (\<longrightarrow>) (base_protected items) ks"
  shows "protectedItems (select ks items) = select ks (protectedItems items)"
  using assms base_protected_select [OF assms]
  by (simp add: protectedItems_eq select_zip select_map crossing_select)

lemma protected_call_closed:
  assumes "i < length items" "j < length items" "protectedItems items ! i"
    and "si_callID (items ! i) = c" "si_callID (items ! j) = c" "c \<noteq> []"
  shows "protectedItems items ! j"
  using assms by (auto simp: protectedItems_eq crossing_def set_zip)

subsection \<open>Preservation\<close>

definition hdr :: "scrubItem \<Rightarrow> string \<times> string \<times> string" where
  "hdr it = (si_typeName it, si_role it, si_callID it)"

definition calls :: "string \<Rightarrow> scrubItem list \<Rightarrow> (string \<times> string \<times> string) list" where
  "calls c items = map hdr (filter (\<lambda>it. si_callID it = c) items)"

definition preserves :: "scrubItem list \<Rightarrow> scrubItem list \<Rightarrow> bool" where
  "preserves a b \<longleftrightarrow>
     select (protectedItems b) b = select (protectedItems a) a
     \<and> (\<forall>c. c \<noteq> [] \<longrightarrow> calls c b = [] \<or> calls c b = calls c a)"

lemma preserves_refl [simp]: "preserves a a"
  by (simp add: preserves_def)

lemma preserves_trans [trans]: "preserves a b \<Longrightarrow> preserves b c \<Longrightarrow> preserves a c"
  unfolding preserves_def by metis

lemma preserves_select:
  assumes len: "length ks = length items"
    and le: "list_all2 (\<longrightarrow>) (protectedItems items) ks"
    and closed: "\<And>i j. i < length items \<Longrightarrow> j < length items \<Longrightarrow> ks ! i \<Longrightarrow>
      si_callID (items ! i) = si_callID (items ! j) \<Longrightarrow> si_callID (items ! i) \<noteq> [] \<Longrightarrow> ks ! j"
  shows "preserves items (select ks items)"
proof -
  have base: "list_all2 (\<longrightarrow>) (base_protected items) ks"
    using base_le_protected le by (rule list_all2_imp_trans)
  have "select (protectedItems (select ks items)) (select ks items) = select (protectedItems items) items"
    by (simp add: protectedItems_select [OF len base] select_select [OF len le])
  moreover have "calls c (select ks items) = [] \<or> calls c (select ks items) = calls c items"
    if c: "c \<noteq> []" for c
  proof (cases "\<exists>i<length items. ks ! i \<and> si_callID (items ! i) = c")
    case True
    then have "\<forall>j<length items. si_callID (items ! j) = c \<longrightarrow> ks ! j"
      using closed c by metis
    then show ?thesis using len by (simp add: calls_def filter_select)
  next
    case False
    then have "filter (\<lambda>it. si_callID it = c) (select ks items) = []"
      using len by (auto simp: filter_empty_conv in_set_select)
    then show ?thesis by (simp add: calls_def)
  qed
  ultimately show ?thesis by (simp add: preserves_def)
qed

lemma preserves_compact_stage: "preserves items (fst (compact_stage items))"
proof (cases "lastType items ''compaction''")
  case None
  then show ?thesis by (simp add: compact_stage_def)
next
  case (Some cpos)
  have "map (\<lambda>(i, p). cpos \<le> i \<or> p) (enumerate 0 (protectedItems items)) = protectedItems items"
    using boundary_le_compaction [OF Some]
    by (intro nth_equalityI)
      (auto simp: nth_enumerate_eq protectedItems_eq base_protected_def)
  then have "fst (compact_stage items) \<in> {items, select (protectedItems items) items}"
    using Some by (auto simp: compact_stage_def Let_def)
  moreover have "preserves items (select (protectedItems items) items)"
    by (rule preserves_select) (auto simp: list.rel_refl intro: protected_call_closed)
  ultimately show ?thesis by auto
qed

lemma protectedItems_cong:
  assumes "map hdr a = map hdr b"
  shows "protectedItems a = protectedItems b"
proof -
  have len: "length a = length b"
    using assms by (rule map_eq_imp_length_eq)
  have nth: "hdr (a ! i) = hdr (b ! i)" if "i < length b" for i
    using arg_cong [OF assms, of "\<lambda>xs. xs ! i"] that len by simp
  have "last_index (\<lambda>it. P (hdr it)) a = last_index (\<lambda>it. P (hdr it)) b" for P
    using last_index_map [of P hdr a] last_index_map [of P hdr b] assms by simp
  from this [of "\<lambda>h. fst h = _"] this [of "\<lambda>h. fst (snd h) = ''user''"]
  have "lastType a t = lastType b t" "lastUser a = lastUser b" for t
    unfolding lastType_def lastUser_def hdr_def by simp_all
  then have "boundary a = boundary b"
    by (simp add: boundary_def cong: option.case_cong)
  then have "base_protected a = base_protected b"
    using len nth
    by (intro nth_equalityI) (auto simp: base_protected_def nth_enumerate_eq sys_or_dev_def hdr_def)
  moreover have "callIndices a c = callIndices b c" for c
    using len nth by (auto simp: callIndices_def hdr_def intro!: filter_cong)
  ultimately show ?thesis
    using len nth by (intro nth_equalityI) (auto simp: protectedItems_def Let_def hdr_def)
qed

lemma hdr_rewrite_item [simp]: "hdr (rewrite_item f p it) = hdr it"
  by (auto simp: rewrite_item_def hdr_def split: prod.splits)

lemma select_rewrite:
  "length ps = length items \<Longrightarrow>
   select ps (map (\<lambda>(p, it). rewrite_item f p it) (zip ps items)) = select ps items"
  by (induction ps items rule: list_induct2) (auto simp: rewrite_item_def)

lemma hdr_rewrite_stage:
  "length ps = length items \<Longrightarrow> map hdr (fst (rewrite_stage f ps items)) = map hdr items"
  unfolding rewrite_stage_def by (induction ps items rule: list_induct2) auto

lemma calls_cong: "map hdr a = map hdr b \<Longrightarrow> calls c a = calls c b"
proof (induction a arbitrary: b)
  case Nil
  then show ?case by (simp add: calls_def)
next
  case (Cons x a)
  then obtain y b' where b: "b = y # b'" by (cases b) auto
  then have "hdr x = hdr y" "calls c a = calls c b'" using Cons by auto
  then show ?case by (auto simp: b calls_def hdr_def)
qed

lemma preserves_rewrite_stage:
  assumes "ps = protectedItems items"
  shows "preserves items (fst (rewrite_stage f ps items))"
proof -
  have len: "length ps = length items" using assms by simp
  have h: "map hdr (fst (rewrite_stage f ps items)) = map hdr items"
    using len by (rule hdr_rewrite_stage)
  have "select ps (fst (rewrite_stage f ps items)) = select ps items"
    using len by (simp add: rewrite_stage_def select_rewrite)
  then show ?thesis
    using protectedItems_cong [OF h] calls_cong [OF h] assms by (simp add: preserves_def)
qed

lemma protected_rewrite_stage:
  "protectedItems (fst (rewrite_stage f (protectedItems items) items)) = protectedItems items"
  by (rule protectedItems_cong, rule hdr_rewrite_stage) simp

subsection \<open>Evicting a turn\<close>

definition turn_mask :: "nat \<Rightarrow> nat \<Rightarrow> nat \<Rightarrow> bool list" where
  "turn_mask n start end' = map (\<lambda>i. i < start \<or> end' \<le> i) [0..<n]"

lemma take_drop_turn_mask:
  assumes "start \<le> end'" "end' \<le> length items"
  shows "take start items @ drop end' items = select (turn_mask (length items) start end') items"
proof -
  let ?b = "take (end' - start) (drop start items)"
  have items: "items = take start items @ ?b @ drop end' items"
    using assms by (metis append_take_drop_id drop_drop le_add_diff_inverse2)
  have mask: "turn_mask (length items) start end'
      = replicate (length (take start items)) True @ replicate (length ?b) False
        @ replicate (length (drop end' items)) True"
    using assms by (intro nth_equalityI) (auto simp: turn_mask_def nth_append min_def)
  show ?thesis
    by (subst (3) items, subst mask, simp only: select_append select_all select_none length_replicate) simp
qed

lemma preserves_evict:
  assumes "oldestEvictableTurn items = Some (start, end')"
  shows "preserves items (take start items @ drop end' items)"
proof -
  note b = oldestEvictableTurn_Some [OF assms]
  have turn: "\<not> protectedItems items ! i
      \<and> (si_callID (items ! i) = []
         \<or> (\<forall>j\<in>set (callIndices items (si_callID (items ! i))). start \<le> j \<and> j < end'))"
    if "start \<le> i" "i < end'" for i
    using b(3) that by (fastforce simp: validTurn_def list_all_iff Let_def)
  show ?thesis
    unfolding take_drop_turn_mask [OF less_imp_le [OF b(1)] b(2)]
  proof (rule preserves_select)
    show "list_all2 (\<longrightarrow>) (protectedItems items) (turn_mask (length items) start end')"
      using turn by (auto simp: list_all2_conv_all_nth turn_mask_def) (metis not_le)
    fix i j
    assume ij: "i < length items" "j < length items" "turn_mask (length items) start end' ! i"
      and c: "si_callID (items ! i) = si_callID (items ! j)" "si_callID (items ! i) \<noteq> []"
    show "turn_mask (length items) start end' ! j"
    proof (rule ccontr)
      assume "\<not> turn_mask (length items) start end' ! j"
      then have "start \<le> j" "j < end'" using ij(2) by (auto simp: turn_mask_def)
      moreover have "i \<in> set (callIndices items (si_callID (items ! j)))"
        using ij(1) c by (simp add: callIndices_def)
      ultimately have "start \<le> i \<and> i < end'" using turn [of j] c by auto
      then show False using ij(1,3) by (auto simp: turn_mask_def)
    qed
  qed (simp add: turn_mask_def)
qed

subsection \<open>The whole cleanup\<close>

text \<open>
  \<open>sends policy request items r0 out\<close>: if the cleanup succeeds, it answers with the text of
  the request over some items that preserve \<open>items\<close>, and that text meets the target.
\<close>

definition sends :: "ScrubPolicy \<Rightarrow> (string \<times> json) list \<Rightarrow> scrubItem list \<Rightarrow> ScrubResult
    \<Rightarrow> ScrubResult \<times> scrub_error option \<Rightarrow> bool" where
  "sends policy request items r0 out \<longleftrightarrow>
     snd out = None \<longrightarrow>
     (\<exists>final. preserves items final \<and> Body (fst out) = encodeRequest request final)
     \<and> AfterBytes (fst out) = int (length (Body (fst out)))
     \<and> AfterBytes (fst out) \<le> TargetBytes policy
     \<and> BeforeBytes (fst out) = BeforeBytes r0
     \<and> RemovedBytes (fst out) = max 0 (BeforeBytes r0 - AfterBytes (fst out))
     \<and> Changed (fst out)"

lemma finish_Before [simp]: "BeforeBytes (fst (finish policy request items r)) = BeforeBytes r"
  by (simp add: finish_def Let_def)

lemma sends_finish:
  assumes "finish policy request items' r0 = (r, True)" and "preserves items items'"
  shows "sends policy request items r0 (r, None)"
  using assms by (auto simp: sends_def finish_def Let_def)

lemma sends_mono:
  assumes "sends policy request items' r1 out" "preserves items items'" "BeforeBytes r1 = BeforeBytes r0"
  shows "sends policy request items r0 out"
  using assms by (auto simp: sends_def intro: preserves_trans)

lemma sends_evict_loop: "sends policy request items r0 (evict_loop policy request items r0)"
proof (induction policy request items r0 rule: evict_loop.induct)
  case (1 policy request items r0)
  show ?case
  proof (cases "oldestEvictableTurn items")
    case None
    then show ?thesis by (simp add: evict_loop.simps [of policy] sends_def)
  next
    case (Some turn)
    obtain start end' where turn: "turn = (start, end')" by (cases turn)
    let ?items = "take start items @ drop end' items"
    obtain r d where fin: "finish policy request ?items r0 = (r, d)" by fastforce
    have keeps: "preserves items ?items" using Some turn preserves_evict by simp
    have before: "BeforeBytes r = BeforeBytes r0"
      using finish_Before [of policy request ?items r0] fin by simp
    show ?thesis
    proof (cases d)
      case True
      then show ?thesis
        using Some turn fin keeps sends_finish
        by (simp add: evict_loop.simps [of policy request items])
    next
      case False
      then have "sends policy request ?items r (evict_loop policy request ?items r)"
        using "1.IH" [OF Some turn [symmetric] refl fin [symmetric]] by simp
      then have "sends policy request items r0 (evict_loop policy request ?items r)"
        using keeps before by (rule sends_mono)
      then show ?thesis
        using Some turn fin False by (simp add: evict_loop.simps [of policy request items])
    qed
  qed
qed

lemma sends_after_stage:
  assumes keeps: "preserves items (fst stage)"
    and cont: "\<And>r. sends policy request (fst stage) r (cont (fst stage) r)"
  shows "sends policy request items r0 (after_stage policy request stage r0 cont)"
proof -
  obtain items' changed where stage: "stage = (items', changed)" by (cases stage)
  obtain r d where fin: "finish policy request items' r0 = (r, d)" by fastforce
  have before: "BeforeBytes r = BeforeBytes r0"
    using finish_Before [of policy request items' r0] fin by simp
  have "changed \<Longrightarrow> d \<Longrightarrow> sends policy request items r0 (r, None)"
    using fin keeps stage by (auto intro: sends_finish)
  moreover have "sends policy request items r0 (cont items' r)"
    using cont keeps stage before by (auto intro: sends_mono)
  moreover have "sends policy request items r0 (cont items' r0)"
    using cont keeps stage by (auto intro: sends_mono)
  ultimately show ?thesis
    by (simp add: after_stage_def stage fin)
qed

lemma sends_scrub_items: "sends policy request items r0 (scrub_items policy request items r0)"
  unfolding scrub_items_def Let_def
  by (intro sends_after_stage preserves_compact_stage sends_evict_loop preserves_rewrite_stage
      refl protected_rewrite_stage [symmetric])

lemma Scrub_reaches_items:
  assumes "TriggerBytes policy \<le> int (length body)"
    and "unmarshal_map (parse body) = Some request"
    and "unmarshal_array (map_of request ''input'') = Some raws"
    and "Scrub parse body policy = (r, None)"
  shows "scrub_items policy request (classify raws) (unchanged_result body) = (r, None)"
  using assms by (auto simp: Scrub_def Let_def split: if_splits)

lemma Scrub_sends:
  assumes "TriggerBytes policy \<le> int (length body)"
    and "unmarshal_map (parse body) = Some request"
    and "unmarshal_array (map_of request ''input'') = Some raws"
    and "Scrub parse body policy = (r, None)"
  shows "sends policy request (classify raws) (unchanged_result body) (r, None)"
  using sends_scrub_items [of policy request "classify raws" "unchanged_result body"]
    Scrub_reaches_items [OF assms] by simp

text \<open>
  C1: When the cleanup of an oversized request succeeds, the body it forwards is the request
  with only its input list replaced: the replacement still contains every protected item
  (from the last user message or compaction on, every system or developer message, and every
  tool call reaching into them) unchanged and in order, and it contains the items of each tool
  call either all or none, so no call is left without its output.
\<close>

theorem Scrub_keeps_protected_items:
  assumes "TriggerBytes policy \<le> int (length body)"
    and "unmarshal_map (parse body) = Some request"
    and "unmarshal_array (map_of request ''input'') = Some raws"
    and "Scrub parse body policy = (r, None)"
  shows "\<exists>final. Body r = encodeRequest request final
    \<and> subseq (select (protectedItems (classify raws)) (classify raws)) final
    \<and> (\<forall>c. c \<noteq> [] \<longrightarrow> calls c final = [] \<or> calls c final = calls c (classify raws))"
proof -
  have "sends policy request (classify raws) (unchanged_result body) (r, None)"
    by (rule Scrub_sends [OF assms])
  then obtain final where "preserves (classify raws) final" "Body r = encodeRequest request final"
    by (auto simp: sends_def)
  then show ?thesis
    unfolding preserves_def by (metis select_subseq)
qed

definition example_item :: json where
  "example_item = JObj [((''role'', ''role''), JStr ''user'' ''user'')]"

definition example_request :: "(string \<times> json) list" where
  "example_request = [(''input'', JArr [example_item, example_item])]"

definition example_body :: string where
  "example_body = ''{input:[{role:user},{role:user}]}, over the target''"

definition example_policy :: ScrubPolicy where
  "example_policy = \<lparr>TriggerBytes = 40, TargetBytes = 30\<rparr>"

lemma example_Scrub:
  "Scrub (\<lambda>_. Some (JObj [((''input'', ''input''), JArr [example_item, example_item])])) example_body example_policy
   = (\<lparr>Body = encodeRequest example_request (classify [example_item]), BeforeBytes = 50,
       AfterBytes = 27, RemovedBytes = 23, Changed = True\<rparr>, None)"
  by code_simp

theorem Scrub_keeps_protected_items_witness:
  "\<exists>final. encodeRequest example_request (classify [example_item]) = encodeRequest example_request final
    \<and> subseq (select (protectedItems (classify [example_item, example_item]))
        (classify [example_item, example_item])) final
    \<and> (\<forall>c. c \<noteq> [] \<longrightarrow> calls c final = [] \<or> calls c final = calls c (classify [example_item, example_item]))"
  using Scrub_keeps_protected_items [OF _ _ _ example_Scrub,
      of example_request "[example_item, example_item]"]
  by (simp add: example_policy_def example_body_def example_request_def unmarshal_map_def unmarshal_array_def)

text \<open>
  C26: A request below the trigger size is forwarded byte for byte; a successful cleanup of a
  larger one reports the exact length of the body it forwards, which meets the target size,
  and the bytes removed are the difference to the original, never negative.
\<close>

theorem Scrub_meets_target:
  assumes "Scrub parse body policy = (r, None)"
  shows "if int (length body) < TriggerBytes policy
    then Body r = body \<and> \<not> Changed r
    else Changed r \<and> AfterBytes r = int (length (Body r)) \<and> AfterBytes r \<le> TargetBytes policy
      \<and> BeforeBytes r = int (length body)
      \<and> RemovedBytes r = max 0 (int (length body) - AfterBytes r)"
proof (cases "int (length body) < TriggerBytes policy")
  case True
  then show ?thesis using assms by (auto simp: Scrub_def unchanged_result_def)
next
  case False
  then obtain request raws where
    "unmarshal_map (parse body) = Some request" "unmarshal_array (map_of request ''input'') = Some raws"
    using assms by (auto simp: Scrub_def Let_def split: if_splits option.splits)
  from Scrub_sends [OF _ this assms] False
  have "sends policy request (classify raws) (unchanged_result body) (r, None)"
    by simp
  then show ?thesis
    using False by (simp add: sends_def unchanged_result_def)
qed

theorem Scrub_meets_target_witness:
  "int (length (encodeRequest example_request (classify [example_item]))) \<le> 30"
  using Scrub_meets_target [OF example_Scrub]
  by (simp add: example_policy_def example_body_def)

lemma back_to_valid_spec: "back_to_valid v n \<le> n \<and> valid_utf8 (take (back_to_valid v n) v)"
  by (induction n) (auto simp: valid_utf8.simps [of "[]"])

lemma next_rune_start_spec:
  "n \<le> length v \<Longrightarrow>
   n \<le> next_rune_start v n \<and> next_rune_start v n \<le> length v
   \<and> (next_rune_start v n = length v \<or> RuneStart (v ! next_rune_start v n))"
proof (induction v n rule: next_rune_start.induct)
  case (1 v n)
  show ?case
  proof (cases "n < length v \<and> \<not> RuneStart (v ! n)")
    case True
    then show ?thesis using "1.IH" by (simp add: next_rune_start.simps [of v n])
  next
    case False
    then show ?thesis using "1.prems" by (auto simp: next_rune_start.simps [of v n])
  qed
qed

definition truncated :: "string \<Rightarrow> nat \<Rightarrow> nat \<Rightarrow> string" where
  "truncated v h t = take h v @ [CHR 0x0A] @ ''[... '' @ itoa_nat (t - h)
     @ '' bytes omitted by Codex Broker ...]'' @ [CHR 0x0A] @ drop t v"

lemma length_truncated:
  "h \<le> t \<Longrightarrow> t \<le> length v \<Longrightarrow>
   length (truncated v h t) \<le> h + 43 + (t - h) div 10 + (length v - t)"
  using length_itoa_nat [of "t - h"] by (simp add: truncated_def)

lemma truncateOutput_eq:
  "\<exists>h t. truncateOutput v = truncated v h t \<and> h \<le> t \<and> t \<le> length v
     \<and> h \<le> toolOutputKeep \<and> length v \<le> t + toolOutputKeep
     \<and> valid_utf8 (take h v) \<and> (t = length v \<or> RuneStart (v ! t))"
proof -
  define h where "h = back_to_valid v (min toolOutputKeep (length v))"
  define m where "m = max h (length v - toolOutputKeep)"
  define t where "t = next_rune_start v m"
  have h: "h \<le> toolOutputKeep" "h \<le> length v" "valid_utf8 (take h v)"
    unfolding h_def using back_to_valid_spec [of v "min toolOutputKeep (length v)"] by simp_all
  have m: "h \<le> m" "length v \<le> m + toolOutputKeep" "m \<le> length v"
    using h(2) by (auto simp: m_def)
  have t: "m \<le> t" "t \<le> length v" "t = length v \<or> RuneStart (v ! t)"
    unfolding t_def using next_rune_start_spec [OF m(3)] by simp_all
  have "truncateOutput v = truncated v h t"
    unfolding truncateOutput_def truncated_def Let_def
    using t(2) by (simp flip: h_def m_def t_def)
  moreover have "h \<le> t" "length v \<le> t + toolOutputKeep"
    using m t by simp_all
  ultimately show ?thesis using h t by blast
qed

text \<open>
  Truncating an oversized tool output keeps a prefix of at most 8 KiB that is valid UTF-8
  and a suffix of at most 8 KiB that starts at a rune, states between them exactly how many
  bytes were left out, and makes the output shorter.
\<close>

theorem truncateOutput_keeps_head_and_tail:
  assumes "toolOutputLimit < length v"
  shows "\<exists>h t. truncateOutput v = truncated v h t \<and> h \<le> t \<and> t \<le> length v
     \<and> h \<le> toolOutputKeep \<and> length v \<le> t + toolOutputKeep
     \<and> valid_utf8 (take h v) \<and> (t = length v \<or> RuneStart (v ! t))
     \<and> length (truncateOutput v) < length v"
proof -
  obtain h t where ht: "truncateOutput v = truncated v h t" "h \<le> t" "t \<le> length v"
    "h \<le> toolOutputKeep" "length v \<le> t + toolOutputKeep"
    "valid_utf8 (take h v)" "t = length v \<or> RuneStart (v ! t)"
    using truncateOutput_eq by blast
  have "43 + (t - h) div 10 < t - h"
    using ht(2-5) assms by (simp add: toolOutputLimit_def toolOutputKeep_def)
  then have "length (truncated v h t) < length v"
    using length_truncated [OF ht(2,3)] ht(2,3) by linarith
  then show ?thesis using ht by auto
qed

theorem truncateOutput_keeps_head_and_tail_witness:
  "length (truncateOutput (replicate 300000 (CHR ''x''))) < 300000"
proof -
  define v where "v = replicate 300000 (CHR ''x'')"
  have len: "length v = 300000" by (simp only: v_def length_replicate)
  then have "toolOutputLimit < length v" by (simp add: toolOutputLimit_def)
  then have "length (truncateOutput v) < length v"
    using truncateOutput_keeps_head_and_tail [of v] by blast
  then show ?thesis by (simp only: len) (simp only: v_def)
qed

end
