(* ===== verification/Go_Strings.thy ===== *)
theory Go_Strings
  imports Json
begin

text \<open>
  The functions of Go's \<open>strings\<close> and \<open>bytes\<close> packages, and of maps of type
  \<open>map[string]any\<close>, that the transport, the notices and the settings use.
\<close>

subsection \<open>White space\<close>

text \<open>The encodings of the runes for which \<open>unicode.IsSpace\<close> holds.\<close>

definition space_runes :: "string list" where
  "space_runes = [[CHR 0x09], [CHR 0x0A], [CHR 0x0B], [CHR 0x0C], [CHR 0x0D], [CHR 0x20],
     [CHR 0xC2, CHR 0x85], [CHR 0xC2, CHR 0xA0], [CHR 0xE1, CHR 0x9A, CHR 0x80],
     [CHR 0xE2, CHR 0x80, CHR 0x80], [CHR 0xE2, CHR 0x80, CHR 0x81], [CHR 0xE2, CHR 0x80, CHR 0x82],
     [CHR 0xE2, CHR 0x80, CHR 0x83], [CHR 0xE2, CHR 0x80, CHR 0x84], [CHR 0xE2, CHR 0x80, CHR 0x85],
     [CHR 0xE2, CHR 0x80, CHR 0x86], [CHR 0xE2, CHR 0x80, CHR 0x87], [CHR 0xE2, CHR 0x80, CHR 0x88],
     [CHR 0xE2, CHR 0x80, CHR 0x89], [CHR 0xE2, CHR 0x80, CHR 0x8A], [CHR 0xE2, CHR 0x80, CHR 0xA8],
     [CHR 0xE2, CHR 0x80, CHR 0xA9], [CHR 0xE2, CHR 0x80, CHR 0xAF], [CHR 0xE2, CHR 0x81, CHR 0x9F],
     [CHR 0xE3, CHR 0x80, CHR 0x80]]"

definition space_front :: "string \<Rightarrow> nat" where
  "space_front s = (case find (\<lambda>r. HasPrefix s r) space_runes of None \<Rightarrow> 0 | Some r \<Rightarrow> length r)"

definition space_back :: "string \<Rightarrow> nat" where
  "space_back s = (case find (\<lambda>r. HasPrefix (rev s) (rev r)) space_runes of None \<Rightarrow> 0 | Some r \<Rightarrow> length r)"

function trim_left :: "string \<Rightarrow> string" where
  "trim_left s = (if s = [] \<or> space_front s = 0 then s else trim_left (drop (space_front s) s))"
  by pat_completeness auto
termination by (relation "measure length") auto

function trim_right :: "string \<Rightarrow> string" where
  "trim_right s = (if s = [] \<or> space_back s = 0 then s else trim_right (take (length s - space_back s) s))"
  by pat_completeness auto
termination by (relation "measure length") auto

declare trim_left.simps [simp del] trim_right.simps [simp del]

definition TrimSpace :: "string \<Rightarrow> string" where
  "TrimSpace s = trim_right (trim_left s)"

subsection \<open>Searching and cutting\<close>

fun Contains :: "string \<Rightarrow> string \<Rightarrow> bool" where
  "Contains s sub = (HasPrefix s sub \<or> (case s of [] \<Rightarrow> False | _ # t \<Rightarrow> Contains t sub))"

fun Cut :: "string \<Rightarrow> string \<Rightarrow> (string \<times> string) option" where
  "Cut s sep =
     (if HasPrefix s sep then Some ([], drop (length sep) s)
      else case s of [] \<Rightarrow> None | c # t \<Rightarrow> map_option (\<lambda>(before, after). (c # before, after)) (Cut t sep))"

declare Contains.simps [simp del] Cut.simps [simp del]

fun split_on :: "char \<Rightarrow> string \<Rightarrow> string list" where
  "split_on c [] = [[]]"
| "split_on c (x # xs) =
     (if x = c then [] # split_on c xs
      else case split_on c xs of [] \<Rightarrow> [[x]] | l # ls \<Rightarrow> (x # l) # ls)"

fun join_with :: "string \<Rightarrow> string list \<Rightarrow> string" where
  "join_with sep [] = []"
| "join_with sep [x] = x"
| "join_with sep (x # xs) = x @ sep @ join_with sep xs"

definition TrimPrefix :: "string \<Rightarrow> string \<Rightarrow> string" where
  "TrimPrefix s pre = (if HasPrefix s pre then drop (length pre) s else s)"

text \<open>
  \<open>strings.ToLower\<close> as far as the result can hold an ASCII character: the two runes outside
  ASCII whose lower case is an ASCII letter (the dotted capital I and the Kelvin sign) are
  mapped, other runes stay.
\<close>

definition lower_char :: "char \<Rightarrow> char" where
  "lower_char c = (if in_range 65 90 (byte c) then char_of (byte c + 32) else c)"

fun ToLower :: "string \<Rightarrow> string" where
  "ToLower (a # b # c # rest) =
     (if [a, b] = [CHR 0xC4, CHR 0xB0] then CHR ''i'' # ToLower (c # rest)
      else if [a, b, c] = [CHR 0xE2, CHR 0x84, CHR 0xAA] then CHR ''k'' # ToLower rest
      else lower_char a # ToLower (b # c # rest))"
| "ToLower [a, b] = (if [a, b] = [CHR 0xC4, CHR 0xB0] then ''i'' else [lower_char a, lower_char b])"
| "ToLower [a] = [lower_char a]"
| "ToLower [] = []"

text \<open>\<open>strings.EqualFold\<close> of a string with an ASCII word without the letters k and s.\<close>

definition EqualFold :: "string \<Rightarrow> string \<Rightarrow> bool" where
  "EqualFold a b \<longleftrightarrow> map lower_char a = map lower_char b"

function RuneCountInString :: "string \<Rightarrow> nat" where
  "RuneCountInString s = (if s = [] then 0 else Suc (RuneCountInString (drop (max 1 (rune_len s)) s)))"
  by pat_completeness auto
termination by (relation "measure length") auto

declare RuneCountInString.simps [simp del]

subsection \<open>Maps\<close>

type_synonym gomap = "(string \<times> any) list"

definition lookup :: "gomap \<Rightarrow> string \<Rightarrow> any" where
  "lookup m k = (case map_of m k of None \<Rightarrow> ANil | Some v \<Rightarrow> v)"

definition as_string :: "any \<Rightarrow> string" where
  "as_string v = (case v of AStr s \<Rightarrow> s | _ \<Rightarrow> [])"

definition as_map :: "any \<Rightarrow> gomap" where
  "as_map v = (case v of AMap m \<Rightarrow> m | _ \<Rightarrow> [])"

abbreviation put :: "string \<Rightarrow> any \<Rightarrow> gomap \<Rightarrow> gomap" where
  "put \<equiv> AList.update"

lemma lookup_put [simp]: "lookup (put k v m) k' = (if k = k' then v else lookup m k')"
  by (simp add: lookup_def update_conv)

subsection \<open>Facts\<close>

lemma HasPrefix_append [simp]: "HasPrefix (a @ b) a"
  by (simp add: HasPrefix_def)

lemma HasPrefix_prefix: "HasPrefix s p \<longleftrightarrow> (\<exists>t. s = p @ t)"
  unfolding HasPrefix_def by (metis append_eq_conv_conj append_take_drop_id)

lemma Contains_append: "Contains (a @ sub @ b) sub"
proof (induction a)
  case Nil
  then show ?case by (subst Contains.simps) simp
next
  case (Cons c a)
  then show ?case by (subst Contains.simps) simp
qed

lemma Cut_append:
  assumes "\<not> Contains (a @ butlast sep) sep" and "sep \<noteq> []"
  shows "Cut (a @ sep @ b) sep = Some (a, b)"
  using assms(1)
proof (induction a)
  case Nil
  then show ?case using assms(2) by (subst Cut.simps) simp
next
  case (Cons c a)
  have not_here: "\<not> HasPrefix ((c # a) @ butlast sep) sep" and rest: "\<not> Contains (a @ butlast sep) sep"
    using Cons.prems by (subst (asm) Contains.simps; simp)+
  have "length sep \<le> length ((c # a) @ butlast sep)" using assms(2) by simp
  moreover have "sep = butlast sep @ [last sep]" using assms(2) by simp
  ultimately have "take (length sep) ((c # a) @ sep @ b) = take (length sep) ((c # a) @ butlast sep)"
    by (simp add: take_Cons' butlast_conv_take min_def)
  then have "\<not> HasPrefix ((c # a) @ sep @ b) sep"
    using not_here by (simp add: HasPrefix_def)
  then show ?case using Cons.IH [OF rest] by (subst Cut.simps) simp
qed

end
