(* ===== verification/Notice.thy ===== *)
theory Notice
  imports Go_Strings
begin

text \<open>
  internal/responsesproxy/notice.go: the account notice in front of a final answer.

  \<open>readNoticeFrame\<close> splits an event stream into frames, \<open>streamNotice\<close> numbers and
  rewrites the events of a stream, holding an assistant message back until its phase is known,
  and \<open>terminalResponse\<close> reads the telemetry off the last event. The state of a stream is a
  \<open>stream_state\<close>; what Go closes over or calls back into is a field of it (the written
  chunks, the observed terminal events, how often native compaction was armed).

  Parsing and printing JSON, the verb \<open>%s\<close> of a value that is not a string, the clock and the
  success of each write are fields of a \<open>stream_env\<close>.
\<close>

definition NoticePrefix :: string where "NoticePrefix = ''msg_codex_broker_''"

definition NativeCompactionInputTokens :: int where "NativeCompactionInputTokens = 1000000"

definition MaxRequest :: nat where "MaxRequest = 64 * 2 ^ 20"

record TerminalResponse =
  tr_ID :: string
  tr_Model :: string
  tr_ServiceTier :: string
  tr_Status :: string
  tr_FailureKind :: string
  tr_FirstEventAtMS :: int
  tr_TerminalEventAtMS :: int
  tr_InputTokens :: nullint
  tr_CachedInputTokens :: nullint
  tr_OutputTokens :: nullint
  tr_ReasoningOutputTokens :: nullint
  tr_TotalTokens :: nullint
  tr_UsageJSON :: string

record stream_env =
  env_parse :: "string \<Rightarrow> gomap option"
  env_marshal :: "any \<Rightarrow> string"
  env_verb :: "any \<Rightarrow> string"
  env_now :: "nat \<Rightarrow> int"
  env_write :: "nat \<Rightarrow> bool"

subsection \<open>Frames\<close>

datatype read_end = REOF | RErr go_error

datatype slice = Line string string | BufferFull string string | Ended string

definition LF :: char where "LF = CHR 0x0A"
definition CR :: char where "CR = CHR 0x0D"

text \<open>\<open>bufio.Reader.ReadSlice\<close> with a buffer of \<open>buf\<close> bytes.\<close>

definition read_slice :: "nat \<Rightarrow> string \<Rightarrow> slice" where
  "read_slice buf s =
     (let n = length (takeWhile (\<lambda>c. c \<noteq> LF) s) in
      if n < buf \<and> n < length s then Line (take (Suc n) s) (drop (Suc n) s)
      else if buf \<le> length s then BufferFull (take buf s) (drop buf s)
      else Ended s)"

datatype frame_read = Frame string string | Stopped string read_end

definition frame_limit :: read_end where
  "frame_limit = RErr (OtherError ''response event exceeds limit'')"

definition bufio_size :: nat where "bufio_size = 4096"

lemma read_slice_shorter:
  "read_slice bufio_size s = BufferFull line rest \<Longrightarrow> length rest < length s \<and> s = line @ rest"
  "read_slice bufio_size s = Line line rest \<Longrightarrow> length rest < length s \<and> s = line @ rest"
  by (auto simp: read_slice_def bufio_size_def Let_def split: if_splits)

function read_frame :: "read_end \<Rightarrow> string \<Rightarrow> string \<Rightarrow> frame_read" where
  "read_frame end frame s =
     (case read_slice bufio_size s of
        BufferFull line rest \<Rightarrow>
          (if MaxRequest < length (frame @ line) then Stopped [] frame_limit
           else read_frame end (frame @ line) rest)
      | Line line rest \<Rightarrow>
          (if MaxRequest < length (frame @ line) then Stopped [] frame_limit
           else if line = [LF] \<or> line = [CR, LF] then Frame (frame @ line) rest
           else read_frame end (frame @ line) rest)
      | Ended line \<Rightarrow>
          (if MaxRequest < length (frame @ line) then Stopped [] frame_limit
           else if end = REOF \<and> frame @ line \<noteq> [] then Frame (frame @ line) []
           else Stopped (frame @ line) end))"
  by pat_completeness auto
termination
  by (relation "measure (\<lambda>(_, _, s). length s)") (auto dest: read_slice_shorter)

declare read_frame.simps [simp del]

definition readNoticeFrame :: "read_end \<Rightarrow> string \<Rightarrow> frame_read" where
  "readNoticeFrame end s = read_frame end [] s"

lemma read_frame_append:
  "read_frame end frame s = Frame f rest \<Longrightarrow> f @ rest = frame @ s \<and> (rest = [] \<and> s = [] \<or> length rest < length s)"
proof (induction "end" frame s rule: read_frame.induct)
  case (1 "end" frame s)
  show ?case
  proof (cases "read_slice bufio_size s")
    case (Line line tail)
    then show ?thesis
      using "1.IH"(1) [OF Line] "1.prems" read_slice_shorter(2) [OF Line]
      by (subst (asm) read_frame.simps) (auto split: if_splits)
  next
    case (BufferFull line tail)
    then show ?thesis
      using "1.IH"(2) [OF BufferFull] "1.prems" read_slice_shorter(1) [OF BufferFull]
      by (subst (asm) read_frame.simps) (auto split: if_splits)
  next
    case (Ended line)
    then have "s = line" by (auto simp: read_slice_def Let_def split: if_splits)
    then show ?thesis
      using "1.prems" Ended by (subst (asm) read_frame.simps) (auto split: if_splits)
  qed
qed

lemma read_frame_nonempty: "read_frame end frame s = Frame f rest \<Longrightarrow> f \<noteq> []"
proof (induction "end" frame s rule: read_frame.induct)
  case (1 "end" frame s)
  then show ?case
    by (subst (asm) (3) read_frame.simps) (auto split: slice.splits if_splits)
qed

lemma readNoticeFrame_shorter: "readNoticeFrame end s = Frame f rest \<Longrightarrow> length rest < length s"
  using read_frame_append [of "end" "[]" s f rest] read_frame_nonempty [of "end" "[]" s f rest]
  by (auto simp: readNoticeFrame_def)

definition noticeEvent :: "stream_env \<Rightarrow> string \<Rightarrow> gomap" where
  "noticeEvent env frame =
     (let lines = filter (\<lambda>line. HasPrefix line ''data:'') (split_on LF frame);
          text = join_with [LF] (map (\<lambda>line. TrimSpace (TrimPrefix line ''data:'')) lines)
      in case env_parse env text of None \<Rightarrow> [] | Some event \<Rightarrow> event)"

subsection \<open>The terminal event\<close>

definition quota_markers :: "string list" where
  "quota_markers = [''usage_limit'', ''usage limit'', ''quota'', ''rate_limit'', ''rate limit'', ''too many requests'',
     ''usage maxed out'', ''out of usage'', ''usage is maxed out'', ''usage has been exhausted'']"

definition terminalFailureKind :: "stream_env \<Rightarrow> any \<Rightarrow> string" where
  "terminalFailureKind env v =
     (let message = ToLower (env_marshal env v)
      in if list_ex (Contains message) quota_markers then ''quota'' else [])"

text \<open>
  A float64 that is a non-negative integer below \<open>2^63\<close>. Converting a larger one to int64
  is implementation-defined in Go; on amd64 it gives the least int64, which is not equal.
\<close>

definition tokenCount :: "any \<Rightarrow> nullint" where
  "tokenCount v =
     (case v of
        AFloat number \<Rightarrow>
          (if number < 0 \<or> 2 ^ 63 \<le> number \<or> number \<noteq> of_int \<lfloor>number\<rfloor> then None else Some \<lfloor>number\<rfloor>)
      | _ \<Rightarrow> None)"

definition terminalResponse :: "stream_env \<Rightarrow> gomap \<Rightarrow> int \<Rightarrow> int \<Rightarrow> TerminalResponse" where
  "terminalResponse env event firstEventAtMS terminalEventAtMS =
     (let status = as_string (lookup event ''type''); response = as_map (lookup event ''response'');
          base = \<lparr>tr_ID = [], tr_Model = [], tr_ServiceTier = [], tr_Status = TrimPrefix status ''response.'',
                  tr_FailureKind = [], tr_FirstEventAtMS = firstEventAtMS, tr_TerminalEventAtMS = terminalEventAtMS,
                  tr_InputTokens = None, tr_CachedInputTokens = None, tr_OutputTokens = None,
                  tr_ReasoningOutputTokens = None, tr_TotalTokens = None, tr_UsageJSON = []\<rparr>
      in if status = ''error'' then
           base\<lparr>tr_Status := ''failed'',
                tr_FailureKind := terminalFailureKind env
                  (if lookup event ''error'' = ANil then AMap event else lookup event ''error'')\<rparr>
         else
           (let base = base\<lparr>tr_ID := as_string (lookup response ''id''),
                            tr_Model := as_string (lookup response ''model''),
                            tr_ServiceTier := as_string (lookup response ''service_tier''),
                            tr_FailureKind := (if tr_Status base = ''failed''
                               then terminalFailureKind env (lookup response ''error'') else [])\<rparr>
            in case lookup response ''usage'' of
                 AMap usage \<Rightarrow>
                   base\<lparr>tr_UsageJSON := env_marshal env (AMap usage),
                        tr_InputTokens := tokenCount (lookup usage ''input_tokens''),
                        tr_OutputTokens := tokenCount (lookup usage ''output_tokens''),
                        tr_TotalTokens := tokenCount (lookup usage ''total_tokens''),
                        tr_CachedInputTokens := tokenCount (lookup (as_map (lookup usage ''input_tokens_details'')) ''cached_tokens''),
                        tr_ReasoningOutputTokens := tokenCount (lookup (as_map (lookup usage ''output_tokens_details'')) ''reasoning_tokens'')\<rparr>
               | _ \<Rightarrow> base))"

subsection \<open>Emitting a frame\<close>

record stream_state =
  ss_final :: "string \<Rightarrow> bool"
  ss_started :: "string \<Rightarrow> bool"
  ss_inserted :: bool
  ss_sequence :: int
  ss_pending :: "string list"
  ss_pendingID :: string
  ss_pendingBytes :: nat
  ss_armed :: nat
  ss_observed :: "TerminalResponse list"
  ss_written :: "string list"

definition stream_init :: stream_state where
  "stream_init = \<lparr>ss_final = (\<lambda>_. False), ss_started = (\<lambda>_. False), ss_inserted = False, ss_sequence = 0,
     ss_pending = [], ss_pendingID = [], ss_pendingBytes = 0, ss_armed = 0, ss_observed = [], ss_written = []\<rparr>"

text \<open>The notice goes in front of the first text part that is not empty.\<close>

fun prefix_parts :: "string \<Rightarrow> any list \<Rightarrow> any list \<times> bool" where
  "prefix_parts notice [] = ([], False)"
| "prefix_parts notice (raw # rest) =
     (let part = as_map raw; text = as_string (lookup part ''text'') in
      if lookup part ''type'' = AStr ''output_text'' \<and> text \<noteq> []
      then (AMap (put ''text'' (AStr (notice @ text)) part) # rest, True)
      else let (rest', found) = prefix_parts notice rest in (raw # rest', found))"

definition prefixItem :: "string \<Rightarrow> gomap \<Rightarrow> gomap \<times> bool" where
  "prefixItem notice item =
     (case lookup item ''content'' of
        AArr content \<Rightarrow>
          (let (content', found) = prefix_parts notice content in (put ''content'' (AArr content') item, found))
      | _ \<Rightarrow> (item, False))"

definition event_id :: "gomap \<Rightarrow> string" where
  "event_id event =
     (case lookup event ''item'' of
        AMap item \<Rightarrow> as_string (lookup item ''id'')
      | _ \<Rightarrow> as_string (lookup event ''item_id''))"

definition zero_index :: "gomap \<Rightarrow> bool" where
  "zero_index event = (case lookup event ''content_index'' of AFloat f \<Rightarrow> f = 0 | _ \<Rightarrow> True)"

text \<open>Prefixing the parts of an event that belongs to a final answer.\<close>

definition prefix_item_event :: "string \<Rightarrow> gomap \<Rightarrow> gomap \<times> bool" where
  "prefix_item_event notice event =
     (case lookup event ''item'' of
        AMap item \<Rightarrow>
          (let (item', found) = prefixItem notice item
           in (put ''item'' (AMap (put ''phase'' (AStr ''final_answer'') item')) event, found))
      | _ \<Rightarrow> (event, False))"

definition prefix_delta :: "string \<Rightarrow> bool \<Rightarrow> gomap \<Rightarrow> gomap \<times> bool" where
  "prefix_delta notice started event =
     (case lookup event ''delta'' of
        AStr delta \<Rightarrow>
          (if lookup event ''type'' = AStr ''response.output_text.delta'' \<and> \<not> started
           then (put ''delta'' (AStr (notice @ delta)) event, True) else (event, False))
      | _ \<Rightarrow> (event, False))"

definition prefix_text :: "string \<Rightarrow> gomap \<Rightarrow> gomap" where
  "prefix_text notice event =
     (case lookup event ''text'' of
        AStr text \<Rightarrow>
          (if lookup event ''type'' = AStr ''response.output_text.done''
           then put ''text'' (AStr (notice @ text)) event else event)
      | _ \<Rightarrow> event)"

definition prefix_part :: "string \<Rightarrow> gomap \<Rightarrow> gomap" where
  "prefix_part notice event =
     (case lookup event ''part'' of
        AMap part \<Rightarrow>
          (case lookup part ''text'' of
             AStr text \<Rightarrow>
               (if lookup event ''type'' = AStr ''response.content_part.done''
                   \<and> lookup part ''type'' = AStr ''output_text''
                then put ''part'' (AMap (put ''text'' (AStr (notice @ text)) part)) event else event)
           | _ \<Rightarrow> event)
      | _ \<Rightarrow> event)"

fun prefix_output :: "(string \<Rightarrow> bool) \<Rightarrow> string \<Rightarrow> any list \<Rightarrow> any list \<times> bool" where
  "prefix_output final notice [] = ([], False)"
| "prefix_output final notice (raw # rest) =
     (let (rest', found') = prefix_output final notice rest
      in case raw of
           AMap item \<Rightarrow>
             (if final (as_string (lookup item ''id''))
              then let (item', found) = prefixItem notice item in (AMap item' # rest', found \<or> found')
              else (raw # rest', found'))
         | _ \<Rightarrow> (raw # rest', found'))"

text \<open>The usage that makes the client compact its history natively.\<close>

definition arm_compaction :: "gomap \<Rightarrow> gomap" where
  "arm_compaction response =
     (let usage = as_map (lookup response ''usage'');
          outputTokens = (case tokenCount (lookup usage ''output_tokens'') of None \<Rightarrow> 0 | Some v \<Rightarrow> v)
      in put ''usage'' (AMap (put ''total_tokens'' (AInt (w64 (NativeCompactionInputTokens + outputTokens)))
           (put ''output_tokens'' (AInt outputTokens)
             (put ''input_tokens'' (AInt NativeCompactionInputTokens) usage)))) response)"

definition rewrite_response :: "string \<Rightarrow> bool \<Rightarrow> stream_state \<Rightarrow> gomap \<Rightarrow> gomap \<times> stream_state" where
  "rewrite_response notice arm st event =
     (case lookup event ''response'' of
        AMap response \<Rightarrow>
          (let (response, found) =
                 (case lookup response ''output'' of
                    AArr output \<Rightarrow>
                      (let (output', found) = prefix_output (ss_final st) notice output
                       in (put ''output'' (AArr output') response, found))
                  | _ \<Rightarrow> (response, False));
               st = st\<lparr>ss_inserted := ss_inserted st \<or> found\<rparr>;
               armed = (lookup event ''type'' = AStr ''response.completed'' \<and> arm);
               response = (if armed then arm_compaction response else response);
               st = (if armed then st\<lparr>ss_armed := ss_armed st + 1\<rparr> else st)
           in (put ''response'' (AMap response) event, st))
      | _ \<Rightarrow> (event, st))"

definition rewrite_final :: "string \<Rightarrow> string \<Rightarrow> stream_state \<Rightarrow> gomap \<Rightarrow> gomap \<times> stream_state" where
  "rewrite_final notice i st event =
     (let (event, found) = prefix_item_event notice event;
          st = st\<lparr>ss_inserted := ss_inserted st \<or> found\<rparr>
      in if \<not> zero_index event then (event, st)
         else (let (event, found) = prefix_delta notice (ss_started st i) event;
                   st = (if found then st\<lparr>ss_started := (ss_started st)(i := True), ss_inserted := True\<rparr> else st)
               in (prefix_part notice (prefix_text notice event), st)))"

definition write_chunk :: "stream_env \<Rightarrow> string \<Rightarrow> stream_state \<Rightarrow> stream_state \<times> bool" where
  "write_chunk env chunk st =
     (if env_write env (length (ss_written st)) then (st\<lparr>ss_written := ss_written st @ [chunk]\<rparr>, True)
      else (st, False))"

definition event_text :: "stream_env \<Rightarrow> gomap \<Rightarrow> string" where
  "event_text env event =
     ''event: '' @ (case lookup event ''type'' of AStr s \<Rightarrow> s | v \<Rightarrow> env_verb env v) @ [LF]
     @ ''data: '' @ env_marshal env (AMap event) @ [LF, LF]"

definition rewrite_event :: "string \<Rightarrow> bool \<Rightarrow> gomap \<Rightarrow> stream_state \<Rightarrow> gomap \<times> stream_state" where
  "rewrite_event notice arm event st =
     (let st = st\<lparr>ss_sequence := ss_sequence st + 1\<rparr>;
          event = put ''sequence_number'' (AInt (ss_sequence st)) event;
          i = event_id event;
          (event, st) = (if ss_final st i then rewrite_final notice i st event else (event, st))
      in rewrite_response notice arm st event)"

definition emit :: "stream_env \<Rightarrow> string \<Rightarrow> bool \<Rightarrow> string \<Rightarrow> stream_state \<Rightarrow> stream_state \<times> bool" where
  "emit env notice arm frame st =
     (let event = noticeEvent env frame in
      if lookup event ''type'' = ANil then write_chunk env frame st
      else (let (event, st) = rewrite_event notice arm event st in write_chunk env (event_text env event) st))"

fun emit_all :: "stream_env \<Rightarrow> string \<Rightarrow> bool \<Rightarrow> string list \<Rightarrow> stream_state \<Rightarrow> stream_state \<times> bool" where
  "emit_all env notice arm [] st = (st, True)"
| "emit_all env notice arm (f # fs) st =
     (case emit env notice arm f st of
        (st', False) \<Rightarrow> (st', False)
      | (st', True) \<Rightarrow> emit_all env notice arm fs st')"

subsection \<open>The stream\<close>

definition is_terminal :: "gomap \<Rightarrow> bool" where
  "is_terminal event \<longleftrightarrow> lookup event ''type'' \<in> {AStr ''response.completed'', AStr ''response.incomplete'',
     AStr ''response.failed'', AStr ''error''}"

text \<open>An assistant message begins: it is final, a comment, or of unknown phase.\<close>

definition note_message :: "gomap \<Rightarrow> stream_state \<Rightarrow> stream_state" where
  "note_message event st =
     (let item = as_map (lookup event ''item''); i = as_string (lookup item ''id'') in
      if ss_pendingID st = [] \<and> lookup event ''type'' = AStr ''response.output_item.added''
         \<and> lookup item ''type'' = AStr ''message'' \<and> lookup item ''role'' = AStr ''assistant''
      then (if lookup item ''phase'' = AStr ''final_answer'' then st\<lparr>ss_final := (ss_final st)(i := True)\<rparr>
            else if lookup item ''phase'' \<noteq> AStr ''commentary'' then st\<lparr>ss_pendingID := i\<rparr>
            else st)
      else st)"

datatype stream_result = Next | Done bool | Failed string

definition result_of :: "bool \<Rightarrow> stream_result \<Rightarrow> stream_result" where
  "result_of written r = (if written then r else Failed ''write'')"

definition stream_frame :: "stream_env \<Rightarrow> string \<Rightarrow> bool \<Rightarrow> bool \<Rightarrow> int \<Rightarrow> string \<Rightarrow> stream_state
    \<Rightarrow> stream_state \<times> stream_result" where
  "stream_frame env notice arm observing firstEventAtMS frame st =
     (let event = noticeEvent env frame; terminal = is_terminal event;
          st = (if terminal \<and> observing
                then st\<lparr>ss_observed := ss_observed st @
                       [terminalResponse env event firstEventAtMS (env_now env (length (ss_observed st)))]\<rparr>
                else st);
          item = as_map (lookup event ''item''); i = as_string (lookup item ''id'');
          st = note_message event st
      in if ss_pendingID st \<noteq> [] then
           (let st = st\<lparr>ss_pendingBytes := ss_pendingBytes st + length frame\<rparr> in
            if MaxRequest < ss_pendingBytes st then (st, Failed ''assistant message exceeds limit'')
            else
              (let st = st\<lparr>ss_pending := ss_pending st @ [frame]\<rparr> in
               if terminal then
                 (let (st, ok) = emit_all env notice arm (ss_pending st) st
                  in (st, result_of ok (Done (ss_inserted st))))
               else if lookup event ''type'' \<noteq> AStr ''response.output_item.done'' \<or> i \<noteq> ss_pendingID st
               then (st, Next)
               else
                 (let st = st\<lparr>ss_final := (ss_final st)(i := lookup item ''phase'' \<noteq> AStr ''commentary'')\<rparr>;
                      (st, ok) = emit_all env notice arm (ss_pending st) st
                  in (if ok then st\<lparr>ss_pending := [], ss_pendingID := [], ss_pendingBytes := 0\<rparr> else st,
                      result_of ok Next))))
         else
           (let (st, ok) = emit env notice arm frame st
            in (st, result_of ok (if terminal then Done (ss_inserted st) else Next))))"

function stream_loop :: "stream_env \<Rightarrow> string \<Rightarrow> bool \<Rightarrow> bool \<Rightarrow> int \<Rightarrow> read_end \<Rightarrow> string \<Rightarrow> stream_state
    \<Rightarrow> stream_state \<times> (string + bool)" where
  "stream_loop env notice arm observing firstEventAtMS end input st =
     (case readNoticeFrame end input of
        Stopped _ REOF \<Rightarrow>
          (st, if ss_pendingID st \<noteq> [] then Inl ''stream ended before assistant message completed''
               else Inr (ss_inserted st))
      | Stopped _ (RErr _) \<Rightarrow> (st, Inl ''read'')
      | Frame frame rest \<Rightarrow>
          (case stream_frame env notice arm observing firstEventAtMS frame st of
             (st', Done inserted) \<Rightarrow> (st', Inr inserted)
           | (st', Failed e) \<Rightarrow> (st', Inl e)
           | (st', Next) \<Rightarrow> stream_loop env notice arm observing firstEventAtMS end rest st'))"
  by pat_completeness auto
termination
  by (relation "measure (\<lambda>(_, _, _, _, _, _, input, _). length input)")
    (auto dest: readNoticeFrame_shorter)

declare stream_loop.simps [simp del]

definition streamNotice :: "stream_env \<Rightarrow> read_end \<Rightarrow> string \<Rightarrow> string \<Rightarrow> int \<Rightarrow> bool \<Rightarrow> bool
    \<Rightarrow> stream_state \<times> (string + bool)" where
  "streamNotice env end input notice firstEventAtMS observing arm =
     stream_loop env notice arm observing firstEventAtMS end input stream_init"


subsection \<open>The text of a notice\<close>

record Notice =
  no_AccountID :: string
  no_AccountLabel :: string
  no_ShortRemainingPercent :: nullint
  no_WeeklyRemainingPercent :: nullint
  no_ShortResetsAt :: string
  no_WeeklyResetsAt :: string
  no_Status :: string

definition hammer :: string where "hammer = [CHR 0xF0, CHR 0x9F, CHR 0x94, CHR 0xA8, CHR 0x20]"
definition middot :: string where "middot = [CHR 0x20, CHR 0xC2, CHR 0xB7, CHR 0x20]"
definition em_dash :: string where "em_dash = [CHR 0xE2, CHR 0x80, CHR 0x94]"

definition percent_text :: "nullint \<Rightarrow> string" where
  "percent_text v = (case v of None \<Rightarrow> em_dash | Some n \<Rightarrow> itoa n @ ''%'')"

definition minute_ns :: int where "minute_ns = 60 * 10 ^ 9"

text \<open>\<open>time.Time.Sub\<close> saturates; times are nanoseconds.\<close>

definition time_sub :: "int \<Rightarrow> int \<Rightarrow> int" where
  "time_sub a b = max (- MaxInt64 - 1) (min MaxInt64 (a - b))"

definition reset_text :: "(string \<Rightarrow> int option) \<Rightarrow> int \<Rightarrow> string \<Rightarrow> string" where
  "reset_text parse_time now v =
     (case parse_time v of
        None \<Rightarrow> em_dash
      | Some at_ns \<Rightarrow>
          (let minutes = max 0 (go_div (w64 (time_sub at_ns now + minute_ns - 1)) minute_ns) in
           if 24 * 60 \<le> minutes then itoa (minutes div (24 * 60)) @ ''d'' @ itoa (minutes div 60 mod 24) @ ''h''
           else if 60 \<le> minutes then itoa (minutes div 60) @ ''h'' @ itoa (minutes mod 60) @ ''m''
           else itoa minutes @ ''m''))"

definition notice_line :: "(string \<Rightarrow> int option) \<Rightarrow> Notice \<Rightarrow> int \<Rightarrow> string" where
  "notice_line parse_time selected now =
     (let label = (if no_AccountLabel selected = [] then no_AccountID selected else no_AccountLabel selected);
          status = (if no_Status selected \<noteq> [] then middot @ no_Status selected else [])
      in hammer @ label @ middot @ ''5h '' @ percent_text (no_ShortRemainingPercent selected) @ '' ''
         @ reset_text parse_time now (no_ShortResetsAt selected) @ middot @ ''7d ''
         @ percent_text (no_WeeklyRemainingPercent selected) @ '' ''
         @ reset_text parse_time now (no_WeeklyResetsAt selected) @ status)"

definition AccountNoticeAt :: "(string \<Rightarrow> int option) \<Rightarrow> Notice \<Rightarrow> int \<Rightarrow> string" where
  "AccountNoticeAt parse_time selected now = notice_line parse_time selected now @ [LF, LF]"

subsection \<open>Removing notices from the history\<close>

record json_env =
  je_parse :: "string \<Rightarrow> json option"
  je_number :: "string \<Rightarrow> rat"
  je_literal :: "rat \<Rightarrow> string"

fun decode_any :: "(string \<Rightarrow> rat) \<Rightarrow> json \<Rightarrow> any" where
  "decode_any num JNull = ANil"
| "decode_any num (JBool b) = ABool b"
| "decode_any num (JNum n) = AFloat (num n)"
| "decode_any num (JStr lit s) = AStr s"
| "decode_any num (JArr xs) = AArr (map (decode_any num) xs)"
| "decode_any num (JObj fs) =
     AMap (fold (\<lambda>(k, v) m. put k v m) (map (\<lambda>f. (snd (fst f), decode_any num (snd f))) fs) [])"

fun encode_any :: "(rat \<Rightarrow> string) \<Rightarrow> any \<Rightarrow> json" where
  "encode_any lit ANil = JNull"
| "encode_any lit (ABool b) = JBool b"
| "encode_any lit (AInt n) = JNum (itoa n)"
| "encode_any lit (AFloat f) = JNum (lit f)"
| "encode_any lit (AStr s) = go_string s"
| "encode_any lit (AArr xs) = JArr (map (encode_any lit) xs)"
| "encode_any lit (AMap m) = marshal_map (map (\<lambda>f. (fst f, encode_any lit (snd f))) m)"
| "encode_any lit (AStrs ss) = JArr (map go_string ss)"

definition legacy_line :: "string \<Rightarrow> bool" where
  "legacy_line line \<longleftrightarrow> HasPrefix line ''Codex Broker: '' \<and> Contains line (middot @ ''short '')
     \<and> Contains line (middot @ ''weekly '')"

definition current_line :: "string \<Rightarrow> bool" where
  "current_line line \<longleftrightarrow> HasPrefix line hammer \<and> Contains line (middot @ ''5h '') \<and> Contains line (middot @ ''7d '')"

text \<open>The text without its notice, and whether there was one.\<close>

definition strip_notice :: "string \<Rightarrow> string \<times> bool" where
  "strip_notice text =
     (case Cut text [LF, LF] of
        Some (line, rest) \<Rightarrow> if legacy_line line \<or> current_line line then (rest, True) else (text, False)
      | None \<Rightarrow> (text, False))"

fun strip_parts :: "any list \<Rightarrow> any list \<times> bool" where
  "strip_parts [] = ([], False)"
| "strip_parts (raw # rest) =
     (let (rest', changed') = strip_parts rest
      in case raw of
           AMap part \<Rightarrow>
             (case lookup part ''text'' of
                AStr text \<Rightarrow>
                  (let (text', changed) = strip_notice text
                   in (AMap (put ''text'' (AStr text') part) # rest', changed \<or> changed'))
              | _ \<Rightarrow> (raw # rest', changed'))
         | _ \<Rightarrow> (raw # rest', changed'))"

definition strip_item :: "gomap \<Rightarrow> gomap \<times> bool" where
  "strip_item item =
     (case lookup item ''content'' of
        AStr content \<Rightarrow>
          (let (content', changed) = strip_notice content in (put ''content'' (AStr content') item, changed))
      | AArr content \<Rightarrow>
          (let (content', changed) = strip_parts content in (put ''content'' (AArr content') item, changed))
      | _ \<Rightarrow> (item, False))"

text \<open>One item of the input: what is kept of it, and whether anything changed so far.\<close>

definition prepare_item :: "json_env \<Rightarrow> json \<Rightarrow> bool \<Rightarrow> json list \<times> bool" where
  "prepare_item env raw changed =
     (let item = as_map (decode_any (je_number env) raw) in
      if lookup item ''role'' = AStr ''assistant'' then
        (if HasPrefix (as_string (lookup item ''id'')) NoticePrefix then ([], True)
         else let (item', stripped) = strip_item item; changed = (changed \<or> stripped)
              in ([if changed then encode_any (je_literal env) (AMap item') else raw], changed))
      else ([raw], changed))"

fun prepare_items :: "json_env \<Rightarrow> json list \<Rightarrow> bool \<Rightarrow> json list \<times> bool" where
  "prepare_items env [] changed = ([], changed)"
| "prepare_items env (raw # rest) changed =
     (let (kept, changed) = prepare_item env raw changed; (kept', changed) = prepare_items env rest changed
      in (kept @ kept', changed))"

definition PrepareNotice :: "json_env \<Rightarrow> string \<Rightarrow> string" where
  "PrepareNotice env body =
     (case unmarshal_map (je_parse env body) of
        None \<Rightarrow> body
      | Some request \<Rightarrow>
          (case unmarshal_array (map_of request ''input'') of
             None \<Rightarrow> body
           | Some input \<Rightarrow>
               (case prepare_items env input False of
                  (filtered, False) \<Rightarrow> body
                | (filtered, True) \<Rightarrow> json_text (marshal_map (AList.update ''input'' (JArr filtered) request)))))"

end
