(* ===== verification/Notice_Correct.thy ===== *)
theory Notice_Correct
  imports Notice
begin

text \<open>
  Correctness of the notices: a notice is taken out of the history exactly as it was put in,
  the frames of a stream reach the client once and in their order with consecutive sequence
  numbers and only their text prefixed, and the armed usage is consistent.
\<close>

subsection \<open>A notice comes out as it went in\<close>

lemma itoa_nat_no_LF: "LF \<notin> set (itoa_nat n)"
proof (induction n rule: itoa_nat.induct)
  case (1 n)
  have digit: "LF \<noteq> char_of (48 + d)" if "d < 10" for d :: nat
  proof
    assume "LF = char_of (48 + d)"
    then have "(of_char LF :: nat) = of_char (char_of (48 + d) :: char)" by simp
    then have "(10 :: nat) = 48 + d" using that by (simp add: LF_def)
    then show False by simp
  qed
  show ?case
    using 1 digit [of n] digit [of "n mod 10"] by (subst itoa_nat.simps) auto
qed

lemma itoa_no_LF [simp]: "LF \<notin> set (itoa n)"
  using itoa_nat_no_LF by (simp add: itoa_def) (simp add: LF_def)

lemma percent_text_no_LF [simp]: "LF \<notin> set (percent_text v)"
  by (auto simp: percent_text_def em_dash_def split: option.split) (auto simp: LF_def)

lemma reset_text_no_LF [simp]: "LF \<notin> set (reset_text parse_time now v)"
  by (auto simp: reset_text_def em_dash_def Let_def split: option.split) (auto simp: LF_def)

lemma no_blank_line:
  assumes "LF \<notin> set line"
  shows "\<not> Contains (line @ [LF]) [LF, LF]"
  using assms
proof (induction line)
  case Nil
  then show ?case by (simp add: Contains.simps HasPrefix_def)
next
  case (Cons c line)
  then show ?case by (simp add: Contains.simps [of "c # line @ [LF]"]) (auto simp: HasPrefix_def)
qed

lemma notice_line_no_LF:
  assumes "LF \<notin> set (no_AccountLabel n)" "LF \<notin> set (no_AccountID n)" "LF \<notin> set (no_Status n)"
  shows "LF \<notin> set (notice_line parse_time n now)"
  using assms by (auto simp: notice_line_def Let_def) (auto simp: LF_def hammer_def middot_def)

lemma notice_line_current: "current_line (notice_line parse_time n now)"
  unfolding current_line_def
proof (intro conjI)
  let ?label = "if no_AccountLabel n = [] then no_AccountID n else no_AccountLabel n"
  show "HasPrefix (notice_line parse_time n now) hammer"
    by (simp add: notice_line_def Let_def)
  show "Contains (notice_line parse_time n now) (middot @ ''5h '')"
    using Contains_append [of "hammer @ ?label" "middot @ ''5h ''"]
    by (simp add: notice_line_def Let_def)
  show "Contains (notice_line parse_time n now) (middot @ ''7d '')"
    using Contains_append [of "hammer @ ?label @ middot @ ''5h '' @ percent_text (no_ShortRemainingPercent n) @ '' ''
         @ reset_text parse_time now (no_ShortResetsAt n)" "middot @ ''7d ''"]
    by (simp add: notice_line_def Let_def)
qed

text \<open>
  C30: The notice the broker writes in front of an answer is what it removes when the client
  sends the answer back as history: stripping the text with the notice gives the text as the
  model wrote it, for every account, usage reading, clock and text, provided that the label, the
  account and the status of the notice have no line break.
\<close>

theorem notice_round_trip:
  assumes "LF \<notin> set (no_AccountLabel n)" "LF \<notin> set (no_AccountID n)" "LF \<notin> set (no_Status n)"
  shows "strip_notice (AccountNoticeAt parse_time n now @ text) = (text, True)"
proof -
  have "Cut (notice_line parse_time n now @ [LF, LF] @ text) [LF, LF] = Some (notice_line parse_time n now, text)"
    using no_blank_line [OF notice_line_no_LF [OF assms]] by (intro Cut_append) simp_all
  then show ?thesis
    using notice_line_current [of parse_time n now] by (simp add: strip_notice_def AccountNoticeAt_def)
qed

lemma notice_round_trip_witness:
  "strip_notice (AccountNoticeAt (\<lambda>_. None) \<lparr>no_AccountID = ''a1'', no_AccountLabel = ''Work'',
     no_ShortRemainingPercent = Some 40, no_WeeklyRemainingPercent = None, no_ShortResetsAt = [],
     no_WeeklyResetsAt = [], no_Status = ''retry''\<rparr> 0 @ ''Hello'') = (''Hello'', True)"
  by (rule notice_round_trip) (simp_all add: LF_def)


subsection \<open>What rewriting keeps of an event\<close>

definition text_kept :: "string \<Rightarrow> any \<Rightarrow> any \<Rightarrow> bool" where
  "text_kept notice v v' \<longleftrightarrow> v' = v \<or> (\<exists>d. v = AStr d \<and> v' = AStr (notice @ d))"

definition event_kept :: "string \<Rightarrow> gomap \<Rightarrow> gomap \<Rightarrow> bool" where
  "event_kept notice e e' \<longleftrightarrow>
     (\<forall>k. k \<notin> {''sequence_number'', ''item'', ''delta'', ''text'', ''part'', ''response''} \<longrightarrow> lookup e' k = lookup e k)
     \<and> text_kept notice (lookup e ''delta'') (lookup e' ''delta'')
     \<and> text_kept notice (lookup e ''text'') (lookup e' ''text'')
     \<and> (\<forall>k. k \<notin> {''content'', ''phase''} \<longrightarrow>
          lookup (as_map (lookup e' ''item'')) k = lookup (as_map (lookup e ''item'')) k)"

lemma as_map_simps [simp]: "as_map (AMap m) = m" "as_map ANil = []" "as_map (AStr s) = []"
  by (simp_all add: as_map_def)

lemma prefixItem_kept:
  "prefixItem notice item = (item', found) \<Longrightarrow> k \<noteq> ''content'' \<Longrightarrow> lookup item' k = lookup item k"
  by (auto simp: prefixItem_def split: any.splits prod.splits)

lemma prefix_item_event_kept:
  "k \<noteq> ''item'' \<Longrightarrow> lookup (fst (prefix_item_event notice e)) k = lookup e k"
  "k \<notin> {''content'', ''phase''} \<Longrightarrow> lookup (as_map (lookup (fst (prefix_item_event notice e)) ''item'')) k
     = lookup (as_map (lookup e ''item'')) k"
  by (auto simp: prefix_item_event_def split: any.split prod.split dest: prefixItem_kept)

lemma prefix_delta_kept:
  "k \<noteq> ''delta'' \<Longrightarrow> lookup (fst (prefix_delta notice b e)) k = lookup e k"
  "text_kept notice (lookup e ''delta'') (lookup (fst (prefix_delta notice b e)) ''delta'')"
  by (auto simp: prefix_delta_def text_kept_def split: any.split)

lemma prefix_text_kept:
  "k \<noteq> ''text'' \<Longrightarrow> lookup (prefix_text notice e) k = lookup e k"
  "text_kept notice (lookup e ''text'') (lookup (prefix_text notice e) ''text'')"
  by (auto simp: prefix_text_def text_kept_def split: any.split)

lemma prefix_part_kept: "k \<noteq> ''part'' \<Longrightarrow> lookup (prefix_part notice e) k = lookup e k"
  by (auto simp: prefix_part_def split: any.split)

lemma rewrite_response_kept:
  "k \<noteq> ''response'' \<Longrightarrow> lookup (fst (rewrite_response notice arm st e)) k = lookup e k"
  by (auto simp: rewrite_response_def Let_def split: any.split prod.split)

lemma rewrite_final_kept:
  "k \<notin> {''item'', ''delta'', ''text'', ''part''} \<Longrightarrow> lookup (fst (rewrite_final notice i st e)) k = lookup e k"
  "text_kept notice (lookup e ''delta'') (lookup (fst (rewrite_final notice i st e)) ''delta'')"
  "text_kept notice (lookup e ''text'') (lookup (fst (rewrite_final notice i st e)) ''text'')"
  "k \<notin> {''content'', ''phase''} \<Longrightarrow> lookup (as_map (lookup (fst (rewrite_final notice i st e)) ''item'')) k
     = lookup (as_map (lookup e ''item'')) k"
proof -
  define e1 where "e1 = fst (prefix_item_event notice e)"
  define e2 where "e2 = fst (prefix_delta notice (ss_started st i) e1)"
  have r: "fst (rewrite_final notice i st e) = (if zero_index e1 then prefix_part notice (prefix_text notice e2) else e1)"
    by (simp add: rewrite_final_def e1_def e2_def Let_def split: prod.split)
  have item: "k \<noteq> ''item'' \<Longrightarrow> lookup e1 k = lookup e k"
    "k \<notin> {''content'', ''phase''} \<Longrightarrow> lookup (as_map (lookup e1 ''item'')) k = lookup (as_map (lookup e ''item'')) k" for k
    using prefix_item_event_kept [where notice = notice and e = e and k = k] by (simp_all add: e1_def)
  have delta: "k \<noteq> ''delta'' \<Longrightarrow> lookup e2 k = lookup e1 k"
    "text_kept notice (lookup e1 ''delta'') (lookup e2 ''delta'')" for k
    by (simp_all add: e2_def prefix_delta_kept)
  show "lookup (fst (rewrite_final notice i st e)) k = lookup e k" if "k \<notin> {''item'', ''delta'', ''text'', ''part''}"
    using that by (simp add: r item(1) delta(1) prefix_text_kept(1) prefix_part_kept)
  show "text_kept notice (lookup e ''delta'') (lookup (fst (rewrite_final notice i st e)) ''delta'')"
    using delta(2) item(1) [of "''delta''"]
    by (simp add: r prefix_text_kept(1) prefix_part_kept) (simp add: text_kept_def)
  show "text_kept notice (lookup e ''text'') (lookup (fst (rewrite_final notice i st e)) ''text'')"
    using prefix_text_kept(2) [of notice e2] delta(1) [of "''text''"] item(1) [of "''text''"]
    by (simp add: r prefix_part_kept) (simp add: text_kept_def)
  show "lookup (as_map (lookup (fst (rewrite_final notice i st e)) ''item'')) k = lookup (as_map (lookup e ''item'')) k"
    if "k \<notin> {''content'', ''phase''}"
    using item(2) [OF that] delta(1) [of "''item''"]
    by (simp add: r prefix_text_kept(1) prefix_part_kept)
qed

definition same_progress :: "stream_state \<Rightarrow> stream_state \<Rightarrow> bool" where
  "same_progress st st' \<longleftrightarrow> ss_sequence st' = ss_sequence st \<and> ss_written st' = ss_written st
     \<and> ss_pending st' = ss_pending st \<and> ss_pendingID st' = ss_pendingID st \<and> ss_observed st' = ss_observed st"

lemma rewrite_final_progress: "same_progress st (snd (rewrite_final notice i st e))"
  by (simp add: rewrite_final_def same_progress_def Let_def split: prod.split)

lemma rewrite_response_progress: "same_progress st (snd (rewrite_response notice arm st e))"
  unfolding rewrite_response_def
  by (cases "lookup e ''response''") (simp_all add: same_progress_def Let_def split: prod.split)

lemma rewrite_state_frame:
  "ss_sequence (snd (rewrite_event notice arm e st)) = ss_sequence st + 1"
  "ss_written (snd (rewrite_event notice arm e st)) = ss_written st"
  "ss_pending (snd (rewrite_event notice arm e st)) = ss_pending st"
  "ss_pendingID (snd (rewrite_event notice arm e st)) = ss_pendingID st"
  "ss_observed (snd (rewrite_event notice arm e st)) = ss_observed st"
proof -
  define st1 where "st1 = st\<lparr>ss_sequence := ss_sequence st + 1\<rparr>"
  define e1 where "e1 = put ''sequence_number'' (AInt (ss_sequence st + 1)) e"
  define p where "p = (if ss_final st1 (event_id e1) then rewrite_final notice (event_id e1) st1 e1 else (e1, st1))"
  have r: "rewrite_event notice arm e st = rewrite_response notice arm (snd p) (fst p)"
    by (simp add: rewrite_event_def st1_def e1_def p_def Let_def split: prod.split)
  have "same_progress st1 (snd p)"
    using rewrite_final_progress by (simp add: p_def) (simp add: same_progress_def)
  then have "same_progress st1 (snd (rewrite_event notice arm e st))"
    using rewrite_response_progress [of "snd p" notice arm "fst p"] by (simp add: r same_progress_def)
  then show "ss_sequence (snd (rewrite_event notice arm e st)) = ss_sequence st + 1"
    "ss_written (snd (rewrite_event notice arm e st)) = ss_written st"
    "ss_pending (snd (rewrite_event notice arm e st)) = ss_pending st"
    "ss_pendingID (snd (rewrite_event notice arm e st)) = ss_pendingID st"
    "ss_observed (snd (rewrite_event notice arm e st)) = ss_observed st"
    by (simp_all add: same_progress_def st1_def)
qed

lemma rewrite_event_kept:
  "event_kept notice e (fst (rewrite_event notice arm e st))"
  "lookup (fst (rewrite_event notice arm e st)) ''sequence_number'' = AInt (ss_sequence st + 1)"
proof -
  define st1 where "st1 = st\<lparr>ss_sequence := ss_sequence st + 1\<rparr>"
  define e1 where "e1 = put ''sequence_number'' (AInt (ss_sequence st + 1)) e"
  define e2 where "e2 = (if ss_final st1 (event_id e1) then fst (rewrite_final notice (event_id e1) st1 e1) else e1)"
  define st2 where "st2 = (if ss_final st1 (event_id e1) then snd (rewrite_final notice (event_id e1) st1 e1) else st1)"
  have r: "fst (rewrite_event notice arm e st) = fst (rewrite_response notice arm st2 e2)"
    by (simp add: rewrite_event_def st1_def e1_def e2_def st2_def Let_def split: prod.split)
  show "event_kept notice e (fst (rewrite_event notice arm e st))"
    using rewrite_final_kept(2,3) [of notice e1 "event_id e1" st1]
    by (auto simp: r event_kept_def rewrite_response_kept e2_def rewrite_final_kept(1,4))
      (auto simp: e1_def text_kept_def)
  show "lookup (fst (rewrite_event notice arm e st)) ''sequence_number'' = AInt (ss_sequence st + 1)"
    by (simp add: r rewrite_response_kept e2_def rewrite_final_kept(1)) (simp add: e1_def)
qed


subsection \<open>The order of the stream\<close>

definition typed :: "stream_env \<Rightarrow> string \<Rightarrow> bool" where
  "typed env frame \<longleftrightarrow> lookup (noticeEvent env frame) ''type'' \<noteq> ANil"

text \<open>What is written for a frame when \<open>n\<close> events were numbered before it.\<close>

definition delivered_as :: "stream_env \<Rightarrow> string \<Rightarrow> nat \<Rightarrow> string \<Rightarrow> string \<Rightarrow> bool" where
  "delivered_as env notice n frame chunk \<longleftrightarrow>
     (if typed env frame
      then \<exists>event. chunk = event_text env event \<and> lookup event ''sequence_number'' = AInt (int n + 1)
             \<and> event_kept notice (noticeEvent env frame) event
      else chunk = frame)"

definition delivered :: "stream_env \<Rightarrow> string \<Rightarrow> string list \<Rightarrow> string list \<Rightarrow> bool" where
  "delivered env notice frames chunks \<longleftrightarrow> length chunks = length frames
     \<and> (\<forall>i<length frames. delivered_as env notice (length (filter (typed env) (take i frames))) (frames ! i) (chunks ! i))"

lemma delivered_snoc:
  assumes "delivered env notice frames chunks"
    and "delivered_as env notice (length (filter (typed env) frames)) f c"
  shows "delivered env notice (frames @ [f]) (chunks @ [c])"
  using assms by (auto simp: delivered_def nth_append less_Suc_eq)

lemma emit_delivers:
  assumes "emit env notice arm f st = (st', True)"
    and "ss_sequence st = int n"
  shows "\<exists>c. ss_written st' = ss_written st @ [c] \<and> delivered_as env notice n f c
    \<and> ss_sequence st' = int (if typed env f then n + 1 else n)
    \<and> ss_pending st' = ss_pending st \<and> ss_pendingID st' = ss_pendingID st"
proof (cases "typed env f")
  case True
  obtain event st1 where e: "rewrite_event notice arm (noticeEvent env f) st = (event, st1)" by fastforce
  have "write_chunk env (event_text env event) st1 = (st', True)"
    using assms(1) True e by (simp add: emit_def Let_def typed_def)
  then have "st' = st1\<lparr>ss_written := ss_written st1 @ [event_text env event]\<rparr>"
    by (auto simp: write_chunk_def split: if_splits)
  then show ?thesis
    using rewrite_state_frame [of notice arm "noticeEvent env f" st]
      rewrite_event_kept [where notice = notice and e = "noticeEvent env f" and arm = arm and st = st] True assms(2) e
    by (auto simp: delivered_as_def)
next
  case False
  then have "write_chunk env f st = (st', True)"
    using assms(1) by (simp add: emit_def Let_def typed_def)
  then show ?thesis
    using False assms(2) by (auto simp: write_chunk_def delivered_as_def split: if_splits)
qed

definition emitted_ok :: "stream_env \<Rightarrow> string \<Rightarrow> string list \<Rightarrow> stream_state \<Rightarrow> bool" where
  "emitted_ok env notice frames st \<longleftrightarrow> delivered env notice frames (ss_written st)
     \<and> ss_sequence st = int (length (filter (typed env) frames))"

lemma emit_ok:
  assumes "emit env notice arm f st = (st', True)" and "emitted_ok env notice frames st"
  shows "emitted_ok env notice (frames @ [f]) st' \<and> ss_pending st' = ss_pending st \<and> ss_pendingID st' = ss_pendingID st"
  using emit_delivers [OF assms(1), of "length (filter (typed env) frames)"] assms(2) delivered_snoc
  by (fastforce simp: emitted_ok_def)

lemma emit_all_ok:
  "emit_all env notice arm fs st = (st', True) \<Longrightarrow> emitted_ok env notice frames st \<Longrightarrow>
   emitted_ok env notice (frames @ fs) st'"
proof (induction fs arbitrary: st frames)
  case Nil
  then show ?case by simp
next
  case (Cons f fs)
  obtain st1 b where e: "emit env notice arm f st = (st1, b)" by fastforce
  then have b: "b" "emit_all env notice arm fs st1 = (st', True)"
    using Cons.prems(1) by (auto split: bool.splits)
  show ?case
    using Cons.IH [OF b(2), of "frames @ [f]"] emit_ok [of env notice arm f st st1 frames] e b(1) Cons.prems(2)
    by simp
qed

text \<open>The frames read so far: those written and those held back.\<close>

definition stream_inv :: "stream_env \<Rightarrow> string \<Rightarrow> string list \<Rightarrow> stream_state \<Rightarrow> bool" where
  "stream_inv env notice frames st \<longleftrightarrow>
     (\<exists>emitted. frames = emitted @ ss_pending st \<and> emitted_ok env notice emitted st)
     \<and> (ss_pendingID st = [] \<longrightarrow> ss_pending st = [])"

lemma emitted_ok_frame [simp]:
  "emitted_ok env notice frames (st\<lparr>ss_observed := o1\<rparr>) = emitted_ok env notice frames st"
  "emitted_ok env notice frames (st\<lparr>ss_final := f1\<rparr>) = emitted_ok env notice frames st"
  "emitted_ok env notice frames (st\<lparr>ss_pending := p1\<rparr>) = emitted_ok env notice frames st"
  "emitted_ok env notice frames (st\<lparr>ss_pendingID := i1\<rparr>) = emitted_ok env notice frames st"
  "emitted_ok env notice frames (st\<lparr>ss_pendingBytes := b1\<rparr>) = emitted_ok env notice frames st"
  by (simp_all add: emitted_ok_def)

lemma note_message_inv:
  "stream_inv env notice frames st \<Longrightarrow> stream_inv env notice frames (note_message e st)"
  by (auto simp: note_message_def stream_inv_def Let_def)

definition before_frame :: "stream_env \<Rightarrow> bool \<Rightarrow> int \<Rightarrow> gomap \<Rightarrow> stream_state \<Rightarrow> stream_state" where
  "before_frame env observing firstEventAtMS event st =
     note_message event (if is_terminal event \<and> observing
       then st\<lparr>ss_observed := ss_observed st @
              [terminalResponse env event firstEventAtMS (env_now env (length (ss_observed st)))]\<rparr>
       else st)"

lemma before_frame_inv:
  "stream_inv env notice frames st \<Longrightarrow> stream_inv env notice frames (before_frame env observing t event st)"
  unfolding before_frame_def
  by (rule note_message_inv) (simp add: stream_inv_def)

lemma stream_frame_pending:
  assumes "stream_inv env notice frames st"
    and "stream_frame env notice arm observing t frame st0 = (st', r)"
    and "st = before_frame env observing t (noticeEvent env frame) st0" "ss_pendingID st \<noteq> []"
  shows "(r = Next \<longrightarrow> stream_inv env notice (frames @ [frame]) st')
    \<and> (\<forall>b. r = Done b \<longrightarrow> emitted_ok env notice (frames @ [frame]) st' \<and> is_terminal (noticeEvent env frame))"
proof -
  define event where "event = noticeEvent env frame"
  define st1 where "st1 = st\<lparr>ss_pendingBytes := ss_pendingBytes st + length frame, ss_pending := ss_pending st @ [frame]\<rparr>"
  define i where "i = as_string (lookup (as_map (lookup event ''item'')) ''id'')"
  define st2 where "st2 = st1\<lparr>ss_final := (ss_final st1)(i := lookup (as_map (lookup event ''item'')) ''phase'' \<noteq> AStr ''commentary'')\<rparr>"
  have run: "stream_frame env notice arm observing t frame st0 =
    (if MaxRequest < ss_pendingBytes st + length frame
     then (st\<lparr>ss_pendingBytes := ss_pendingBytes st + length frame\<rparr>, Failed ''assistant message exceeds limit'')
     else if is_terminal event then
       (case emit_all env notice arm (ss_pending st1) st1 of (st, ok) \<Rightarrow> (st, result_of ok (Done (ss_inserted st))))
     else if lookup event ''type'' \<noteq> AStr ''response.output_item.done'' \<or> i \<noteq> ss_pendingID st1 then (st1, Next)
     else (case emit_all env notice arm (ss_pending st2) st2 of
             (st, ok) \<Rightarrow> (if ok then st\<lparr>ss_pending := [], ss_pendingID := [], ss_pendingBytes := 0\<rparr> else st,
                           result_of ok Next)))"
    using assms(4)
    unfolding stream_frame_def Let_def assms(3) before_frame_def event_def [symmetric] st2_def st1_def i_def
    by simp
  obtain emitted where em: "frames = emitted @ ss_pending st" "emitted_ok env notice emitted st"
    using assms(1) by (auto simp: stream_inv_def)
  have ok1: "emitted_ok env notice emitted st1" using em(2) by (simp add: st1_def)
  have ok2: "emitted_ok env notice emitted st2" using ok1 by (simp add: st2_def)
  have pend: "emitted @ ss_pending st1 = frames @ [frame]" "ss_pending st2 = ss_pending st1"
    using em(1) by (simp_all add: st1_def st2_def)
  have all: "emitted_ok env notice (frames @ [frame]) st''"
    if "emit_all env notice arm (ss_pending st1) st1 = (st'', True) \<or> emit_all env notice arm (ss_pending st2) st2 = (st'', True)" for st''
    using that emit_all_ok [OF _ ok1] emit_all_ok [OF _ ok2] pend by metis
  have keep: "stream_inv env notice (frames @ [frame]) st1"
    using pend(1) ok1 assms(4) by (auto simp: stream_inv_def st1_def)
  have flushed: "stream_inv env notice (frames @ [frame]) (st''\<lparr>ss_pending := [], ss_pendingID := [], ss_pendingBytes := 0\<rparr>)"
    if "emitted_ok env notice (frames @ [frame]) st''" for st''
    using that by (simp add: stream_inv_def)
  show ?thesis
    using assms(2) all keep flushed unfolding run
    by (auto simp: result_of_def event_def split: if_splits prod.splits)
qed

lemma stream_frame_ok:
  assumes "stream_inv env notice frames st"
    and "stream_frame env notice arm observing t frame st = (st', r)"
  shows "(r = Next \<longrightarrow> stream_inv env notice (frames @ [frame]) st')
    \<and> (\<forall>b. r = Done b \<longrightarrow> emitted_ok env notice (frames @ [frame]) st' \<and> is_terminal (noticeEvent env frame))"
proof -
  define st1 where "st1 = before_frame env observing t (noticeEvent env frame) st"
  have inv: "stream_inv env notice frames st1" unfolding st1_def by (rule before_frame_inv [OF assms(1)])
  show ?thesis
  proof (cases "ss_pendingID st1 = []")
    case False
    then show ?thesis using stream_frame_pending [OF inv assms(2) st1_def] by blast
  next
    case True
    then have run: "stream_frame env notice arm observing t frame st =
        (case emit env notice arm frame st1 of (st, ok) \<Rightarrow>
          (st, result_of ok (if is_terminal (noticeEvent env frame) then Done (ss_inserted st) else Next)))"
      unfolding stream_frame_def Let_def st1_def before_frame_def by simp
    have ok: "emitted_ok env notice frames st1" "ss_pending st1 = []"
      using inv True by (auto simp: stream_inv_def)
    show ?thesis
      using assms(2) ok True emit_ok [of env notice arm frame st1 _ frames] unfolding run
      by (auto simp: result_of_def stream_inv_def split: if_splits prod.splits)
  qed
qed

lemma readNoticeFrame_stopped: "readNoticeFrame REOF s = Stopped f REOF \<Longrightarrow> s = []"
proof -
  have "read_frame REOF frame s = Stopped f REOF \<Longrightarrow> s = [] \<and> frame = []" for frame
  proof (induction REOF frame s rule: read_frame.induct)
    case (1 frame s)
    then show ?case
      by (subst (asm) (3) read_frame.simps)
        (auto simp: frame_limit_def read_slice_def Let_def split: slice.splits if_splits)
  qed
  then show "readNoticeFrame REOF s = Stopped f REOF \<Longrightarrow> s = []" unfolding readNoticeFrame_def by blast
qed


lemma stream_loop_delivers:
  "stream_loop env notice arm observing t REOF input st = (st', Inr b) \<Longrightarrow> stream_inv env notice done st \<Longrightarrow>
   \<exists>frames rest. concat frames @ rest = input \<and> emitted_ok env notice (done @ frames) st'
     \<and> (rest = [] \<or> frames \<noteq> [] \<and> is_terminal (noticeEvent env (last frames)))"
proof (induction env notice arm observing t REOF input st arbitrary: "done" rule: stream_loop.induct)
  case (1 env notice arm observing t input st)
  show ?case
  proof (cases "readNoticeFrame REOF input")
    case (Stopped f e)
    then have "e = REOF" "ss_pendingID st = []" "st' = st"
      using "1.prems"(1) by (auto simp: stream_loop.simps [of _ _ _ _ _ REOF input] split: read_end.splits if_splits)
    then have "input = []" "emitted_ok env notice done st"
      using readNoticeFrame_stopped [of input f] Stopped "1.prems"(2) by (auto simp: stream_inv_def)
    then show ?thesis using \<open>st' = st\<close> by (intro exI [of _ "[]"]) simp
  next
    case (Frame f rest)
    obtain st1 r where fr: "stream_frame env notice arm observing t f st = (st1, r)" by fastforce
    have step: "(r = Next \<longrightarrow> stream_inv env notice (done @ [f]) st1)
      \<and> (\<forall>b. r = Done b \<longrightarrow> emitted_ok env notice (done @ [f]) st1 \<and> is_terminal (noticeEvent env f))"
      by (rule stream_frame_ok [OF "1.prems"(2) fr])
    have input: "f @ rest = input"
      using read_frame_append [of REOF "[]" input f rest] Frame by (simp add: readNoticeFrame_def)
    show ?thesis
    proof (cases r)
      case Next
      have rest_run: "stream_loop env notice arm observing t REOF rest st1 = (st', Inr b)"
        using "1.prems"(1) Frame fr Next by (simp add: stream_loop.simps [of _ _ _ _ _ REOF input])
      obtain frames rest' where ih: "concat frames @ rest' = rest" "emitted_ok env notice ((done @ [f]) @ frames) st'"
        "rest' = [] \<or> frames \<noteq> [] \<and> is_terminal (noticeEvent env (last frames))"
        using "1.hyps" [OF Frame fr [symmetric] Next rest_run, of "done @ [f]"] step Next by auto
      then show ?thesis using input by (intro exI [of _ "f # frames"] exI [of _ rest']) auto
    next
      case (Done b')
      then have "st' = st1"
        using "1.prems"(1) Frame fr by (simp add: stream_loop.simps [of _ _ _ _ _ REOF input])
      then show ?thesis using step Done input by (intro exI [of _ "[f]"] exI [of _ rest]) auto
    next
      case (Failed e)
      then show ?thesis
        using "1.prems"(1) Frame fr by (simp add: stream_loop.simps [of _ _ _ _ _ REOF input])
    qed
  qed
qed


text \<open>A stream with one delta of an item that is not final, and the terminal event.\<close>

definition ex_env :: stream_env where
  "ex_env = \<lparr>env_parse = (\<lambda>text. if text = ''d'' then Some [(''type'', AStr ''response.output_text.delta''), (''delta'', AStr ''Hi'')]
        else if text = ''c'' then Some [(''type'', AStr ''response.completed'')] else None),
     env_marshal = (\<lambda>_. ''{}''), env_verb = (\<lambda>_. []), env_now = (\<lambda>_. 7), env_write = (\<lambda>_. True)\<rparr>"


definition ex_stream :: string where
  "ex_stream = ''data:d'' @ [LF, LF] @ ''data:c'' @ [LF, LF]"

lemma ex_frames:
  "readNoticeFrame REOF ex_stream = Frame (''data:d'' @ [LF, LF]) (''data:c'' @ [LF, LF])"
  "readNoticeFrame REOF (''data:c'' @ [LF, LF]) = Frame (''data:c'' @ [LF, LF]) []"
proof -
  have slice: "read_slice bufio_size ex_stream = Line (''data:d'' @ [LF]) ([LF] @ ''data:c'' @ [LF, LF])"
    "read_slice bufio_size ([LF] @ ''data:c'' @ [LF, LF]) = Line [LF] (''data:c'' @ [LF, LF])"
    "read_slice bufio_size (''data:c'' @ [LF, LF]) = Line (''data:c'' @ [LF]) [LF]"
    "read_slice bufio_size [LF] = Line [LF] []"
    by (simp_all add: read_slice_def bufio_size_def ex_stream_def LF_def Let_def)
  have short: "\<not> MaxRequest < length (''data:d'' @ [LF] @ [LF])" "\<not> MaxRequest < length (''data:d'' @ [LF])"
    "\<not> MaxRequest < length (''data:c'' @ [LF] @ [LF])" "\<not> MaxRequest < length (''data:c'' @ [LF])"
    by (simp_all add: MaxRequest_def)
  have more: "''data:d'' @ [LF] \<noteq> [LF]" "''data:d'' @ [LF] \<noteq> [CR, LF]" "''data:c'' @ [LF] \<noteq> [LF]" "''data:c'' @ [LF] \<noteq> [CR, LF]"
    by (simp_all add: LF_def)
  show "readNoticeFrame REOF ex_stream = Frame (''data:d'' @ [LF, LF]) (''data:c'' @ [LF, LF])"
    unfolding readNoticeFrame_def
    apply (subst read_frame.simps) using slice short more
    by (simp add: read_frame.simps [of REOF _ "LF # _"])
  show "readNoticeFrame REOF (''data:c'' @ [LF, LF]) = Frame (''data:c'' @ [LF, LF]) []"
    unfolding readNoticeFrame_def
    apply (subst read_frame.simps) using slice short more
    by (simp add: read_frame.simps [of REOF _ "[LF]"])
qed

lemma ex_trim: "TrimSpace ''d'' = ''d''" "TrimSpace ''c'' = ''c''" "TrimSpace [] = []"
  by (simp_all add: TrimSpace_def trim_left.simps [of "_ # _"] trim_left.simps [of "[]"]
      trim_right.simps [of "_ # _"] trim_right.simps [of "[]"]
      space_front_def space_back_def space_runes_def HasPrefix_def)

lemma ex_events:
  "noticeEvent ex_env (''data:d'' @ [LF, LF]) = [(''type'', AStr ''response.output_text.delta''), (''delta'', AStr ''Hi'')]"
  "noticeEvent ex_env (''data:c'' @ [LF, LF]) = [(''type'', AStr ''response.completed'')]"
  by (simp_all add: noticeEvent_def LF_def HasPrefix_def TrimPrefix_def ex_trim ex_env_def)

lemma ex_frame_results:
  "ss_final st = (\<lambda>_. False) \<Longrightarrow> ss_pendingID st = [] \<Longrightarrow>
   \<exists>st'. stream_frame ex_env ''n'' False False 5 (''data:d'' @ [LF, LF]) st = (st', Next)
     \<and> ss_written st' = ss_written st @ [event_text ex_env (put ''sequence_number'' (AInt (ss_sequence st + 1))
          (noticeEvent ex_env (''data:d'' @ [LF, LF])))]
     \<and> ss_final st' = (\<lambda>_. False) \<and> ss_pendingID st' = [] \<and> ss_inserted st' = ss_inserted st"
  "ss_final st = (\<lambda>_. False) \<Longrightarrow> ss_pendingID st = [] \<Longrightarrow>
   \<exists>st' c. stream_frame ex_env ''n'' False False 5 (''data:c'' @ [LF, LF]) st = (st', Done (ss_inserted st))
     \<and> ss_written st' = ss_written st @ [c]"
  unfolding stream_frame_def ex_events emit_def
  by (simp_all add: is_terminal_def note_message_def lookup_def rewrite_event_def event_id_def
      rewrite_response_def write_chunk_def ex_env_def result_of_def)

lemma ex_stream_run:
  "\<exists>st. streamNotice ex_env REOF ex_stream ''n'' 5 False False = (st, Inr False) \<and> length (ss_written st) = 2"
proof -
  obtain st1 where st1: "stream_frame ex_env ''n'' False False 5 (''data:d'' @ [LF, LF]) stream_init = (st1, Next)"
    "length (ss_written st1) = 1" "ss_final st1 = (\<lambda>_. False)" "ss_pendingID st1 = []" "ss_inserted st1 = False"
    using ex_frame_results(1) [of stream_init] by (auto simp: stream_init_def)
  obtain st2 where st2: "stream_frame ex_env ''n'' False False 5 (''data:c'' @ [LF, LF]) st1 = (st2, Done False)"
    "length (ss_written st2) = 2"
    using ex_frame_results(2) [of st1] st1 by auto
  have "stream_loop ex_env ''n'' False False 5 REOF (''data:c'' @ [LF, LF]) st1 = (st2, Inr False)"
    by (subst stream_loop.simps) (simp only: ex_frames st2 frame_read.case stream_result.case prod.case)
  then have "stream_loop ex_env ''n'' False False 5 REOF ex_stream stream_init = (st2, Inr False)"
    by (subst stream_loop.simps) (simp only: ex_frames st1 frame_read.case stream_result.case prod.case)
  then show ?thesis using st2(2) by (simp add: streamNotice_def)
qed



subsection \<open>The terminal event\<close>

lemma emit_observed: "emit env notice arm f st = (st', ok) \<Longrightarrow> ss_observed st' = ss_observed st"
  using rewrite_state_frame(5) [of notice arm "noticeEvent env f" st]
  by (auto simp: emit_def write_chunk_def Let_def split: prod.splits if_splits)

lemma emit_all_observed: "emit_all env notice arm fs st = (st', ok) \<Longrightarrow> ss_observed st' = ss_observed st"
proof (induction fs arbitrary: st)
  case (Cons f fs)
  obtain st1 b where e: "emit env notice arm f st = (st1, b)" by fastforce
  then show ?case
    using Cons emit_observed [OF e] by (cases b) auto
qed simp

lemma note_message_observed [simp]: "ss_observed (note_message e st) = ss_observed st"
  by (simp add: note_message_def Let_def)

lemma stream_frame_observed:
  assumes "stream_frame env notice arm True t frame st = (st', r)"
  shows "ss_observed st' = ss_observed st @ (if is_terminal (noticeEvent env frame)
      then [terminalResponse env (noticeEvent env frame) t (env_now env (length (ss_observed st)))] else [])"
    and "r = Next \<Longrightarrow> \<not> is_terminal (noticeEvent env frame)"
    and "r = Done b \<Longrightarrow> is_terminal (noticeEvent env frame)"
proof -
  define st1 where "st1 = before_frame env True t (noticeEvent env frame) st"
  have obs: "ss_observed st1 = ss_observed st @ (if is_terminal (noticeEvent env frame)
      then [terminalResponse env (noticeEvent env frame) t (env_now env (length (ss_observed st)))] else [])"
    by (simp add: st1_def before_frame_def)
  have "ss_observed st' = ss_observed st1 \<and> (r = Next \<longrightarrow> \<not> is_terminal (noticeEvent env frame))
      \<and> (r = Done b \<longrightarrow> is_terminal (noticeEvent env frame))"
    using assms unfolding stream_frame_def Let_def st1_def [unfolded before_frame_def, symmetric]
    by (auto simp: result_of_def st1_def [unfolded before_frame_def, simplified, symmetric]
        split: if_splits prod.splits dest!: emit_observed emit_all_observed)
  with obs show "ss_observed st' = ss_observed st @ (if is_terminal (noticeEvent env frame)
      then [terminalResponse env (noticeEvent env frame) t (env_now env (length (ss_observed st)))] else [])"
    and "r = Next \<Longrightarrow> \<not> is_terminal (noticeEvent env frame)"
    and "r = Done b \<Longrightarrow> is_terminal (noticeEvent env frame)"
    by auto
qed


definition observed_terminal :: "stream_env \<Rightarrow> int \<Rightarrow> string list \<Rightarrow> TerminalResponse list" where
  "observed_terminal env t frames =
     (if frames \<noteq> [] \<and> is_terminal (noticeEvent env (last frames))
      then [terminalResponse env (noticeEvent env (last frames)) t (env_now env 0)] else [])"

lemma stream_loop_observes:
  "stream_loop env notice arm True t end input st = (st', res) \<Longrightarrow> ss_observed st = [] \<Longrightarrow>
   \<exists>frames rest. concat frames @ rest = input
     \<and> (\<forall>f\<in>set (butlast frames). \<not> is_terminal (noticeEvent env f))
     \<and> ss_observed st' = observed_terminal env t frames
     \<and> (\<forall>b. res = Inr b \<longrightarrow> readNoticeFrame end rest = Stopped [] REOF \<or> observed_terminal env t frames \<noteq> [])"
proof (induction env notice arm True t "end" input st rule: stream_loop.induct)
  case (1 env notice arm t "end" input st)
  show ?case
  proof (cases "readNoticeFrame end input")
    case (Stopped f e)
    have "e = REOF \<Longrightarrow> f = []"
    proof -
      have "read_frame end frame s = Stopped f REOF \<Longrightarrow> f = []" for frame s
      proof (induction "end" frame s rule: read_frame.induct)
        case (1 "end" frame s)
        then show ?case
          by (subst (asm) (3) read_frame.simps) (auto simp: frame_limit_def split: slice.splits if_splits)
      qed
      then show "e = REOF \<Longrightarrow> f = []" using Stopped by (simp add: readNoticeFrame_def)
    qed
    then show ?thesis
      using "1.prems" Stopped
      by (intro exI [of _ "[]"] exI [of _ input])
        (auto simp: stream_loop.simps [of _ _ _ _ _ _ input] observed_terminal_def split: read_end.splits if_splits)
  next
    case (Frame f rest)
    obtain st1 r where fr: "stream_frame env notice arm True t f st = (st1, r)" by fastforce
    note ob = stream_frame_observed [OF fr]
    have input: "f @ rest = input"
      using read_frame_append [of "end" "[]" input f rest] Frame by (simp add: readNoticeFrame_def)
    show ?thesis
    proof (cases r)
      case Next
      then have not: "\<not> is_terminal (noticeEvent env f)" "ss_observed st1 = []"
        using ob(1,2) "1.prems"(2) by auto
      have run: "stream_loop env notice arm True t end rest st1 = (st', res)"
        using "1.prems"(1) Frame fr Next by (simp add: stream_loop.simps [of _ _ _ _ _ _ input])
      obtain frames rest' where ih: "concat frames @ rest' = rest"
        "\<forall>f\<in>set (butlast frames). \<not> is_terminal (noticeEvent env f)"
        "ss_observed st' = observed_terminal env t frames"
        "\<forall>b. res = Inr b \<longrightarrow> readNoticeFrame end rest' = Stopped [] REOF \<or> observed_terminal env t frames \<noteq> []"
        using "1.hyps" [OF Frame fr [symmetric] Next run not(2)] by blast
      have "observed_terminal env t (f # frames) = observed_terminal env t frames"
        using not(1) by (simp add: observed_terminal_def)
      then show ?thesis
        using input ih not(1) by (intro exI [of _ "f # frames"] exI [of _ rest']) auto
    next
      case (Done b)
      then have "st' = st1"
        using "1.prems"(1) Frame fr by (simp add: stream_loop.simps [of _ _ _ _ _ _ input])
      then show ?thesis
        using ob(1,3) Done input "1.prems"(2)
        by (intro exI [of _ "[f]"] exI [of _ rest]) (simp add: observed_terminal_def)
    next
      case (Failed e)
      then have "st' = st1" "res = Inl e"
        using "1.prems"(1) Frame fr by (simp_all add: stream_loop.simps [of _ _ _ _ _ _ input])
      then show ?thesis
        using ob(1) input "1.prems"(2)
        by (intro exI [of _ "[f]"] exI [of _ rest]) (simp add: observed_terminal_def)
    qed
  qed
qed

text \<open>
  The end of a response is observed once, whatever becomes of the client. For every stream,
  every reading error and every failing write, the observer has been called exactly with the
  last frame read when that frame was a terminal event, with the event as the upstream sent
  it and not as it was rewritten, and has not been called otherwise; a stream that ends well
  without a terminal event was read to its end.
\<close>

theorem streamNotice_observes_once:
  assumes "streamNotice env end input notice firstEventAtMS True arm = (st, res)"
  shows "\<exists>frames rest. concat frames @ rest = input
     \<and> (\<forall>f\<in>set (butlast frames). \<not> is_terminal (noticeEvent env f))
     \<and> ss_observed st =
         (if frames \<noteq> [] \<and> is_terminal (noticeEvent env (last frames))
          then [terminalResponse env (noticeEvent env (last frames)) firstEventAtMS (env_now env 0)] else [])
     \<and> (\<forall>b. res = Inr b \<longrightarrow> readNoticeFrame end rest = Stopped [] REOF \<or> ss_observed st \<noteq> [])"
proof -
  have "ss_observed stream_init = []" by (simp add: stream_init_def)
  from stream_loop_observes [OF assms [unfolded streamNotice_def] this] obtain frames rest where
    "concat frames @ rest = input" "\<forall>f\<in>set (butlast frames). \<not> is_terminal (noticeEvent env f)"
    "ss_observed st = observed_terminal env firstEventAtMS frames"
    "\<forall>b. res = Inr b \<longrightarrow> readNoticeFrame end rest = Stopped [] REOF \<or> observed_terminal env firstEventAtMS frames \<noteq> []"
    by blast
  then show ?thesis unfolding observed_terminal_def by (intro exI [of _ frames] exI [of _ rest]) presburger
qed

lemma streamNotice_observes_once_witness:
  "length (ss_observed (fst (streamNotice (ex_env\<lparr>env_write := \<lambda>_. False\<rparr>) REOF ex_stream ''n'' 5 True False))) \<le> 1"
proof -
  obtain st res where run: "streamNotice (ex_env\<lparr>env_write := \<lambda>_. False\<rparr>) REOF ex_stream ''n'' 5 True False = (st, res)"
    by fastforce
  show ?thesis using streamNotice_observes_once [OF run] run by auto
qed

subsection \<open>Native compaction\<close>

text \<open>
  An armed response reports to the client a usage that makes it compact its history: the
  input tokens are a million and the total is their sum with the output tokens of the
  response, which are never negative; arming is counted once per completed event.
\<close>

theorem armed_usage_is_consistent:
  assumes "lookup event ''type'' = AStr ''response.completed''" and "lookup event ''response'' = AMap response"
  shows "\<exists>usage n. lookup (as_map (lookup (fst (rewrite_event notice True event st)) ''response'')) ''usage'' = AMap usage
    \<and> lookup usage ''input_tokens'' = AInt 1000000
    \<and> lookup usage ''output_tokens'' = AInt n \<and> 0 \<le> n
    \<and> (n < 2 ^ 62 \<longrightarrow> lookup usage ''total_tokens'' = AInt (1000000 + n))
    \<and> ss_armed (snd (rewrite_event notice True event st)) = ss_armed st + 1"
proof -
  define st1 where "st1 = st\<lparr>ss_sequence := ss_sequence st + 1\<rparr>"
  define e1 where "e1 = put ''sequence_number'' (AInt (ss_sequence st + 1)) event"
  define p where "p = (if ss_final st1 (event_id e1) then rewrite_final notice (event_id e1) st1 e1 else (e1, st1))"
  have r: "rewrite_event notice True event st = rewrite_response notice True (snd p) (fst p)"
    by (simp add: rewrite_event_def st1_def e1_def p_def Let_def split: prod.split)
  have p1: "lookup (fst p) ''type'' = AStr ''response.completed''" "lookup (fst p) ''response'' = AMap response"
    using assms by (simp_all add: p_def rewrite_final_kept(1) e1_def)
  have p2: "ss_armed (snd p) = ss_armed st"
    by (simp add: p_def rewrite_final_def st1_def Let_def split: prod.split)
  obtain response' where "lookup (as_map (lookup (fst (rewrite_response notice True (snd p) (fst p))) ''response'')) ''usage''
      = lookup (arm_compaction response') ''usage''"
    "ss_armed (snd (rewrite_response notice True (snd p) (fst p))) = ss_armed st + 1"
    using p1 p2 by (fastforce simp: rewrite_response_def Let_def split: prod.splits)
  moreover define n where
    "n = (case tokenCount (lookup (as_map (lookup response' ''usage'')) ''output_tokens'') of None \<Rightarrow> 0 | Some v \<Rightarrow> v)"
  have "0 \<le> n" by (auto simp: n_def tokenCount_def split: any.splits option.splits if_splits)
  moreover have "w64 (1000000 + n) = 1000000 + n" if "n < 2 ^ 62"
    using that \<open>0 \<le> n\<close> by (intro w64_id) (simp add: i64_def)
  ultimately show ?thesis
    unfolding r by (simp add: arm_compaction_def n_def [symmetric] NativeCompactionInputTokens_def Let_def)
qed

lemma armed_usage_is_consistent_witness:
  "\<exists>usage n. lookup (as_map (lookup (fst (rewrite_event ''n'' True
       [(''type'', AStr ''response.completed''), (''response'', AMap [])] stream_init)) ''response'')) ''usage'' = AMap usage
    \<and> lookup usage ''output_tokens'' = AInt n \<and> 0 \<le> n"
proof -
  have "lookup [(''type'', AStr ''response.completed''), (''response'', AMap [])] ''type'' = AStr ''response.completed''"
    "lookup [(''type'', AStr ''response.completed''), (''response'', AMap [])] ''response'' = AMap []"
    by (simp_all add: lookup_def)
  from armed_usage_is_consistent [OF this, of "''n''" stream_init] show ?thesis by (elim exE conjE) (intro exI conjI)
qed

end
