(* ===== verification/Transport.thy ===== *)
theory Transport
  imports Notice_Correct
begin

text \<open>
  internal/responsesproxy/transport.go and \<open>CopyNoticeResponse\<close>: the headers that pass the
  proxy in both directions, how a failed response is classified, and whether a response is an
  event stream.

  A header map is an association list from canonical names to values. A response body is the
  bytes that can be read and how reading ends. A handler that panics to abort the connection
  is \<open>rp_aborted\<close>.
\<close>

type_synonym http_header = "(string \<times> string list) list"

record http_response =
  rs_status :: int
  rs_header :: http_header
  rs_body :: string
  rs_end :: read_end

definition BackendURL :: string where "BackendURL = ''https://chatgpt.com/backend-api''"
definition UpstreamURL :: string where "UpstreamURL = BackendURL @ ''/codex''"
definition ThreadIDHeader :: string where "ThreadIDHeader = ''X-Codex-Broker-Thread-ID''"
definition TurnIDHeader :: string where "TurnIDHeader = ''X-Codex-Broker-Turn-ID''"

subsection \<open>Headers\<close>

text \<open>\<open>http.CanonicalHeaderKey\<close>: a name with a byte that is not allowed stays as it is.\<close>

definition is_letter :: "char \<Rightarrow> bool" where
  "is_letter c \<longleftrightarrow> in_range 65 90 (byte c) \<or> in_range 97 122 (byte c)"

definition token_char :: "char \<Rightarrow> bool" where
  "token_char c \<longleftrightarrow> is_letter c \<or> in_range 48 57 (byte c)
     \<or> c \<in> {CHR ''!'', CHR ''#'', CHR ''$'', CHR ''%'', CHR ''&'', CHR 0x27, CHR ''*'', CHR ''+'', CHR ''-'',
            CHR ''.'', CHR ''^'', CHR ''_'', CHR 0x60, CHR ''|'', CHR ''~''}"

definition upper_char :: "char \<Rightarrow> char" where
  "upper_char c = fold_char c"

fun canonical_chars :: "bool \<Rightarrow> string \<Rightarrow> string" where
  "canonical_chars up [] = []"
| "canonical_chars up (c # cs) = (if up then upper_char c else lower_char c) # canonical_chars (c = CHR ''-'') cs"

definition CanonicalHeaderKey :: "string \<Rightarrow> string" where
  "CanonicalHeaderKey name = (if list_all token_char name then canonical_chars True name else name)"

definition hop_headers :: "string list" where
  "hop_headers = [''connection'', ''keep-alive'', ''proxy-authenticate'', ''proxy-authorization'', ''te'', ''trailer'',
     ''transfer-encoding'', ''upgrade'', ''authorization'', ''chatgpt-account-id'', ''cookie'', ''set-cookie'',
     ''x-api-key'', ''api-key'', ''forwarded'', ''x-forwarded-for'', ''x-forwarded-host'', ''x-forwarded-proto'',
     ToLower ThreadIDHeader, ToLower TurnIDHeader]"

definition header_values :: "http_header \<Rightarrow> string \<Rightarrow> string list" where
  "header_values h name = (case map_of h (CanonicalHeaderKey name) of None \<Rightarrow> [] | Some vs \<Rightarrow> vs)"

definition header_get :: "http_header \<Rightarrow> string \<Rightarrow> string" where
  "header_get h name = (case header_values h name of [] \<Rightarrow> [] | v # _ \<Rightarrow> v)"

definition header_set :: "string \<Rightarrow> string \<Rightarrow> http_header \<Rightarrow> http_header" where
  "header_set name v h = AList.update (CanonicalHeaderKey name) [v] h"

definition connection_names :: "http_header \<Rightarrow> string list" where
  "connection_names source =
     concat (map (\<lambda>v. map (\<lambda>name. ToLower (TrimSpace name)) (split_on CHR '','' v)) (header_values source ''Connection''))"

definition passes :: "http_header \<Rightarrow> string \<Rightarrow> bool" where
  "passes source name \<longleftrightarrow> ToLower name \<notin> set (connection_names source) \<and> ToLower name \<notin> set hop_headers"

definition CopyHeaders :: "http_header \<Rightarrow> http_header \<Rightarrow> http_header" where
  "CopyHeaders destination source =
     fold (\<lambda>(name, vs) dest. if passes source name then AList.update (CanonicalHeaderKey name) vs dest else dest)
       source destination"

text \<open>The headers of the request \<open>forward\<close> sends upstream.\<close>

definition forward_header :: "http_header \<Rightarrow> string \<Rightarrow> string \<Rightarrow> http_header" where
  "forward_header source token accountID =
     (let h = CopyHeaders [] source;
          h = header_set ''Authorization'' (''Bearer '' @ token) h;
          h = header_set ''ChatGPT-Account-ID'' accountID h
      in if header_get h ''Originator'' = [] then header_set ''Originator'' ''codex_cli_rs'' h else h)"

subsection \<open>Failures\<close>

definition FailureKind_of :: "int \<Rightarrow> string" where
  "FailureKind_of status = (if status = 401 \<or> status = 403 then ''auth'' else if status = 429 then ''quota'' else [])"

definition inspect_limit :: nat where "inspect_limit = 64 * 2 ^ 10"

text \<open>
  Reading the front of the body reports an error only when the body breaks off before the
  limit. The second result is the response with the body restored.
\<close>

definition ResponseFailureKind :: "stream_env \<Rightarrow> http_response \<Rightarrow> string \<times> http_response" where
  "ResponseFailureKind env response =
     (let status = rs_status response in
      if 200 \<le> status \<and> status < 300 then ([], response)
      else if status = 429 then (''quota'', response)
      else
        (let body = take inspect_limit (rs_body response); rest = drop inspect_limit (rs_body response);
             failed = (length (rs_body response) < inspect_limit \<and> rs_end response \<noteq> REOF);
             restored = response\<lparr>rs_body := body @ rest\<rparr>;
             kind = (if failed then None else
                     case env_parse env body of
                       None \<Rightarrow> None
                     | Some envelope \<Rightarrow>
                         if terminalFailureKind env (lookup envelope ''error'') = ''quota''
                            \<or> terminalFailureKind env (lookup envelope ''detail'') = ''quota''
                         then Some ''quota'' else None)
         in (case kind of Some k \<Rightarrow> k | None \<Rightarrow> FailureKind_of status, restored)))"

subsection \<open>Answering the client\<close>

record http_reply =
  rp_status :: int
  rp_header :: http_header
  rp_chunks :: "string list"
  rp_aborted :: bool

text \<open>\<open>CopyResponse\<close> in a connection whose writes succeed.\<close>

definition CopyResponse :: "http_header \<Rightarrow> http_response \<Rightarrow> http_reply" where
  "CopyResponse header response =
     \<lparr>rp_status = rs_status response,
      rp_header = header_set ''Cache-Control'' ''no-store, max-age=0'' (CopyHeaders header (rs_header response)),
      rp_chunks = [rs_body response], rp_aborted = (rs_end response \<noteq> REOF)\<rparr>"

datatype sniffed = NotSSE string | IsSSE string | SniffFailed string

definition is_event_kind :: "string \<Rightarrow> bool" where
  "is_event_kind kind \<longleftrightarrow> HasPrefix kind ''response.'' \<or> kind = ''error''"

definition comment_or_blank :: "string \<Rightarrow> bool" where
  "comment_or_blank frame \<longleftrightarrow> TrimSpace frame = [] \<or> HasPrefix (TrimSpace frame) '':''"

text \<open>
  Looking for the first event: the frames read so far are \<open>pre\<close>. The result holds the bytes
  that are replayed.
\<close>

function sniff :: "stream_env \<Rightarrow> read_end \<Rightarrow> string \<Rightarrow> string \<Rightarrow> sniffed" where
  "sniff env end pre input =
     (case readNoticeFrame end input of
        Stopped frame e \<Rightarrow>
          (if MaxRequest < length (pre @ frame) then SniffFailed ''response event exceeds limit''
           else if e \<noteq> REOF then SniffFailed ''read''
           else if is_event_kind (as_string (lookup (noticeEvent env frame) ''type'')) then IsSSE (pre @ frame)
           else NotSSE (pre @ frame))
      | Frame frame rest \<Rightarrow>
          (if MaxRequest < length (pre @ frame) then SniffFailed ''response event exceeds limit''
           else if is_event_kind (as_string (lookup (noticeEvent env frame) ''type'')) then IsSSE (pre @ frame @ rest)
           else if \<not> comment_or_blank frame then NotSSE (pre @ frame @ rest)
           else sniff env end (pre @ frame) rest))"
  by pat_completeness auto
termination
  by (relation "measure (\<lambda>(_, _, _, input). length input)") (auto dest: readNoticeFrame_shorter)

declare sniff.simps [simp del]

datatype copied =
    Passed http_reply
  | Streamed http_reply stream_state bool
  | CopyFailed string

text \<open>
  \<open>CopyNoticeResponse\<close>: an event stream gets the notice, any other response passes as it is; an
  error before the headers are written is the caller's to answer, after that the connection
  is aborted.
\<close>

definition CopyNoticeResponse :: "stream_env \<Rightarrow> (string \<Rightarrow> int option) \<Rightarrow> http_header \<Rightarrow> http_response \<Rightarrow> Notice
    \<Rightarrow> int \<Rightarrow> int \<Rightarrow> bool \<Rightarrow> bool \<Rightarrow> copied" where
  "CopyNoticeResponse env parse_time header response notice now firstEventAtMS observing arm =
     (case sniff env (rs_end response) [] (rs_body response) of
        SniffFailed e \<Rightarrow> CopyFailed e
      | NotSSE body \<Rightarrow> Passed (CopyResponse header (response\<lparr>rs_body := body\<rparr>))
      | IsSSE body \<Rightarrow>
          (let h = CopyHeaders header (rs_header response);
               h = AList.delete ''Content-Length'' h;
               h = header_set ''Content-Type'' ''text/event-stream'' h;
               (st, res) = streamNotice env (rs_end response) body (AccountNoticeAt parse_time notice now)
                             firstEventAtMS observing arm
           in Streamed \<lparr>rp_status = rs_status response, rp_header = h, rp_chunks = ss_written st,
                        rp_aborted = (case res of Inl _ \<Rightarrow> True | Inr _ \<Rightarrow> False)\<rparr>
                st (case res of Inl _ \<Rightarrow> False | Inr inserted \<Rightarrow> inserted)))"

subsection \<open>Credentials do not pass\<close>

lemma copied_header_passes:
  "(k, vs) \<in> set (CopyHeaders dest source) \<Longrightarrow> (k, vs) \<notin> set dest \<Longrightarrow>
   \<exists>name. (name, vs) \<in> set source \<and> passes source name \<and> k = CanonicalHeaderKey name"
proof -
  have "(k, vs) \<in> set (fold (\<lambda>(name, vs) dest. if passes source name
            then AList.update (CanonicalHeaderKey name) vs dest else dest) xs dest) \<Longrightarrow>
        (k, vs) \<notin> set dest \<Longrightarrow>
        \<exists>name. (name, vs) \<in> set xs \<and> passes source name \<and> k = CanonicalHeaderKey name" for xs
  proof (induction xs arbitrary: dest)
    case (Cons x xs)
    obtain name ws where x: "x = (name, ws)" by fastforce
    show ?case
    proof (cases "passes source name \<and> (k, vs) \<in> set (AList.update (CanonicalHeaderKey name) ws dest)")
      case True
      then have "k = CanonicalHeaderKey name \<and> vs = ws"
        using Cons.prems(2) by (induction dest) (auto split: if_splits)
      then show ?thesis using True x by auto
    next
      case False
      then show ?thesis using Cons x by (auto split: if_splits)
    qed
  qed simp
  then show "(k, vs) \<in> set (CopyHeaders dest source) \<Longrightarrow> (k, vs) \<notin> set dest \<Longrightarrow> ?thesis"
    unfolding CopyHeaders_def by blast
qed


lemma char_of_byte [simp]: "char_of (byte c) = c"
  by (simp add: byte_def)

lemma byte_char_of: "n < 256 \<Longrightarrow> byte (char_of n) = n"
  by (simp add: byte_def)

lemma lower_upper [simp]: "lower_char (upper_char c) = lower_char c"
  by (auto simp: lower_char_def upper_char_def fold_char_def in_range_def byte_char_of)

lemma lower_lower [simp]: "lower_char (lower_char c) = lower_char c"
  by (auto simp: lower_char_def in_range_def byte_char_of)

lemma token_char_ascii: "token_char c \<Longrightarrow> byte c < 128"
  by (auto simp: token_char_def is_letter_def in_range_def byte_def)

lemma lower_char_ascii: "byte c < 128 \<Longrightarrow> byte (lower_char c) < 128"
  by (auto simp: lower_char_def in_range_def byte_char_of)

lemma upper_char_ascii: "byte c < 128 \<Longrightarrow> byte (upper_char c) < 128"
  by (auto simp: upper_char_def fold_char_def in_range_def byte_char_of)

lemma ToLower_ascii: "\<forall>c\<in>set s. byte c < 128 \<Longrightarrow> ToLower s = map lower_char s"
  by (induction s rule: ToLower.induct) (auto simp: byte_def)

lemma canonical_chars_ascii: "\<forall>c\<in>set s. byte c < 128 \<Longrightarrow> \<forall>c\<in>set (canonical_chars b s). byte c < 128"
  by (induction b s rule: canonical_chars.induct) (auto simp: lower_char_ascii upper_char_ascii)

lemma map_lower_canonical: "map lower_char (canonical_chars b s) = map lower_char s"
  by (induction b s rule: canonical_chars.induct) auto

lemma ToLower_canonical [simp]: "ToLower (CanonicalHeaderKey name) = ToLower name"
proof (cases "list_all token_char name")
  case True
  then have a: "\<forall>c\<in>set name. byte c < 128" by (auto simp: list_all_iff token_char_ascii)
  then show ?thesis
    using canonical_chars_ascii [OF a, of True]
    by (simp add: CanonicalHeaderKey_def ToLower_ascii map_lower_canonical)
qed (simp add: CanonicalHeaderKey_def)

lemma CopyHeaders_hides: "(k, vs) \<in> set (CopyHeaders [] source) \<Longrightarrow> ToLower k \<notin> set hop_headers"
  using copied_header_passes [of k vs "[]" source] by (auto simp: passes_def)

lemma header_set_mem:
  "(k, vs) \<in> set (header_set name v h) \<Longrightarrow> k = CanonicalHeaderKey name \<and> vs = [v] \<or> (k, vs) \<in> set h"
  unfolding header_set_def by (induction h) (auto split: if_splits)

lemma canonical_names:
  "CanonicalHeaderKey ''Authorization'' = ''Authorization''"
  "CanonicalHeaderKey ''ChatGPT-Account-ID'' = ''Chatgpt-Account-Id''"
  "CanonicalHeaderKey ''Originator'' = ''Originator''"
  by (simp_all add: CanonicalHeaderKey_def token_char_def is_letter_def in_range_def byte_def upper_char_def
      lower_char_def fold_char_def char_of_def bit_Suc_0_iff)




subsection \<open>Responses that are not event streams\<close>

lemma Stopped_at_end: "readNoticeFrame end s = Stopped f REOF \<Longrightarrow> s = [] \<and> f = []"
proof -
  have "read_frame end frame s = Stopped f REOF \<Longrightarrow> s = [] \<and> frame = [] \<and> f = []" for frame
  proof (induction "end" frame s rule: read_frame.induct)
    case (1 "end" frame s)
    then show ?case
      by (subst (asm) (3) read_frame.simps)
        (auto simp: frame_limit_def read_slice_def Let_def split: slice.splits if_splits)
  qed
  then show "readNoticeFrame end s = Stopped f REOF \<Longrightarrow> ?thesis" unfolding readNoticeFrame_def by blast
qed

lemma sniff_replays:
  "sniff env end pre input = NotSSE body \<or> sniff env end pre input = IsSSE body \<Longrightarrow> body = pre @ input"
proof (induction env "end" pre input rule: sniff.induct)
  case (1 env "end" pre input)
  show ?case
  proof (cases "readNoticeFrame end input")
    case (Stopped frame e)
    then show ?thesis
      using "1.prems" Stopped_at_end [of "end" input frame]
      by (auto simp: sniff.simps [of env "end" pre input] split: if_splits)
  next
    case (Frame frame rest)
    then have "frame @ rest = input"
      using read_frame_append [of "end" "[]" input frame rest] by (simp add: readNoticeFrame_def)
    then show ?thesis
      using "1.prems" "1.IH" [OF Frame] Frame
      by (auto simp: sniff.simps [of env "end" pre input] split: if_splits)
  qed
qed

text \<open>
  A response that turns out not to be an event stream reaches the client as the upstream
  sent it: the bytes read while looking for the first event are replayed in front of the rest,
  the status is the same, the answer is never cached, and the connection is aborted exactly
  when the upstream's body breaks off.
\<close>

theorem non_stream_passes_unchanged:
  assumes "CopyNoticeResponse env parse_time header response notice now first observing arm = Passed reply"
  shows "rp_chunks reply = [rs_body response] \<and> rp_status reply = rs_status response
    \<and> rp_aborted reply = (rs_end response \<noteq> REOF)
    \<and> header_values (rp_header reply) ''Cache-Control'' = [''no-store, max-age=0'']"
proof -
  obtain body where body: "sniff env (rs_end response) [] (rs_body response) = NotSSE body"
    "reply = CopyResponse header (response\<lparr>rs_body := body\<rparr>)"
    using assms by (auto simp: CopyNoticeResponse_def Let_def split: sniffed.splits prod.splits)
  have "body = rs_body response" using sniff_replays body(1) by fastforce
  then show ?thesis
    using body(2) by (simp add: CopyResponse_def header_values_def header_set_def update_conv)
qed

definition ex_plain :: http_response where
  "ex_plain = \<lparr>rs_status = 200, rs_header = [], rs_body = ''ok'', rs_end = REOF\<rparr>"

lemma ex_plain_frame: "readNoticeFrame REOF ''ok'' = Frame ''ok'' []"
  unfolding readNoticeFrame_def
  by (subst read_frame.simps) (simp add: read_slice_def bufio_size_def LF_def MaxRequest_def Let_def)

lemma ex_plain_trim: "TrimSpace ''ok'' = ''ok''"
  by (simp add: TrimSpace_def trim_left.simps [of "_ # _"] trim_right.simps [of "_ # _"]
      space_front_def space_back_def space_runes_def HasPrefix_def)

lemma non_stream_passes_unchanged_witness:
  "\<exists>reply. CopyNoticeResponse ex_env (\<lambda>_. None) [] ex_plain \<lparr>no_AccountID = [], no_AccountLabel = [],
       no_ShortRemainingPercent = None, no_WeeklyRemainingPercent = None, no_ShortResetsAt = [],
       no_WeeklyResetsAt = [], no_Status = []\<rparr> 0 0 True False = Passed reply \<and> rp_chunks reply = [''ok'']"
proof -
  have "noticeEvent ex_env ''ok'' = []"
    by (simp add: noticeEvent_def LF_def HasPrefix_def ex_env_def)
  then have "sniff ex_env REOF [] ''ok'' = NotSSE ''ok''"
    by (subst sniff.simps)
      (simp add: ex_plain_frame MaxRequest_def lookup_def as_string_def is_event_kind_def HasPrefix_def
        comment_or_blank_def ex_plain_trim)
  then obtain reply where r: "CopyNoticeResponse ex_env (\<lambda>_. None) [] ex_plain \<lparr>no_AccountID = [], no_AccountLabel = [],
       no_ShortRemainingPercent = None, no_WeeklyRemainingPercent = None, no_ShortResetsAt = [],
       no_WeeklyResetsAt = [], no_Status = []\<rparr> 0 0 True False = Passed reply"
    by (simp add: CopyNoticeResponse_def ex_plain_def)
  then show ?thesis using non_stream_passes_unchanged [OF r] by (simp add: ex_plain_def)
qed

end
