(* ===== verification/Gateway_Types.thy ===== *)
theory Gateway_Types
  imports Prelude
begin

text \<open>
  The values exchanged between the gateway, the broker and the relay edge
  (internal/gateway/engine.go and internal/relayprotocol/protocol.go), and the ordering of
  leases both routers use. Times are milliseconds; an optional integer is a \<open>*int64\<close>.
\<close>

record Client =
  cl_ID :: string
  cl_Name :: string
  cl_Prefix :: string
  cl_StreamerMode :: bool

record RouteRequest =
  SessionID :: string
  TurnID :: string
  PreferredAccountID :: string
  FailedAccountID :: string
  FailureKind :: string

record Lease =
  AccountID :: string
  AccountLabel :: string
  AccessToken :: string
  ChatGPTAccountID :: string
  ExpiresAtMS :: int
  UsageSnapshotAtMS :: int
  ShortRemainingPercent :: nullint
  WeeklyRemainingPercent :: nullint
  ShortResetsAtMS :: nullint
  WeeklyResetsAtMS :: nullint
  Reserve :: bool
  PermitEpoch :: string
  PermitExpiresAtMS :: int

record PoolWait =
  NextRetryAtMS :: int
  RetryAfterSeconds :: int

text \<open>
  The telemetry of one response; the tokens are \<open>*int64\<close> and \<open>UsageJSON\<close> is the text of
  the usage object.
\<close>

record Observation =
  ob_RequestID :: string
  ob_AccountID :: string
  ob_ClientID :: string
  ob_ThreadID :: string
  ob_TurnID :: string
  ob_Endpoint :: string
  ob_RequestModel :: string
  ob_ReasoningEffort :: string
  ob_RequestServiceTier :: string
  ob_PreviousResponseID :: string
  ob_ResponseID :: string
  ob_ResponseModel :: string
  ob_ResponseServiceTier :: string
  ob_TerminalStatus :: string
  ob_UpstreamAttempts :: int
  ob_UpstreamHTTPStatus :: int
  ob_RequestStartedAtMS :: int
  ob_UpstreamStartedAtMS :: int
  ob_ResponseHeadersAtMS :: int
  ob_FirstResponseEventAtMS :: int
  ob_TerminalEventAtMS :: int
  ob_InputTokens :: nullint
  ob_CachedInputTokens :: nullint
  ob_OutputTokens :: nullint
  ob_ReasoningTokens :: nullint
  ob_TotalTokens :: nullint
  ob_UsageJSON :: string

text \<open>An answer of Route: an error, or a lease or a wait (either may be nil).\<close>

type_synonym route_answer = "go_error + (Lease option \<times> PoolWait option)"

subsection \<open>The relay protocol\<close>

definition Version :: int where "Version = 5"

record relay_client =
  rc_ID :: string
  rc_Name :: string
  rc_Prefix :: string
  rc_Digest :: string
  rc_Restricted :: bool
  rc_StreamerMode :: bool
  rc_AllowedAccountIDs :: "string list"

text \<open>
  relayprotocol.Lease embeds a gateway.Lease; its own Reserve and permit fields shadow the
  embedded ones, which JSON does not carry.
\<close>

record relay_lease =
  rl_Lease :: Lease
  rl_CycleState :: string
  rl_CreatedAtMS :: int
  rl_Reserve :: bool
  rl_PermitEpoch :: string
  rl_PermitExpiresAtMS :: int

record Snapshot =
  sn_ProtocolVersion :: int
  sn_SnapshotID :: string
  sn_RelayID :: string
  sn_PoolEpoch :: string
  sn_GeneratedAtMS :: int
  sn_Clients :: "relay_client list"
  sn_Leases :: "relay_lease list"

record relay_event =
  re_ID :: string
  re_RelayID :: string
  re_Kind :: string
  re_AccountID :: string
  re_ClientID :: string
  re_FailureKind :: string
  re_PermitEpoch :: string
  re_OccurredAtMS :: int
  re_Observation :: "Observation option"

record Heartbeat =
  hb_RelayID :: string
  hb_SnapshotID :: string
  hb_ProtocolVersion :: int
  hb_CacheGeneratedAtMS :: int
  hb_Ready :: bool

abbreviation rl_AccountID :: "relay_lease \<Rightarrow> string" where
  "rl_AccountID item \<equiv> AccountID (rl_Lease item)"

subsection \<open>Times\<close>

text \<open>
  \<open>int(math.Ceil(float64(ms) / 1000))\<close>. The float computation is exact below \<open>2^52\<close>
  milliseconds.
\<close>

definition ceil_seconds :: "int \<Rightarrow> int" where
  "ceil_seconds ms = - ((- ms) div 1000)"

lemma ceil_seconds_pos: "0 < ms \<Longrightarrow> 0 < ceil_seconds ms \<and> ms \<le> 1000 * ceil_seconds ms
    \<and> 1000 * ceil_seconds ms < ms + 1000"
  unfolding ceil_seconds_def by linarith

definition ms_per_minute :: int where "ms_per_minute = 60000"

text \<open>The rank of an optional reset time: a reset that is not in the future ranks last.\<close>

definition resetRank :: "nullint \<Rightarrow> int \<Rightarrow> int" where
  "resetRank t now = (case t of Some x \<Rightarrow> if now < x then x else MaxInt64 | None \<Rightarrow> MaxInt64)"

end
