(* ===== verification/Gateway.thy ===== *)
theory Gateway
  imports Transport Scrub Gateway_Types
begin

text \<open>
  internal/gateway/engine.go and health.go: serving one proxied request.

  \<open>prepare_request\<close> authenticates, checks and shrinks the request; \<open>serve_step\<close> is one turn
  of the routing loop: ask the authority for a lease, forward the request, and answer the
  client or try again after an authentication or quota failure; \<open>serve_loop\<close> runs the loop
  with fuel, and \<open>Serve\<close> is the handler. The Go interface \<open>Authority\<close> is the record
  \<open>authority\<close> of its methods over a state \<open>'a\<close>; the broker and the relay edge provide it.

  The upstream, the clocks, the identifiers and the JSON library are fields of \<open>engine_env\<close>;
  the i-th upstream call reads the i-th entry. The metrics, the log, the gate that serialises
  large requests and the cancellation of a request are not modelled.
\<close>

record 'a authority =
  au_Authenticate :: "string \<Rightarrow> 'a \<Rightarrow> go_error + Client"
  au_Route :: "string \<Rightarrow> RouteRequest \<Rightarrow> 'a \<Rightarrow> 'a \<times> route_answer"
  au_Observe :: "Observation \<Rightarrow> 'a \<Rightarrow> 'a \<times> go_error option"
  au_ReportFailure :: "string \<Rightarrow> string \<Rightarrow> string \<Rightarrow> 'a \<Rightarrow> 'a \<times> go_error option"
  au_Activate :: "Lease \<Rightarrow> 'a \<Rightarrow> 'a \<times> go_error option"

record http_request =
  rq_path :: string
  rq_query :: string
  rq_header :: http_header
  rq_contentLength :: int
  rq_body :: string
  rq_end :: read_end

record engine_env =
  en_stream :: stream_env
  en_json :: json_env
  en_parse_time :: "string \<Rightarrow> int option"
  en_iso_time :: "int \<Rightarrow> string"
  en_policy :: ScrubPolicy
  en_newID :: "nat \<Rightarrow> string"
  en_started :: int
  en_upstream_at :: "nat \<Rightarrow> int"
  en_headers_at :: "nat \<Rightarrow> int"
  en_first_event :: int
  en_now :: int
  en_forward :: "nat \<Rightarrow> string \<Rightarrow> http_header \<Rightarrow> string \<Rightarrow> go_error + http_response"
  en_timeout :: "go_error \<Rightarrow> bool"
  en_idle :: "go_error \<Rightarrow> bool"

subsection \<open>Readiness\<close>

definition readinessCooldown :: int where "readinessCooldown = 30 * 10 ^ 9"

text \<open>Whether the process is ready, and \<open>unreadyUntil\<close> afterwards; 0 stands for ready.\<close>

definition engine_Ready :: "int \<Rightarrow> int \<Rightarrow> bool \<times> int" where
  "engine_Ready now until = (if until = 0 then (True, 0) else if now < until then (False, until) else (True, 0))"

definition engine_failure :: "(go_error \<Rightarrow> bool) \<Rightarrow> int \<Rightarrow> go_error \<Rightarrow> int \<Rightarrow> int" where
  "engine_failure stalled now e until = (if stalled e then now + readinessCooldown else until)"

subsection \<open>Small helpers\<close>

definition bearer :: "http_header \<Rightarrow> string" where
  "bearer h =
     (case Cut (header_get h ''Authorization'') '' '' of
        None \<Rightarrow> []
      | Some (scheme, token) \<Rightarrow> if EqualFold scheme ''bearer'' then token else [])"

definition error_type :: "int \<Rightarrow> string" where
  "error_type status =
     (if status = 429 then ''rate_limit_error''
      else if status = 401 \<or> status = 403 then ''authentication_error''
      else if status < 500 then ''invalid_request_error'' else ''server_error'')"

definition Error :: "http_header \<Rightarrow> int \<Rightarrow> string \<Rightarrow> string \<Rightarrow> http_reply" where
  "Error h status code message =
     \<lparr>rp_status = status, rp_header = header_set ''Content-Type'' ''application/json'' h,
      rp_chunks = [json_text (marshal_map [(''error'', marshal_map [(''message'', go_string message),
        (''type'', go_string (error_type status)), (''code'', go_string code)])]) @ [LF]],
      rp_aborted = False\<rparr>"

definition authError :: "go_error \<Rightarrow> http_reply" where
  "authError e =
     (case e of
        CoreError code detail status \<Rightarrow> Error [] status (ToLower code) detail
      | OtherError _ \<Rightarrow> Error [] 500 ''broker_unavailable'' ''Broker authentication unavailable.'')"

definition CompactDuration :: "int \<Rightarrow> string" where
  "CompactDuration seconds =
     (let minutes = max 0 (go_div (seconds + 59) 60) in
      if 24 * 60 \<le> minutes then itoa (minutes div (24 * 60)) @ ''d'' @ itoa (minutes div 60 mod 24) @ ''h''
      else if 60 \<le> minutes then itoa (minutes div 60) @ ''h'' @ itoa (minutes mod 60) @ ''m''
      else itoa minutes @ ''m'')"

definition Upstream :: "string \<Rightarrow> string" where
  "Upstream path =
     (if path \<in> {''/transcribe'', ''/codex/thread/goal/get'', ''/codex/thread/goal/set''} then BackendURL @ path
      else UpstreamURL @ TrimPrefix path ''/v1'')"

text \<open>\<open>core.ISOTime\<close>: no text for a missing or zero time.\<close>

definition ISOTime :: "(int \<Rightarrow> string) \<Rightarrow> nullint \<Rightarrow> string" where
  "ISOTime fmt v = (case v of None \<Rightarrow> [] | Some t \<Rightarrow> if t = 0 then [] else fmt t)"

definition Notice_of :: "(int \<Rightarrow> string) \<Rightarrow> Lease \<Rightarrow> Notice" where
  "Notice_of fmt selected =
     \<lparr>no_AccountID = AccountID selected, no_AccountLabel = AccountLabel selected,
      no_ShortRemainingPercent = ShortRemainingPercent selected,
      no_WeeklyRemainingPercent = WeeklyRemainingPercent selected,
      no_ShortResetsAt = ISOTime fmt (ShortResetsAtMS selected),
      no_WeeklyResetsAt = ISOTime fmt (WeeklyResetsAtMS selected), no_Status = []\<rparr>"

definition Upgrade :: "'a authority \<Rightarrow> http_header \<Rightarrow> 'a \<Rightarrow> http_reply" where
  "Upgrade auth h a =
     (case au_Authenticate auth (bearer h) a of
        Inl e \<Rightarrow> authError e
      | Inr _ \<Rightarrow> Error (header_set ''Connection'' ''close'' []) 426 ''http_required''
                   ''Use HTTP streaming for Responses API requests.'')"

subsection \<open>Before routing\<close>

record prepared =
  pq_client :: Client
  pq_thread :: string
  pq_turn :: string
  pq_body :: string
  pq_arm :: bool

datatype body_read = BodyOk string | BodyTooLarge | BodyFailed

definition read_body :: "nat \<Rightarrow> http_request \<Rightarrow> body_read" where
  "read_body limit r =
     (if limit < length (rq_body r) then BodyTooLarge
      else if rq_end r \<noteq> REOF then BodyFailed else BodyOk (rq_body r))"

definition too_large_after_scrub :: http_reply where
  "too_large_after_scrub = Error [] 413 ''request_too_large_after_scrub''
     ''Request remains too large after historical content cleanup.''"

text \<open>Shrinking the body of a Responses request, and whether native compaction is armed.\<close>

definition scrub_request :: "engine_env \<Rightarrow> string \<Rightarrow> string \<Rightarrow> http_reply + string \<times> bool" where
  "scrub_request env path raw =
     (let body = PrepareNotice (en_json env) raw;
          policy = (if TriggerBytes (en_policy env) = 0 then DefaultScrubPolicy else en_policy env)
      in case Scrub (je_parse (en_json env)) body policy of
           (_, Some e) \<Rightarrow>
             Inl (if e = ErrInvalidScrubRequest \<and> length body \<le> MaxRequest
                  then Error [] 400 ''invalid_request'' ''Large Responses request is not valid JSON.''
                  else too_large_after_scrub)
         | (result, None) \<Rightarrow>
             if MaxRequest < length (Body result) then Inl too_large_after_scrub
             else Inr (Body result, path = ''/v1/responses'' \<and> Changed result
                         \<and> \<not> IsCompactionRequest (je_parse (en_json env)) path body))"

definition prepare_request :: "engine_env \<Rightarrow> 'a authority \<Rightarrow> http_request \<Rightarrow> 'a \<Rightarrow> http_reply + prepared" where
  "prepare_request env auth r a =
     (case au_Authenticate auth (bearer (rq_header r)) a of
        Inl e \<Rightarrow> Inl (authError e)
      | Inr key \<Rightarrow>
          (let isScrubbable = (rq_path r = ''/v1/responses'' \<or> rq_path r = ''/v1/responses/compact'');
               threadID = TrimSpace (header_get (rq_header r) ThreadIDHeader);
               turnID = TrimSpace (header_get (rq_header r) TurnIDHeader)
           in if 200 < RuneCountInString threadID \<or> 200 < RuneCountInString turnID
              then Inl (Error [] 400 ''invalid_correlation_id''
                     ''Thread and turn identifiers must not exceed 200 characters.'')
              else if isScrubbable \<and> MaxInboundRequest < rq_contentLength r
              then Inl (Error [] 413 ''request_too_large'' ''Request body exceeds the broker limit.'')
              else case read_body (if isScrubbable then nat MaxInboundRequest else MaxRequest) r of
                     BodyTooLarge \<Rightarrow> Inl (Error [] 413 ''request_too_large'' ''Request body exceeds the broker limit.'')
                   | BodyFailed \<Rightarrow> Inl (Error [] 400 ''invalid_request'' ''Request body could not be read.'')
                   | BodyOk raw \<Rightarrow>
                       (case (if isScrubbable then scrub_request env (rq_path r) raw else Inr (raw, False)) of
                          Inl reply \<Rightarrow> Inl reply
                        | Inr (body, arm) \<Rightarrow>
                            Inr \<lparr>pq_client = key, pq_thread = threadID, pq_turn = turnID, pq_body = body, pq_arm = arm\<rparr>)))"

text \<open>The metadata of a Responses request.\<close>

definition reasoning_effort :: "json \<Rightarrow> string" where
  "reasoning_effort j =
     (case j of
        JObj fs \<Rightarrow> struct_string ''effort'' (JObj (concat (map (\<lambda>f. case snd f of
           JObj inner \<Rightarrow> (if field_matches ''reasoning'' (snd (fst f)) then inner else []) | _ \<Rightarrow> []) fs)))
      | _ \<Rightarrow> [])"

definition metadata :: "engine_env \<Rightarrow> http_request \<Rightarrow> string \<Rightarrow> string \<times> string \<times> string \<times> string" where
  "metadata env r body =
     (if rq_path r \<noteq> ''/v1/responses'' then ([], [], [], [])
      else case je_parse (en_json env) body of
             None \<Rightarrow> ([], [], [], [])
           | Some j \<Rightarrow> (struct_string ''model'' j, reasoning_effort j, struct_string ''service_tier'' j,
                        struct_string ''previous_response_id'' j))"

subsection \<open>The routing loop\<close>

record 'a serve_state =
  sv_input :: RouteRequest
  sv_counts :: "string \<Rightarrow> nat"
  sv_previous :: string
  sv_retries :: nat
  sv_failovers :: nat
  sv_attempts :: nat
  sv_auth :: 'a
  sv_unready :: int

definition serve_start :: "engine_env \<Rightarrow> 'a \<Rightarrow> int \<Rightarrow> 'a serve_state" where
  "serve_start env a until =
     \<lparr>sv_input = \<lparr>SessionID = ''proxy-'' @ en_newID env 0, TurnID = en_newID env 1, PreferredAccountID = [],
                  FailedAccountID = [], FailureKind = []\<rparr>,
      sv_counts = (\<lambda>_. 0), sv_previous = [], sv_retries = 0, sv_failovers = 0, sv_attempts = 0,
      sv_auth = a, sv_unready = until\<rparr>"

text \<open>A lease for an account that was tried is accepted once more, right after its authentication failed.\<close>

definition may_attempt :: "RouteRequest \<Rightarrow> (string \<Rightarrow> nat) \<Rightarrow> string \<Rightarrow> bool" where
  "may_attempt input counts account \<longleftrightarrow>
     \<not> (0 < counts account
        \<and> \<not> (FailureKind input = ''auth'' \<and> FailedAccountID input = account \<and> counts account = 1))"

definition begin_attempt :: "string \<Rightarrow> 'a serve_state \<Rightarrow> 'a serve_state" where
  "begin_attempt account st =
     (let st = (if sv_previous st \<noteq> [] \<and> sv_previous st \<noteq> account then st\<lparr>sv_failovers := sv_failovers st + 1\<rparr>
                else if sv_previous st \<noteq> [] then st\<lparr>sv_retries := sv_retries st + 1\<rparr> else st)
      in st\<lparr>sv_previous := account, sv_counts := (sv_counts st)(account := sv_counts st account + 1),
            sv_attempts := sv_attempts st + 1\<rparr>)"

definition retry_input :: "string \<Rightarrow> string \<Rightarrow> RouteRequest \<Rightarrow> RouteRequest" where
  "retry_input account kind input =
     input\<lparr>PreferredAccountID := account, FailedAccountID := account, FailureKind := kind\<rparr>"

definition stream_notice :: "engine_env \<Rightarrow> Client \<Rightarrow> Lease \<Rightarrow> 'a serve_state \<Rightarrow> Notice" where
  "stream_notice env key selected st =
     (let notice = Notice_of (en_iso_time env) selected;
          notice = (if cl_StreamerMode key
                    then notice\<lparr>no_AccountID := [], no_AccountLabel := ''Usage stats''\<rparr> else notice);
          arrow = [CHR 0xE2, CHR 0x86, CHR 0xBB, CHR 0x20]
      in if 0 < sv_failovers st then notice\<lparr>no_Status := arrow @ ''failover''\<rparr>
         else if 0 < sv_retries st then notice\<lparr>no_Status := arrow @ ''retry''\<rparr> else notice)"

definition observation :: "engine_env \<Rightarrow> http_request \<Rightarrow> prepared \<Rightarrow> Lease \<Rightarrow> http_response \<Rightarrow> 'a serve_state
    \<Rightarrow> TerminalResponse \<Rightarrow> Observation" where
  "observation env r pq selected response st terminal =
     (case metadata env r (pq_body pq) of (model, effort, tier, previousResponse) \<Rightarrow>
      \<lparr>ob_RequestID = en_newID env 0, ob_AccountID = AccountID selected, ob_ClientID = cl_ID (pq_client pq),
       ob_ThreadID = pq_thread pq, ob_TurnID = pq_turn pq, ob_Endpoint = rq_path r,
       ob_RequestModel = model, ob_ReasoningEffort = effort, ob_RequestServiceTier = tier,
       ob_PreviousResponseID = previousResponse, ob_ResponseID = tr_ID terminal,
       ob_ResponseModel = tr_Model terminal, ob_ResponseServiceTier = tr_ServiceTier terminal,
       ob_TerminalStatus = tr_Status terminal, ob_UpstreamAttempts = int (sv_attempts st),
       ob_UpstreamHTTPStatus = rs_status response, ob_RequestStartedAtMS = en_started env,
       ob_UpstreamStartedAtMS = en_upstream_at env (sv_attempts st - 1),
       ob_ResponseHeadersAtMS = en_headers_at env (sv_attempts st - 1),
       ob_FirstResponseEventAtMS = tr_FirstEventAtMS terminal, ob_TerminalEventAtMS = tr_TerminalEventAtMS terminal,
       ob_InputTokens = tr_InputTokens terminal, ob_CachedInputTokens = tr_CachedInputTokens terminal,
       ob_OutputTokens = tr_OutputTokens terminal, ob_ReasoningTokens = tr_ReasoningOutputTokens terminal,
       ob_TotalTokens = tr_TotalTokens terminal, ob_UsageJSON = tr_UsageJSON terminal\<rparr>)"

text \<open>The callback of a terminal event: report a failure of the account, then observe.\<close>

definition observe_terminal :: "engine_env \<Rightarrow> 'a authority \<Rightarrow> http_request \<Rightarrow> prepared \<Rightarrow> Lease \<Rightarrow> http_response
    \<Rightarrow> TerminalResponse \<Rightarrow> 'a serve_state \<Rightarrow> 'a serve_state" where
  "observe_terminal env auth r pq selected response terminal st =
     (let a = sv_auth st;
          a = (if tr_FailureKind terminal \<noteq> []
               then fst (au_ReportFailure auth (cl_ID (pq_client pq)) (AccountID selected) (tr_FailureKind terminal) a)
               else a);
          a = fst (au_Observe auth (observation env r pq selected response st terminal) a)
      in st\<lparr>sv_auth := a\<rparr>)"

text \<open>An error while the upstream body is read counts as a failure of the process.\<close>

definition note_body_error :: "engine_env \<Rightarrow> http_response \<Rightarrow> bool \<Rightarrow> 'a serve_state \<Rightarrow> 'a serve_state" where
  "note_body_error env response reached st =
     (case rs_end response of
        RErr e \<Rightarrow> if reached then st\<lparr>sv_unready := engine_failure (en_timeout env) (en_now env) e (sv_unready st)\<rparr> else st
      | REOF \<Rightarrow> st)"

definition answer_stream :: "engine_env \<Rightarrow> 'a authority \<Rightarrow> http_request \<Rightarrow> prepared \<Rightarrow> Lease \<Rightarrow> http_response
    \<Rightarrow> 'a serve_state \<Rightarrow> 'a serve_state \<times> http_reply" where
  "answer_stream env auth r pq selected response st =
     (case CopyNoticeResponse (en_stream env) (en_parse_time env) [] response (stream_notice env (pq_client pq) selected st)
             (en_now env) (en_first_event env) True (pq_arm pq) of
        Passed reply \<Rightarrow> (note_body_error env response (rp_aborted reply) st, reply)
      | Streamed reply ss _ \<Rightarrow>
          (note_body_error env response (rp_aborted reply)
             (fold (observe_terminal env auth r pq selected response) (ss_observed ss) st), reply)
      | CopyFailed e \<Rightarrow>
          (note_body_error env response (e = ''read'') st,
           if e = ''read'' \<and> (case rs_end response of RErr err \<Rightarrow> en_idle env err | REOF \<Rightarrow> False)
           then Error [] 504 ''upstream_timeout'' ''Upstream response stalled.''
           else Error [] 502 ''invalid_upstream_stream'' ''Upstream stream validation failed.''))"

definition reserve_activation :: "'a authority \<Rightarrow> Lease \<Rightarrow> http_response \<Rightarrow> 'a \<Rightarrow> 'a \<times> go_error option" where
  "reserve_activation auth selected response a =
     (if Reserve selected \<and> 200 \<le> rs_status response \<and> rs_status response < 300
      then au_Activate auth selected a else (a, None))"

text \<open>One attempt with a lease: the request is answered, or routed again.\<close>

definition serve_attempt :: "engine_env \<Rightarrow> 'a authority \<Rightarrow> http_request \<Rightarrow> prepared \<Rightarrow> Lease \<Rightarrow> 'a serve_state
    \<Rightarrow> ('a serve_state \<times> http_reply) + 'a serve_state" where
  "serve_attempt env auth r pq selected st0 =
     (let st = begin_attempt (AccountID selected) st0;
          target = Upstream (rq_path r) @ (if rq_query r \<noteq> [] then ''?'' @ rq_query r else [])
      in case en_forward env (sv_attempts st - 1) target
                (forward_header (rq_header r) (AccessToken selected) (ChatGPTAccountID selected)) (pq_body pq) of
           Inl e \<Rightarrow> Inl (st\<lparr>sv_unready := engine_failure (en_timeout env) (en_now env) e (sv_unready st)\<rparr>,
                         Error [] 502 ''upstream_unavailable'' ''Upstream request failed.'')
         | Inr response \<Rightarrow>
             if 300 \<le> rs_status response \<and> rs_status response < 400
             then Inl (st, Error [] 502 ''upstream_redirect'' ''Upstream redirect rejected.'')
             else
               (case reserve_activation auth selected response (sv_auth st) of
                  (a, Some _) \<Rightarrow> Inl (st\<lparr>sv_auth := a\<rparr>,
                     Error [] 503 ''relay_cache_unavailable'' ''Relay state could not be saved safely.'')
                | (a, None) \<Rightarrow>
                    (let st = st\<lparr>sv_auth := a\<rparr>;
                         (kind, response) = ResponseFailureKind (en_stream env) response
                     in if kind = [] \<or> kind = ''auth'' \<and> 2 \<le> sv_counts st (AccountID selected) then
                          Inl (if rq_path r = ''/v1/responses'' \<and> rs_status response = 200
                               then answer_stream env auth r pq selected response st
                               else (let reply = CopyResponse [] response
                                     in (note_body_error env response (rp_aborted reply) st, reply)))
                        else Inr (st\<lparr>sv_input := retry_input (AccountID selected) kind (sv_input st)\<rparr>))))"

definition broker_unavailable :: http_reply where
  "broker_unavailable = Error [] 503 ''broker_unavailable'' ''Codex Broker unavailable.''"

definition serve_step :: "engine_env \<Rightarrow> 'a authority \<Rightarrow> http_request \<Rightarrow> prepared \<Rightarrow> 'a serve_state
    \<Rightarrow> ('a serve_state \<times> http_reply) + 'a serve_state" where
  "serve_step env auth r pq st0 =
     (case au_Route auth (cl_ID (pq_client pq)) (sv_input st0) (sv_auth st0) of
        (a, answer) \<Rightarrow>
          (let st = st0\<lparr>sv_auth := a\<rparr> in
           case answer of
             Inl e \<Rightarrow> Inl (st\<lparr>sv_unready := engine_failure (en_timeout env) (en_now env) e (sv_unready st)\<rparr>,
                           broker_unavailable)
           | Inr (_, Some wait) \<Rightarrow>
               Inl (st, Error (header_set ''Retry-After'' (itoa (RetryAfterSeconds wait)) []) 429 ''pool_exhausted''
                      (''All accounts unavailable'' @ middot @ ''retry '' @ CompactDuration (RetryAfterSeconds wait) @ ''.''))
           | Inr (None, None) \<Rightarrow> Inl (st, broker_unavailable)
           | Inr (Some selected, None) \<Rightarrow>
               if \<not> may_attempt (sv_input st) (sv_counts st) (AccountID selected)
               then Inl (st, Error [] 502 ''routing_failed'' ''Broker returned an unavailable account.'')
               else serve_attempt env auth r pq selected st))"

fun serve_loop :: "engine_env \<Rightarrow> 'a authority \<Rightarrow> http_request \<Rightarrow> prepared \<Rightarrow> nat \<Rightarrow> 'a serve_state
    \<Rightarrow> ('a serve_state \<times> http_reply) option" where
  "serve_loop env auth r pq 0 st = None"
| "serve_loop env auth r pq (Suc n) st =
     (case serve_step env auth r pq st of
        Inl answer \<Rightarrow> Some answer
      | Inr st' \<Rightarrow> serve_loop env auth r pq n st')"

definition Serve :: "engine_env \<Rightarrow> 'a authority \<Rightarrow> http_request \<Rightarrow> nat \<Rightarrow> 'a \<Rightarrow> int \<Rightarrow> ('a \<times> int \<times> http_reply) option" where
  "Serve env auth r fuel a until =
     (case prepare_request env auth r a of
        Inl reply \<Rightarrow> Some (a, until, reply)
      | Inr pq \<Rightarrow>
          map_option (\<lambda>(st, reply). (sv_auth st, sv_unready st, reply))
            (serve_loop env auth r pq fuel (serve_start env a until)))"

end
