(* ===== verification/Gateway_Correct.thy ===== *)
theory Gateway_Correct
  imports Gateway
begin

text \<open>
  Correctness of the serving loop: what an authority has to promise for the loop to end and to
  keep the authority's own invariant (the locales \<open>authority_contract\<close> and
  \<open>bounded_authority\<close>), how often an account is tried, when a request is sent again, and what
  a reserve lease and a streamer's notice guarantee.
\<close>

subsection \<open>One attempt\<close>

lemma rp_status_Error [simp]: "rp_status (Error h status code message) = status"
  by (simp add: Error_def)

lemma begin_attempt_simps [simp]:
  "sv_auth (begin_attempt account st) = sv_auth st"
  "sv_input (begin_attempt account st) = sv_input st"
  "sv_counts (begin_attempt account st) = (sv_counts st)(account := sv_counts st account + 1)"
  "sv_attempts (begin_attempt account st) = sv_attempts st + 1"
  "sv_previous (begin_attempt account st) = account"
  by (simp_all add: begin_attempt_def Let_def)

lemma ResponseFailureKind_cases:
  "fst (ResponseFailureKind env response) \<in> {[], ''auth'', ''quota''}"
  by (auto simp: ResponseFailureKind_def FailureKind_of_def Let_def split: option.split)

lemma ResponseFailureKind_success:
  "200 \<le> rs_status response \<Longrightarrow> rs_status response < 300 \<Longrightarrow> ResponseFailureKind env response = ([], response)"
  by (simp add: ResponseFailureKind_def Let_def)

lemma ResponseFailureKind_response [simp]: "snd (ResponseFailureKind env response) = response"
  by (simp add: ResponseFailureKind_def Let_def)

lemma note_body_error_simps [simp]:
  "sv_auth (note_body_error env response b st) = sv_auth st"
  "sv_counts (note_body_error env response b st) = sv_counts st"
  by (simp_all add: note_body_error_def split: read_end.split)

lemma observe_terminal_counts [simp]:
  "sv_counts (fold (observe_terminal env auth r pq selected response) ts st) = sv_counts st"
  by (induction ts arbitrary: st) (simp_all add: observe_terminal_def Let_def)

text \<open>What serving does to the authority is a sequence of calls of its methods.\<close>

inductive auth_step :: "'a authority \<Rightarrow> 'a \<Rightarrow> 'a \<Rightarrow> bool" for auth where
  route: "au_Route auth c input a = (a', answer) \<Longrightarrow> auth_step auth a a'"
| observe: "au_Observe auth v a = (a', e) \<Longrightarrow> auth_step auth a a'"
| report: "au_ReportFailure auth c account kind a = (a', e) \<Longrightarrow> auth_step auth a a'"
| activate: "au_Activate auth lease a = (a', e) \<Longrightarrow> auth_step auth a a'"

abbreviation auth_steps :: "'a authority \<Rightarrow> 'a \<Rightarrow> 'a \<Rightarrow> bool" where
  "auth_steps auth \<equiv> (auth_step auth)\<^sup>*\<^sup>*"

lemma auth_step_fst:
  "auth_step auth a (fst (au_Route auth c input a))" "auth_step auth a (fst (au_Observe auth v a))"
  "auth_step auth a (fst (au_ReportFailure auth c account kind a))" "auth_step auth a (fst (au_Activate auth lease a))"
  by (auto intro: auth_step.intros prod.collapse [symmetric])

lemma observe_terminal_auth: "auth_steps auth (sv_auth st) (sv_auth (observe_terminal env auth r pq selected response t st))"
proof -
  define a where "a = (if tr_FailureKind t \<noteq> []
    then fst (au_ReportFailure auth (cl_ID (pq_client pq)) (AccountID selected) (tr_FailureKind t) (sv_auth st)) else sv_auth st)"
  have "auth_steps auth (sv_auth st) a" by (auto simp: a_def intro: auth_step_fst)
  then show ?thesis
    using auth_step_fst(2) [of auth a "observation env r pq selected response st t"]
    by (simp add: observe_terminal_def a_def [symmetric] Let_def)
qed

lemma observe_all_auth:
  "auth_steps auth (sv_auth st) (sv_auth (fold (observe_terminal env auth r pq selected response) ts st))"
proof (induction ts arbitrary: st)
  case (Cons t ts)
  then show ?case using observe_terminal_auth by (metis fold_simps(2) rtranclp_trans)
qed simp

lemma answer_stream_frame:
  "sv_counts (fst (answer_stream env auth r pq selected response st)) = sv_counts st
   \<and> auth_steps auth (sv_auth st) (sv_auth (fst (answer_stream env auth r pq selected response st)))"
  using observe_all_auth [of auth st env r pq selected response]
  by (simp add: answer_stream_def split: copied.split)

lemma reserve_activation_auth: "auth_steps auth a (fst (reserve_activation auth selected response a))"
  by (auto simp: reserve_activation_def intro: auth_step_fst)

definition forwarded :: "engine_env \<Rightarrow> http_request \<Rightarrow> prepared \<Rightarrow> Lease \<Rightarrow> nat \<Rightarrow> go_error + http_response" where
  "forwarded env r pq selected n = en_forward env n (Upstream (rq_path r) @ (if rq_query r \<noteq> [] then ''?'' @ rq_query r else []))
     (forward_header (rq_header r) (AccessToken selected) (ChatGPTAccountID selected)) (pq_body pq)"

text \<open>The three ways an attempt goes on.\<close>

lemma serve_attempt_cases:
  obtains (refused) a response kind where
    "serve_attempt env auth r pq selected st =
       Inr ((begin_attempt (AccountID selected) st)\<lparr>sv_auth := a, sv_input := retry_input (AccountID selected) kind (sv_input st)\<rparr>)"
    "forwarded env r pq selected (sv_attempts st) = Inr response"
    "reserve_activation auth selected response (sv_auth st) = (a, None)"
    "fst (ResponseFailureKind (en_stream env) response) = kind" "kind = ''auth'' \<or> kind = ''quota''"
    "kind = ''auth'' \<longrightarrow> sv_counts st (AccountID selected) = 0"
  | (failed) st' reply where
    "serve_attempt env auth r pq selected st = Inl (st', reply)"
    "sv_counts st' = sv_counts (begin_attempt (AccountID selected) st)"
    "auth_steps auth (sv_auth st) (sv_auth st')" "rp_status reply \<in> {502, 503}"
  | (answered) st' reply a response where
    "serve_attempt env auth r pq selected st = Inl (st', reply)"
    "sv_counts st' = sv_counts (begin_attempt (AccountID selected) st)"
    "auth_steps auth (sv_auth st) (sv_auth st')"
    "forwarded env r pq selected (sv_attempts st) = Inr response"
    "reserve_activation auth selected response (sv_auth st) = (a, None)"
proof (cases "forwarded env r pq selected (sv_attempts st)")
  case (Inl e)
  then show thesis
    by (intro failed) (auto simp: serve_attempt_def forwarded_def Let_def Error_def)
next
  case (Inr response)
  let ?st = "begin_attempt (AccountID selected) st"
  obtain a e where act: "reserve_activation auth selected response (sv_auth st) = (a, e)" by fastforce
  then have auth: "auth_steps auth (sv_auth st) a"
    using reserve_activation_auth [of auth "sv_auth st" selected response] by simp
  obtain kind where kind: "ResponseFailureKind (en_stream env) response = (kind, response)"
    by (metis ResponseFailureKind_response prod.collapse)
  show thesis
  proof (cases "300 \<le> rs_status response \<and> rs_status response < 400 \<or> e \<noteq> None")
    case True
    show thesis
    proof (cases "300 \<le> rs_status response \<and> rs_status response < 400")
      case True
      then show thesis
        using Inr by (intro failed) (auto simp: serve_attempt_def forwarded_def Let_def Error_def)
    next
      case redirect: False
      then obtain e' where "e = Some e'" using True by auto
      then have "serve_attempt env auth r pq selected st = Inl (?st\<lparr>sv_auth := a\<rparr>,
          Error [] 503 ''relay_cache_unavailable'' ''Relay state could not be saved safely.'')"
        using Inr act by (simp add: serve_attempt_def forwarded_def Let_def redirect)
      from failed [OF this] auth show thesis by simp
    qed
  next
    case False
    then have e: "e = None" "\<not> (300 \<le> rs_status response \<and> rs_status response < 400)" by auto
    show thesis
    proof (cases "kind = [] \<or> kind = ''auth'' \<and> 1 \<le> sv_counts st (AccountID selected)")
      case True
      define st1 where "st1 = ?st\<lparr>sv_auth := a\<rparr>"
      define answer where "answer = (if rq_path r = ''/v1/responses'' \<and> rs_status response = 200
         then answer_stream env auth r pq selected response st1
         else (let reply = CopyResponse [] response in (note_body_error env response (rp_aborted reply) st1, reply)))"
      have run: "serve_attempt env auth r pq selected st = Inl answer"
        using Inr act e kind True
        by (auto simp: serve_attempt_def forwarded_def answer_def st1_def Let_def)
      have "sv_counts (fst answer) = sv_counts ?st \<and> auth_steps auth a (sv_auth (fst answer))"
        using answer_stream_frame [of env auth r pq selected response st1] by (simp add: answer_def st1_def Let_def)
      then show thesis
        using run Inr act e auth by (intro answered [of "fst answer" "snd answer"]) auto
    next
      case False
      then have "kind = ''auth'' \<or> kind = ''quota''"
        using ResponseFailureKind_cases [of "en_stream env" response] kind by auto
      moreover have "serve_attempt env auth r pq selected st =
          Inr (?st\<lparr>sv_auth := a, sv_input := retry_input (AccountID selected) kind (sv_input st)\<rparr>)"
        using Inr act e kind False by (auto simp: serve_attempt_def forwarded_def Let_def)
      ultimately show thesis
        using Inr act e kind False by (intro refused [where a = a and kind = kind and response = response]) auto
    qed
  qed
qed


subsection \<open>One turn of the loop\<close>

text \<open>
  Either the loop ends, after calls of the authority and at most one more attempt on an account
  that may be tried, or an account that may be tried was tried and refused the request.
\<close>

definition tried :: "'a serve_state \<Rightarrow> string \<Rightarrow> string \<Rightarrow> nat" where
  "tried st account = (sv_counts st)(account := sv_counts st account + 1)"

lemma serve_step_Inl:
  assumes "serve_step env auth r pq st = Inl (st', reply)"
  shows "auth_steps auth (sv_auth st) (sv_auth st')
    \<and> (sv_counts st' = sv_counts st
       \<or> (\<exists>account. may_attempt (sv_input st) (sv_counts st) account \<and> sv_counts st' = tried st account))"
proof -
  obtain a answer where route: "au_Route auth (cl_ID (pq_client pq)) (sv_input st) (sv_auth st) = (a, answer)" by fastforce
  let ?st = "st\<lparr>sv_auth := a\<rparr>"
  have first: "auth_steps auth (sv_auth st) a" by (auto intro: auth_step.route [OF route])
  show ?thesis
  proof (cases "\<exists>selected. answer = Inr (Some selected, None) \<and> may_attempt (sv_input st) (sv_counts st) (AccountID selected)")
    case False
    then have "sv_auth st' = a \<and> sv_counts st' = sv_counts st"
      using assms route by (auto simp: serve_step_def Let_def split: sum.splits option.splits prod.splits if_splits)
    then show ?thesis using first by simp
  next
    case True
    then obtain selected where sel: "answer = Inr (Some selected, None)"
      "may_attempt (sv_input st) (sv_counts st) (AccountID selected)" by blast
    have run: "serve_attempt env auth r pq selected ?st = Inl (st', reply)"
      using assms route sel by (simp add: serve_step_def Let_def)
    show ?thesis
      by (rule serve_attempt_cases [of env auth r pq selected ?st])
        (use run sel(2) first in \<open>auto simp: tried_def intro: rtranclp_trans\<close>)
  qed
qed

lemma serve_step_Inr:
  assumes "serve_step env auth r pq st = Inr st'"
  obtains a selected response kind where
    "au_Route auth (cl_ID (pq_client pq)) (sv_input st) (sv_auth st) = (a, Inr (Some selected, None))"
    "may_attempt (sv_input st) (sv_counts st) (AccountID selected)"
    "sv_counts st' = tried st (AccountID selected)"
    "sv_attempts st' = sv_attempts st + 1"
    "sv_input st' = retry_input (AccountID selected) kind (sv_input st)"
    "forwarded env r pq selected (sv_attempts st) = Inr response"
    "fst (ResponseFailureKind (en_stream env) response) = kind" "kind = ''auth'' \<or> kind = ''quota''"
    "kind = ''auth'' \<longrightarrow> sv_counts st (AccountID selected) = 0"
    "auth_steps auth a (sv_auth st')"
proof -
  obtain a answer where route: "au_Route auth (cl_ID (pq_client pq)) (sv_input st) (sv_auth st) = (a, answer)" by fastforce
  let ?st = "st\<lparr>sv_auth := a\<rparr>"
  obtain selected where sel: "answer = Inr (Some selected, None)"
      "may_attempt (sv_input st) (sv_counts st) (AccountID selected)"
      "serve_attempt env auth r pq selected ?st = Inr st'"
    using assms route by (auto simp: serve_step_def Let_def split: sum.splits option.splits prod.splits if_splits)
  show thesis
  proof (rule serve_attempt_cases [of env auth r pq selected ?st])
    fix a' response kind
    assume c: "serve_attempt env auth r pq selected ?st = Inr ((begin_attempt (AccountID selected) ?st)\<lparr>sv_auth := a',
         sv_input := retry_input (AccountID selected) kind (sv_input ?st)\<rparr>)"
      "forwarded env r pq selected (sv_attempts ?st) = Inr response"
      "reserve_activation auth selected response (sv_auth ?st) = (a', None)"
      "fst (ResponseFailureKind (en_stream env) response) = kind" "kind = ''auth'' \<or> kind = ''quota''"
      "kind = ''auth'' \<longrightarrow> sv_counts ?st (AccountID selected) = 0"
    have "auth_steps auth a a'"
      using reserve_activation_auth [of auth a selected response] c(3) by simp
    then show thesis
      using c route sel by (intro that [of a selected kind response]) (auto simp: tried_def)
  qed (use sel in auto)
qed


subsection \<open>The whole loop\<close>

lemma may_attempt_counts: "may_attempt input counts account \<Longrightarrow> counts account \<le> 1"
  by (auto simp: may_attempt_def)

lemma tried_bound:
  "\<forall>a. sv_counts st a \<le> 2 \<Longrightarrow> may_attempt (sv_input st) (sv_counts st) account \<Longrightarrow> tried st account a \<le> 2"
  using may_attempt_counts by (fastforce simp: tried_def)

lemma serve_loop_counts:
  "serve_loop env auth r pq fuel st = Some (st', reply) \<Longrightarrow> \<forall>a. sv_counts st a \<le> 2 \<Longrightarrow> \<forall>a. sv_counts st' a \<le> 2"
proof (induction fuel arbitrary: st)
  case (Suc n)
  show ?case
  proof (cases "serve_step env auth r pq st")
    case (Inl p)
    then have "serve_step env auth r pq st = Inl (st', reply)" using Suc.prems(1) by simp
    from serve_step_Inl [OF this] show ?thesis using Suc.prems(2) tried_bound by metis
  next
    case (Inr st1)
    have "\<forall>a. sv_counts st1 a \<le> 2"
      by (rule serve_step_Inr [OF Inr]) (use Suc.prems(2) tried_bound in metis)
    then show ?thesis using Suc.IH [of st1] Suc.prems(1) Inr by simp
  qed
qed simp

lemma serve_loop_auth:
  "serve_loop env auth r pq fuel st = Some (st', reply) \<Longrightarrow> auth_steps auth (sv_auth st) (sv_auth st')"
proof (induction fuel arbitrary: st)
  case (Suc n)
  show ?case
  proof (cases "serve_step env auth r pq st")
    case (Inl p)
    then have "serve_step env auth r pq st = Inl (st', reply)" using Suc.prems by simp
    from serve_step_Inl [OF this] show ?thesis by simp
  next
    case (Inr st1)
    have "auth_steps auth (sv_auth st) (sv_auth st1)"
    proof (rule serve_step_Inr [OF Inr])
      fix a selected
      assume "au_Route auth (cl_ID (pq_client pq)) (sv_input st) (sv_auth st) = (a, Inr (Some selected, None))"
        and a: "auth_steps auth a (sv_auth st1)"
      then have "auth_step auth (sv_auth st) a" by (auto intro: auth_step.route)
      then show ?thesis using a by (rule converse_rtranclp_into_rtranclp)
    qed
    then show ?thesis using Suc.IH [of st1] Suc.prems Inr by simp
  qed
qed simp

lemma Serve_auth: "Serve env auth r fuel a until = Some (a', until', reply) \<Longrightarrow> auth_steps auth a a'"
  using serve_loop_auth by (fastforce simp: Serve_def serve_start_def split: sum.splits)

text \<open>The number of attempts left on a set of accounts.\<close>

definition attempts_left :: "string set \<Rightarrow> (string \<Rightarrow> nat) \<Rightarrow> nat" where
  "attempts_left A counts = (\<Sum>a\<in>A. 2 - counts a)"

lemma attempts_left_tried:
  assumes "finite A" "account \<in> A" "sv_counts st account \<le> 1"
  shows "attempts_left A (tried st account) < attempts_left A (sv_counts st)"
  unfolding attempts_left_def tried_def
  by (rule sum_strict_mono_ex1) (use assms in auto)

subsection \<open>What an authority promises\<close>

text \<open>The invariant the authority's methods keep is kept by serving any request.\<close>

locale authority_contract =
  fixes auth :: "'a authority" and inv :: "'a \<Rightarrow> bool"
  assumes route_inv: "inv a \<Longrightarrow> au_Route auth c input a = (a', answer) \<Longrightarrow> inv a'"
    and observe_inv: "inv a \<Longrightarrow> au_Observe auth v a = (a', e) \<Longrightarrow> inv a'"
    and report_inv: "inv a \<Longrightarrow> au_ReportFailure auth c account kind a = (a', e) \<Longrightarrow> inv a'"
    and activate_inv: "inv a \<Longrightarrow> au_Activate auth lease a = (a', e) \<Longrightarrow> inv a'"
begin

lemma auth_step_inv: "auth_step auth a a' \<Longrightarrow> inv a \<Longrightarrow> inv a'"
  by (induction rule: auth_step.induct) (blast intro: route_inv observe_inv report_inv activate_inv)+

lemma auth_steps_inv: "auth_steps auth a a' \<Longrightarrow> inv a \<Longrightarrow> inv a'"
  by (induction rule: rtranclp_induct) (auto intro: auth_step_inv)

lemma Serve_inv: "inv a \<Longrightarrow> Serve env auth r fuel a until = Some (a', until', reply) \<Longrightarrow> inv a'"
  by (rule auth_steps_inv [OF Serve_auth])

end

text \<open>An authority with a fixed, finite set of accounts serves every request.\<close>

locale bounded_authority = authority_contract +
  fixes accounts :: "string set"
  assumes finite_accounts: "finite accounts"
    and route_account: "inv a \<Longrightarrow> au_Route auth c input a = (a', Inr (Some lease, None)) \<Longrightarrow> AccountID lease \<in> accounts"
begin

lemma serve_loop_returns:
  "inv (sv_auth st) \<Longrightarrow> attempts_left accounts (sv_counts st) < fuel \<Longrightarrow> serve_loop env auth r pq fuel st \<noteq> None"
proof (induction fuel arbitrary: st)
  case (Suc n)
  show ?case
  proof (cases "serve_step env auth r pq st")
    case (Inr st1)
    show ?thesis
    proof (rule serve_step_Inr [OF Inr])
      fix a selected
      assume c: "au_Route auth (cl_ID (pq_client pq)) (sv_input st) (sv_auth st) = (a, Inr (Some selected, None))"
        "may_attempt (sv_input st) (sv_counts st) (AccountID selected)"
        "sv_counts st1 = tried st (AccountID selected)" "auth_steps auth a (sv_auth st1)"
      have "AccountID selected \<in> accounts" by (rule route_account [OF Suc.prems(1) c(1)])
      then have "attempts_left accounts (sv_counts st1) < n"
        using attempts_left_tried [OF finite_accounts _ may_attempt_counts [OF c(2)]] c(3) Suc.prems(2) by simp
      moreover have "inv (sv_auth st1)"
        using auth_steps_inv [OF c(4)] route_inv [OF Suc.prems(1) c(1)] by blast
      ultimately show ?thesis using Suc.IH [of st1] Inr by simp
    qed
  qed simp
qed simp

lemma Serve_returns:
  assumes "inv a"
  shows "Serve env auth r (2 * card accounts + 1) a until \<noteq> None"
proof -
  have "attempts_left accounts (sv_counts (serve_start env a until)) < 2 * card accounts + 1"
    by (simp add: attempts_left_def serve_start_def)
  moreover have "sv_auth (serve_start env a until) = a" by (simp add: serve_start_def)
  ultimately have "serve_loop env auth r pq (2 * card accounts + 1) (serve_start env a until) \<noteq> None" for pq
    using assms serve_loop_returns by presburger
  then show ?thesis
    by (cases "prepare_request env auth r a") (simp_all only: Serve_def sum.case option.map_disc_iff option.distinct not_False_eq_True)
qed

end


subsection \<open>Properties of serving\<close>

text \<open>
  C25: A request is sent upstream again only when the upstream refused it with an
  authentication or quota failure: a step that continues the loop has forwarded the request
  with the leased account's own credentials, the response was neither a success nor a redirect
  nor an error of the transport, the authority is told which account failed and why, and an
  account whose authentication failed a second time is not retried.
\<close>

theorem resent_only_after_refusal:
  assumes "serve_step env auth r pq st = Inr st'"
  shows "\<exists>(selected :: Lease) response.
     en_forward env (sv_attempts st) (Upstream (rq_path r) @ (if rq_query r \<noteq> [] then ''?'' @ rq_query r else []))
         (forward_header (rq_header r) (AccessToken selected) (ChatGPTAccountID selected)) (pq_body pq) = Inr response
     \<and> \<not> (200 \<le> rs_status response \<and> rs_status response < 300)
     \<and> may_attempt (sv_input st) (sv_counts st) (AccountID selected)
     \<and> FailedAccountID (sv_input st') = AccountID selected
     \<and> FailureKind (sv_input st') = fst (ResponseFailureKind (en_stream env) response)
     \<and> FailureKind (sv_input st') \<in> {''auth'', ''quota''}
     \<and> (FailureKind (sv_input st') = ''auth'' \<longrightarrow> sv_counts st' (AccountID selected) = 1)"
proof (rule serve_step_Inr [OF assms])
  fix a selected response kind
  assume c: "may_attempt (sv_input st) (sv_counts st) (AccountID selected)"
    "sv_counts st' = tried st (AccountID selected)"
    "sv_input st' = retry_input (AccountID selected) kind (sv_input st)"
    "forwarded env r pq selected (sv_attempts st) = Inr response"
    "fst (ResponseFailureKind (en_stream env) response) = kind" "kind = ''auth'' \<or> kind = ''quota''"
    "kind = ''auth'' \<longrightarrow> sv_counts st (AccountID selected) = 0"
  have "\<not> (200 \<le> rs_status response \<and> rs_status response < 300)"
    using ResponseFailureKind_success [of response "en_stream env"] c(5,6) by auto
  moreover have "FailedAccountID (sv_input st') = AccountID selected" "FailureKind (sv_input st') = kind"
    using c(3) by (simp_all add: retry_input_def)
  moreover have "sv_counts st' (AccountID selected) = sv_counts st (AccountID selected) + 1"
    using c(2) by (simp add: tried_def)
  ultimately show ?thesis
    using c(1,5-7) c(4) [unfolded forwarded_def]
    by (intro exI [of _ selected] exI [of _ response]) simp
qed


text \<open>
  The answer of a reserve account is passed on only once its activation is recorded: when a
  success response came back under a reserve lease and the authority could not activate the
  lease, the client gets the broker's error 503 and nothing of the response.
\<close>

theorem reserve_is_activated_before_answering:
  assumes "forwarded env r pq selected (sv_attempts st) = Inr response"
    and "Reserve selected" "200 \<le> rs_status response" "rs_status response < 300"
    and "au_Activate auth selected (sv_auth st) = (a, Some e)"
  shows "\<exists>st'. serve_attempt env auth r pq selected st = Inl (st',
     Error [] 503 ''relay_cache_unavailable'' ''Relay state could not be saved safely.'') \<and> sv_auth st' = a"
  using assms by (simp add: serve_attempt_def forwarded_def reserve_activation_def Let_def)

text \<open>
  The notice a streamer's clients see does not depend on the account: two leases with the
  same usage figures give the same text, whatever their accounts and labels are.
\<close>

theorem streamer_notice_hides_the_account:
  assumes "cl_StreamerMode key"
    and "ShortRemainingPercent l1 = ShortRemainingPercent l2" "WeeklyRemainingPercent l1 = WeeklyRemainingPercent l2"
    and "ShortResetsAtMS l1 = ShortResetsAtMS l2" "WeeklyResetsAtMS l1 = WeeklyResetsAtMS l2"
  shows "AccountNoticeAt parse_time (stream_notice env key l1 st) now = AccountNoticeAt parse_time (stream_notice env key l2 st) now"
  using assms by (simp add: stream_notice_def Notice_of_def Let_def)


subsection \<open>Concrete requests\<close>

definition lease_on :: "string \<Rightarrow> bool \<Rightarrow> Lease" where
  "lease_on account reserve = \<lparr>AccountID = account, AccountLabel = account, AccessToken = ''t'', ChatGPTAccountID = ''c'',
     ExpiresAtMS = 900, UsageSnapshotAtMS = 5, ShortRemainingPercent = Some 40, WeeklyRemainingPercent = None,
     ShortResetsAtMS = None, WeeklyResetsAtMS = None, Reserve = reserve, PermitEpoch = ''e'', PermitExpiresAtMS = 900\<rparr>"

text \<open>An authority that grants one account, or the other one after a failure, and cannot activate.\<close>

definition two_accounts :: "unit authority" where
  "two_accounts =
     \<lparr>au_Authenticate = (\<lambda>_ _. Inr \<lparr>cl_ID = ''k'', cl_Name = [], cl_Prefix = [], cl_StreamerMode = False\<rparr>),
      au_Route = (\<lambda>_ q s. (s, Inr (Some (lease_on (if FailedAccountID q = [] then ''a'' else ''b'') False), None))),
      au_Observe = (\<lambda>_ s. (s, None)), au_ReportFailure = (\<lambda>_ _ _ s. (s, None)),
      au_Activate = (\<lambda>_ s. (s, Some (OtherError ''disk'')))\<rparr>"

definition answer_of :: "int \<Rightarrow> http_response" where
  "answer_of status = \<lparr>rs_status = status, rs_header = [], rs_body = [], rs_end = REOF\<rparr>"

definition plain_env :: "(nat \<Rightarrow> int) \<Rightarrow> engine_env" where
  "plain_env status =
     \<lparr>en_stream = ex_env, en_json = \<lparr>je_parse = (\<lambda>_. None), je_number = (\<lambda>_. 0), je_literal = (\<lambda>_. [])\<rparr>,
      en_parse_time = (\<lambda>_. None), en_iso_time = (\<lambda>_. []), en_policy = DefaultScrubPolicy, en_newID = (\<lambda>_. ''i''),
      en_started = 1, en_upstream_at = (\<lambda>_. 2), en_headers_at = (\<lambda>_. 3), en_first_event = 4, en_now = 5,
      en_forward = (\<lambda>n _ _ _. Inr (answer_of (status n))), en_timeout = (\<lambda>_. False), en_idle = (\<lambda>_. False)\<rparr>"

definition plain_request :: http_request where
  "plain_request = \<lparr>rq_path = ''/v1/models'', rq_query = [], rq_header = [], rq_contentLength = 0, rq_body = [], rq_end = REOF\<rparr>"

definition plain_prepared :: prepared where
  "plain_prepared = \<lparr>pq_client = \<lparr>cl_ID = ''k'', cl_Name = [], cl_Prefix = [], cl_StreamerMode = True\<rparr>,
     pq_thread = [], pq_turn = [], pq_body = [], pq_arm = False\<rparr>"

definition quota_then_ok :: "nat \<Rightarrow> int" where "quota_then_ok n = (if n = 0 then 429 else 200)"

lemma first_attempt_refused:
  "\<exists>st'. serve_step (plain_env quota_then_ok) two_accounts plain_request plain_prepared
       (serve_start (plain_env quota_then_ok) () 0) = Inr st'
     \<and> FailedAccountID (sv_input st') = ''a'' \<and> sv_counts st' = (\<lambda>_. 0)(''a'' := 1) \<and> sv_attempts st' = 1"
  by (simp add: serve_step_def two_accounts_def lease_on_def may_attempt_def serve_attempt_def begin_attempt_def
      plain_env_def quota_then_ok_def answer_of_def reserve_activation_def ResponseFailureKind_def retry_input_def
      serve_start_def Let_def)

lemma resent_only_after_refusal_witness:
  "\<exists>st'. serve_step (plain_env quota_then_ok) two_accounts plain_request plain_prepared
       (serve_start (plain_env quota_then_ok) () 0) = Inr st' \<and> FailureKind (sv_input st') \<in> {''auth'', ''quota''}"
  using first_attempt_refused resent_only_after_refusal by blast


lemma reserve_is_activated_before_answering_witness:
  "\<exists>st'. serve_attempt (plain_env (\<lambda>_. 200)) two_accounts plain_request plain_prepared (lease_on ''a'' True)
     (serve_start (plain_env (\<lambda>_. 200)) () 0) = Inl (st',
     Error [] 503 ''relay_cache_unavailable'' ''Relay state could not be saved safely.'') \<and> sv_auth st' = ()"
  by (rule reserve_is_activated_before_answering [where response = "answer_of 200" and e = "OtherError ''disk''"])
    (simp_all add: forwarded_def plain_env_def answer_of_def lease_on_def two_accounts_def)

lemma streamer_notice_hides_the_account_witness:
  "AccountNoticeAt (\<lambda>_. None) (stream_notice (plain_env (\<lambda>_. 200)) (pq_client plain_prepared) (lease_on ''a'' False)
       (serve_start (plain_env (\<lambda>_. 200)) () 0)) 7
   = AccountNoticeAt (\<lambda>_. None) (stream_notice (plain_env (\<lambda>_. 200)) (pq_client plain_prepared) (lease_on ''b'' False)
       (serve_start (plain_env (\<lambda>_. 200)) () 0)) 7"
  by (rule streamer_notice_hides_the_account) (simp_all add: plain_prepared_def lease_on_def)

end
