(* ===== verification/Relay_Edge.thy ===== *)
theory Relay_Edge
  imports Gateway_Types
begin

text \<open>
  internal/relay/relay.go: the relay edge that keeps routing from a cached snapshot while the
  primary broker is away.

  The state of a \<open>Relay\<close> is its configuration, the cached snapshot, the outbox of events to
  reconcile, the per-client exclusions and the quota blocks, the online flag, and the sealed
  cache file. Each section under \<open>mu\<close> is one step with one clock reading \<open>now\<close>. What comes
  from outside is an argument: the identifier NewID returns, the outcome of a call to the
  broker (\<open>call_result\<close>), the outcome of writing the cache file (\<open>save_outcome\<close>), the
  SHA-256 function. The cache file holds the state together with the key and relay identity
  that seal it; opening it with others fails.
\<close>

record quotaBlock =
  qb_AtMS :: int
  qb_RetryAtMS :: int

record relay_state =
  st_Snapshot :: Snapshot
  st_Outbox :: "relay_event list"
  st_Exclusions :: "string \<Rightarrow> int option"
  st_QuotaBlocks :: "string \<Rightarrow> quotaBlock option"

record Relay =
  cfg_RelayID :: string
  cfg_RelayKey :: string
  cfg_RelayMaxStaleSeconds :: int
  re_state :: relay_state
  re_online :: bool
  re_disk :: "(string \<times> string \<times> relay_state) option"

datatype 'a call_result = CallOk 'a | CallStatus int | CallFailed

text \<open>A failed save may already have renamed the new file into place.\<close>

datatype save_outcome = Saved | SaveFailed bool

definition outboxLimit :: nat where "outboxLimit = 10000"

definition five_minutes :: int where "five_minutes = 5 * ms_per_minute"

definition exclusion_key :: "string \<Rightarrow> string \<Rightarrow> string" where
  "exclusion_key clientID accountID = clientID @ [CHR 0x00] @ accountID"

subsection \<open>The cache file\<close>

definition saveLocked :: "save_outcome \<Rightarrow> Relay \<Rightarrow> Relay \<times> go_error option" where
  "saveLocked out r =
     (let written = r\<lparr>re_disk := Some (cfg_RelayKey r, cfg_RelayID r, re_state r)\<rparr>
      in case out of
           Saved \<Rightarrow> (written, None)
         | SaveFailed renamed \<Rightarrow> (if renamed then written else r, Some (OtherError ''relay cache'')))"

definition load :: "Relay \<Rightarrow> Relay \<times> go_error option" where
  "load r =
     (case re_disk r of
        None \<Rightarrow> (r, Some (OtherError ''file does not exist''))
      | Some (key, relayID, s) \<Rightarrow>
          if key = cfg_RelayKey r \<and> relayID = cfg_RelayID r then (r\<lparr>re_state := s\<rparr>, None)
          else (r, Some (OtherError ''encrypted cache authentication failed'')))"

subsection \<open>Readiness and authentication\<close>

definition lease_usable :: "int \<Rightarrow> relay_lease \<Rightarrow> bool" where
  "lease_usable now item \<longleftrightarrow>
     now < ExpiresAtMS (rl_Lease item) \<and> (\<not> rl_Reserve item \<or> now < rl_PermitExpiresAtMS item)"

definition readyLocked :: "Relay \<Rightarrow> int \<Rightarrow> bool" where
  "readyLocked r now \<longleftrightarrow>
     (let snapshot = st_Snapshot (re_state r); age = now - sn_GeneratedAtMS snapshot in
      \<not> (sn_ProtocolVersion snapshot \<noteq> Version \<or> sn_RelayID snapshot \<noteq> cfg_RelayID r
         \<or> sn_GeneratedAtMS snapshot \<le> 0 \<or> age < - five_minutes
         \<or> cfg_RelayMaxStaleSeconds r * 1000 < age)
      \<and> list_ex (lease_usable now) (sn_Leases snapshot))"

definition relay_Authenticate :: "(string \<Rightarrow> string) \<Rightarrow> Relay \<Rightarrow> int \<Rightarrow> string \<Rightarrow> go_error + Client" where
  "relay_Authenticate sha256 r now token =
     (if \<not> readyLocked r now then Inl (NewError ''RELAY_NOT_READY'' ''Relay cache is not ready'' 503)
      else case fold (\<lambda>key acc. if rc_Digest key = sha256 token
                       then Some \<lparr>cl_ID = rc_ID key, cl_Name = rc_Name key, cl_Prefix = rc_Prefix key,
                                  cl_StreamerMode = rc_StreamerMode key\<rparr> else acc)
                 (sn_Clients (st_Snapshot (re_state r))) None of
             None \<Rightarrow> Inl (NewError ''CLIENT_KEY_INVALID'' ''Client authentication failed'' 401)
           | Some authenticated \<Rightarrow> Inr authenticated)"

subsection \<open>The outbox\<close>

definition is_telemetry :: "relay_event \<Rightarrow> bool" where
  "is_telemetry e \<longleftrightarrow> re_Kind e = ''telemetry''"

fun remove_first_telemetry :: "relay_event list \<Rightarrow> relay_event list option" where
  "remove_first_telemetry [] = None"
| "remove_first_telemetry (e # es) =
     (if is_telemetry e then Some es else map_option ((#) e) (remove_first_telemetry es))"

definition outbox_full :: go_error where
  "outbox_full = OtherError ''relay reconciliation outbox is full''"

definition queueLocked :: "relay_event \<Rightarrow> bool \<Rightarrow> relay_event list \<Rightarrow> go_error + relay_event list" where
  "queueLocked event critical outbox =
     (if length outbox < outboxLimit then Inr (outbox @ [event])
      else if \<not> critical then Inl outbox_full
      else case remove_first_telemetry outbox of
             None \<Rightarrow> Inl outbox_full
           | Some rest \<Rightarrow> Inr (rest @ [event]))"

definition new_event :: "Relay \<Rightarrow> string \<Rightarrow> string \<Rightarrow> string \<Rightarrow> string \<Rightarrow> string \<Rightarrow> string \<Rightarrow> int \<Rightarrow> relay_event" where
  "new_event r i kind account client failure epoch now =
     \<lparr>re_ID = i, re_RelayID = cfg_RelayID r, re_Kind = kind, re_AccountID = account,
      re_ClientID = client, re_FailureKind = failure, re_PermitEpoch = epoch,
      re_OccurredAtMS = now, re_Observation = None\<rparr>"

subsection \<open>Quota and exclusions\<close>

definition lease_resets :: "Lease \<Rightarrow> int list" where
  "lease_resets l = List.map_filter id [ShortResetsAtMS l, WeeklyResetsAtMS l]"

definition blockQuotaLocked :: "string \<Rightarrow> int \<Rightarrow> relay_state \<Rightarrow> relay_state" where
  "blockQuotaLocked accountID now s =
     (let resets = concat (map (\<lambda>item. if rl_AccountID item = accountID then lease_resets (rl_Lease item) else [])
                       (sn_Leases (st_Snapshot s)));
          retry = fold (\<lambda>reset retry. if now < reset \<and> reset < retry then reset else retry) resets MaxInt64
      in s\<lparr>st_QuotaBlocks := (st_QuotaBlocks s)(accountID \<mapsto> \<lparr>qb_AtMS = now, qb_RetryAtMS = retry\<rparr>)\<rparr>)"

definition quotaBlockedLocked :: "relay_state \<Rightarrow> Lease \<Rightarrow> int \<Rightarrow> bool" where
  "quotaBlockedLocked s lease now \<longleftrightarrow>
     (case st_QuotaBlocks s (AccountID lease) of
        None \<Rightarrow> False
      | Some block \<Rightarrow> now < qb_RetryAtMS block \<and> UsageSnapshotAtMS lease \<le> qb_AtMS block)"

definition window_spent :: "nullint \<Rightarrow> nullint \<Rightarrow> int \<Rightarrow> bool" where
  "window_spent remaining reset now \<longleftrightarrow>
     (case remaining of None \<Rightarrow> False | Some p \<Rightarrow> p \<le> 0)
     \<and> (case reset of None \<Rightarrow> True | Some t \<Rightarrow> now < t)"

definition lease_exhausted :: "Lease \<Rightarrow> int \<Rightarrow> bool" where
  "lease_exhausted lease now \<longleftrightarrow>
     window_spent (ShortRemainingPercent lease) (ShortResetsAtMS lease) now
     \<or> window_spent (WeeklyRemainingPercent lease) (WeeklyResetsAtMS lease) now"

definition spent_reset :: "nullint \<Rightarrow> nullint \<Rightarrow> int \<Rightarrow> int" where
  "spent_reset remaining reset result =
     (case (remaining, reset) of
        (Some p, Some t) \<Rightarrow> if p \<le> 0 \<and> result < t then t else result
      | _ \<Rightarrow> result)"

definition leaseReset :: "Lease \<Rightarrow> int \<Rightarrow> int" where
  "leaseReset lease now =
     (let result = spent_reset (WeeklyRemainingPercent lease) (WeeklyResetsAtMS lease)
                     (spent_reset (ShortRemainingPercent lease) (ShortResetsAtMS lease) 0)
      in if result \<le> now then 0 else result)"

text \<open>A missing key of a Go map reads as zero.\<close>

definition exclusion :: "relay_state \<Rightarrow> string \<Rightarrow> string \<Rightarrow> int" where
  "exclusion s clientID accountID =
     (case st_Exclusions s (exclusion_key clientID accountID) of None \<Rightarrow> 0 | Some t \<Rightarrow> t)"

definition leaseLess :: "relay_lease \<Rightarrow> relay_lease \<Rightarrow> string \<Rightarrow> int \<Rightarrow> bool" where
  "leaseLess a b preferred now =
     (let ar = resetRank (WeeklyResetsAtMS (rl_Lease a)) now; br = resetRank (WeeklyResetsAtMS (rl_Lease b)) now in
      if ar \<noteq> br then ar < br else
      let ar = resetRank (ShortResetsAtMS (rl_Lease a)) now; br = resetRank (ShortResetsAtMS (rl_Lease b)) now in
      if ar \<noteq> br then ar < br else
      let ap = rl_AccountID a \<noteq> preferred; bp = rl_AccountID b \<noteq> preferred in
      if ap \<noteq> bp then \<not> ap
      else if rl_CreatedAtMS a \<noteq> rl_CreatedAtMS b then rl_CreatedAtMS a < rl_CreatedAtMS b
      else rl_AccountID a < rl_AccountID b)"

subsection \<open>Routing from the cache\<close>

definition allowed :: "relay_state \<Rightarrow> string \<Rightarrow> string \<Rightarrow> bool" where
  "allowed s clientID accountID =
     (case find (\<lambda>client. rc_ID client = clientID) (sn_Clients (st_Snapshot s)) of
        None \<Rightarrow> False
      | Some client \<Rightarrow> \<not> rc_Restricted client \<or> accountID \<in> set (rc_AllowedAccountIDs client))"

text \<open>The failure part of localRoute: queue the event, block or exclude, save.\<close>

definition record_failure :: "string \<Rightarrow> save_outcome \<Rightarrow> string \<Rightarrow> string \<Rightarrow> string \<Rightarrow> int \<Rightarrow> int \<Rightarrow> Relay
    \<Rightarrow> Relay \<times> go_error option" where
  "record_failure newID out clientID accountID kind expires now r =
     (case queueLocked (new_event r newID ''failure'' accountID clientID kind [] now) True (st_Outbox (re_state r)) of
        Inl e \<Rightarrow> (r, Some e)
      | Inr outbox \<Rightarrow>
          (let s = (re_state r)\<lparr>st_Outbox := outbox\<rparr>;
               s = (if kind = ''quota'' then blockQuotaLocked accountID now s
                    else s\<lparr>st_Exclusions := (st_Exclusions s)(exclusion_key clientID accountID \<mapsto> expires)\<rparr>)
           in saveLocked out (r\<lparr>re_state := s\<rparr>)))"

definition failure_expiry :: "relay_state \<Rightarrow> string \<Rightarrow> int \<Rightarrow> int" where
  "failure_expiry s accountID now =
     (case find (\<lambda>item. rl_AccountID item = accountID) (sn_Leases (st_Snapshot s)) of
        None \<Rightarrow> now + five_minutes
      | Some item \<Rightarrow> let reset = leaseReset (rl_Lease item) now
                     in if 0 < reset then reset else now + five_minutes)"

definition routable :: "relay_state \<Rightarrow> string \<Rightarrow> int \<Rightarrow> relay_lease \<Rightarrow> bool" where
  "routable s clientID now item \<longleftrightarrow>
     \<not> (\<not> allowed s clientID (rl_AccountID item) \<or> ExpiresAtMS (rl_Lease item) \<le> now
        \<or> lease_exhausted (rl_Lease item) now \<or> quotaBlockedLocked s (rl_Lease item) now
        \<or> now < exclusion s clientID (rl_AccountID item))"

definition retry_candidates :: "relay_state \<Rightarrow> string \<Rightarrow> int \<Rightarrow> relay_lease \<Rightarrow> int list" where
  "retry_candidates s clientID now item =
     (let account = rl_AccountID item; expires = exclusion s clientID account;
          reset = leaseReset (rl_Lease item) now
      in (if now < expires then [expires] else [])
         @ (case st_QuotaBlocks s account of
              Some block \<Rightarrow> if quotaBlockedLocked s (rl_Lease item) now then [qb_RetryAtMS block] else []
            | None \<Rightarrow> [])
         @ (if now < reset then [reset] else []))"

definition next_retry :: "relay_state \<Rightarrow> string \<Rightarrow> int \<Rightarrow> int" where
  "next_retry s clientID now =
     fold (\<lambda>candidate next. if candidate < next then candidate else next)
       (concat (map (\<lambda>item. if allowed s clientID (rl_AccountID item)
                              then retry_candidates s clientID now item else [])
                  (sn_Leases (st_Snapshot s))))
       MaxInt64"

definition select_lease :: "relay_state \<Rightarrow> string \<Rightarrow> string \<Rightarrow> int \<Rightarrow> route_answer" where
  "select_lease s clientID preferred now =
     (let candidates = filter (routable s clientID now) (sn_Leases (st_Snapshot s));
          reserve = filter (\<lambda>item. rl_Reserve item \<and> now < rl_PermitExpiresAtMS item) candidates;
          active = filter (\<lambda>item. \<not> rl_Reserve item) candidates;
          selectedReserve = (active = [] \<and> reserve \<noteq> []);
          active = (if selectedReserve then reserve else active)
      in if active = [] then
           (let next = next_retry s clientID now in
            if next = MaxInt64 then Inl (OtherError ''no cached account is usable'')
            else Inr (None, Some \<lparr>NextRetryAtMS = next, RetryAfterSeconds = ceil_seconds (next - now)\<rparr>))
         else
           (let selected = hd (sort_slice (\<lambda>a b. leaseLess a b preferred now) active);
                lease = rl_Lease selected;
                lease = (if selectedReserve
                         then lease\<lparr>Reserve := True, PermitEpoch := rl_PermitEpoch selected,
                                    PermitExpiresAtMS := rl_PermitExpiresAtMS selected\<rparr>
                         else lease)
            in Inr (Some lease, None)))"

definition localRoute :: "string \<Rightarrow> save_outcome \<Rightarrow> string \<Rightarrow> RouteRequest \<Rightarrow> int \<Rightarrow> Relay \<Rightarrow> Relay \<times> route_answer" where
  "localRoute newID out clientID request now r =
     (let failed = FailedAccountID request; s = re_state r in
      if \<not> readyLocked r now then (r, Inl (OtherError ''relay cache is stale''))
      else if failed \<noteq> [] \<and> \<not> allowed s clientID failed
        then (r, Inl (NewError ''FAILED_ACCOUNT_INVALID'' ''Failed account is not routable'' 422))
      else if failed \<noteq> [] \<and> FailureKind request \<noteq> [] then
        (case record_failure newID out clientID failed (FailureKind request)
                (failure_expiry s failed now) now r of
           (r', Some e) \<Rightarrow> (r', Inl e)
         | (r', None) \<Rightarrow> (r', select_lease (re_state r') clientID (PreferredAccountID request) now))
      else (r, select_lease s clientID (PreferredAccountID request) now))"

text \<open>A lease the primary granted replaces the cached one.\<close>

fun replace_lease :: "Lease \<Rightarrow> relay_lease list \<Rightarrow> relay_lease list option" where
  "replace_lease lease [] = None"
| "replace_lease lease (item # items) =
     (if rl_AccountID item = AccountID lease then Some (item\<lparr>rl_Lease := lease\<rparr> # items)
      else map_option ((#) item) (replace_lease lease items))"

definition updateLease :: "save_outcome \<Rightarrow> Lease \<Rightarrow> int \<Rightarrow> Relay \<Rightarrow> Relay \<times> go_error option" where
  "updateLease out lease now r =
     (let s = re_state r; snapshot = st_Snapshot s; leases = sn_Leases snapshot;
          leases' = (case replace_lease lease leases of
                       Some ls \<Rightarrow> ls
                     | None \<Rightarrow> leases @ [\<lparr>rl_Lease = lease, rl_CycleState = ''IN_CYCLE'',
                                 rl_CreatedAtMS = now, rl_Reserve = False, rl_PermitEpoch = [],
                                 rl_PermitExpiresAtMS = 0\<rparr>])
      in saveLocked out (r\<lparr>re_state := s\<lparr>st_Snapshot := snapshot\<lparr>sn_Leases := leases'\<rparr>\<rparr>\<rparr>))"

definition authoritativeError :: "int \<Rightarrow> bool" where
  "authoritativeError status \<longleftrightarrow> status \<in> {400, 401, 403, 409, 422}"

text \<open>
  Route: the primary answers while it is reachable, and its refusals are final; any other
  failure of the call takes the relay offline and routes from the cache.
\<close>

definition relay_Route :: "(Lease option \<times> PoolWait option) call_result \<Rightarrow> string \<Rightarrow> save_outcome \<Rightarrow> string
    \<Rightarrow> RouteRequest \<Rightarrow> int \<Rightarrow> Relay \<Rightarrow> Relay \<times> route_answer" where
  "relay_Route response newID out clientID request now r =
     (if re_online r then
        (case response of
           CallOk (Some lease, wait) \<Rightarrow>
             (case updateLease out lease now r of
                (r', Some e) \<Rightarrow> (r', Inl e)
              | (r', None) \<Rightarrow> (r', Inr (Some lease, wait)))
         | CallOk (None, wait) \<Rightarrow> (r, Inr (None, wait))
         | CallStatus status \<Rightarrow>
             if authoritativeError status then (r, Inl (OtherError ''broker returned HTTP''))
             else localRoute newID out clientID request now (r\<lparr>re_online := False\<rparr>)
         | CallFailed \<Rightarrow> localRoute newID out clientID request now (r\<lparr>re_online := False\<rparr>))
      else localRoute newID out clientID request now r)"

subsection \<open>Telemetry, failures and reserve activation\<close>

definition relay_Observe :: "save_outcome \<Rightarrow> Observation \<Rightarrow> Relay \<Rightarrow> Relay \<times> go_error option" where
  "relay_Observe out v r =
     (let event = \<lparr>re_ID = ob_RequestID v, re_RelayID = cfg_RelayID r, re_Kind = ''telemetry'',
                   re_AccountID = [], re_ClientID = [], re_FailureKind = [], re_PermitEpoch = [],
                   re_OccurredAtMS = ob_TerminalEventAtMS v, re_Observation = Some v\<rparr>
      in case queueLocked event False (st_Outbox (re_state r)) of
           Inl e \<Rightarrow> (r, Some e)
         | Inr outbox \<Rightarrow> saveLocked out (r\<lparr>re_state := (re_state r)\<lparr>st_Outbox := outbox\<rparr>\<rparr>))"

definition relay_ReportFailure :: "string \<Rightarrow> save_outcome \<Rightarrow> unit call_result \<Rightarrow> string \<Rightarrow> string \<Rightarrow> string \<Rightarrow> int
    \<Rightarrow> Relay \<Rightarrow> Relay \<times> go_error option" where
  "relay_ReportFailure newID out response clientID accountID kind now r =
     (case record_failure newID out clientID accountID kind (now + five_minutes) now r of
        (r', Some e) \<Rightarrow> (r', Some e)
      | (r', None) \<Rightarrow>
          if re_online r' \<and> response \<noteq> CallOk () then (r'\<lparr>re_online := False\<rparr>, None) else (r', None))"

definition matches_permit :: "string \<Rightarrow> string \<Rightarrow> relay_lease \<Rightarrow> bool" where
  "matches_permit accountID epoch item \<longleftrightarrow> rl_AccountID item = accountID \<and> rl_PermitEpoch item = epoch"

definition release :: "relay_lease \<Rightarrow> relay_lease" where
  "release item = item\<lparr>rl_Reserve := False, rl_CycleState := ''IN_CYCLE''\<rparr>"

fun release_first :: "(relay_lease \<Rightarrow> bool) \<Rightarrow> relay_lease list \<Rightarrow> relay_lease list option" where
  "release_first P [] = None"
| "release_first P (item # items) =
     (if P item then Some (release item # items) else map_option ((#) item) (release_first P items))"

definition relay_Activate :: "string \<Rightarrow> save_outcome \<Rightarrow> Lease \<Rightarrow> int \<Rightarrow> Relay \<Rightarrow> Relay \<times> go_error option" where
  "relay_Activate newID out lease now r =
     (if \<not> Reserve lease then (r, None)
      else let s = re_state r; snapshot = st_Snapshot s in
        case release_first (\<lambda>item. matches_permit (AccountID lease) (PermitEpoch lease) item \<and> rl_Reserve item)
               (sn_Leases snapshot) of
          None \<Rightarrow> (r, None)
        | Some leases \<Rightarrow>
            (case queueLocked (new_event r newID ''activation'' (AccountID lease) [] [] (PermitEpoch lease) now)
                    True (st_Outbox s) of
               Inl e \<Rightarrow> (r, Some e)
             | Inr outbox \<Rightarrow>
                 saveLocked out (r\<lparr>re_state := s\<lparr>st_Outbox := outbox,
                                     st_Snapshot := snapshot\<lparr>sn_Leases := leases\<rparr>\<rparr>\<rparr>)))"

subsection \<open>Synchronising with the primary\<close>

text \<open>
  flush sends at most 100 events without holding \<open>mu\<close> and removes as many from the front
  afterwards: two steps, between which other operations may run.
\<close>

definition flush_batch :: "Relay \<Rightarrow> relay_event list" where
  "flush_batch r = take 100 (st_Outbox (re_state r))"

definition flush_commit :: "save_outcome \<Rightarrow> nat \<Rightarrow> Relay \<Rightarrow> Relay \<times> go_error option" where
  "flush_commit out n r =
     saveLocked out (r\<lparr>re_state := (re_state r)\<lparr>st_Outbox := drop n (st_Outbox (re_state r))\<rparr>\<rparr>)"

definition flush :: "unit call_result \<Rightarrow> save_outcome \<Rightarrow> Relay \<Rightarrow> Relay \<times> go_error option" where
  "flush response out r =
     (let events = flush_batch r in
      if events = [] then (r, None)
      else if response \<noteq> CallOk () then (r, Some (OtherError ''relay call failed''))
      else flush_commit out (length events) r)"

definition apply_activations :: "relay_event list \<Rightarrow> relay_lease list \<Rightarrow> relay_lease list" where
  "apply_activations outbox leases =
     fold (\<lambda>event items. if re_Kind event \<noteq> ''activation'' then items
             else map (\<lambda>item. if matches_permit (re_AccountID event) (re_PermitEpoch event) item
                              then release item else item) items)
       outbox leases"

definition prune_exclusions :: "int \<Rightarrow> (string \<Rightarrow> int option) \<Rightarrow> (string \<Rightarrow> int option)" where
  "prune_exclusions now m = (\<lambda>k. case m k of Some t \<Rightarrow> if t \<le> now then None else Some t | None \<Rightarrow> None)"

text \<open>What sync does with the snapshot it fetched.\<close>

definition install_snapshot :: "Snapshot \<Rightarrow> save_outcome \<Rightarrow> int \<Rightarrow> Relay \<Rightarrow> Relay \<times> go_error option" where
  "install_snapshot snapshot out now r =
     (if sn_ProtocolVersion snapshot \<noteq> Version \<or> sn_RelayID snapshot \<noteq> cfg_RelayID r
      then (r\<lparr>re_online := False\<rparr>, Some (OtherError ''snapshot rejected''))
      else
        (let s = re_state r;
             s' = s\<lparr>st_Snapshot := snapshot\<lparr>sn_Leases := apply_activations (st_Outbox s) (sn_Leases snapshot)\<rparr>,
                    st_Exclusions := prune_exclusions now (st_Exclusions s)\<rparr>
         in case saveLocked out (r\<lparr>re_state := s', re_online := True\<rparr>) of
              (r', Some e) \<Rightarrow> (r'\<lparr>re_online := False\<rparr>, Some e)
            | (r', None) \<Rightarrow> (r', None)))"

definition sync :: "unit call_result \<Rightarrow> save_outcome \<Rightarrow> Snapshot call_result \<Rightarrow> save_outcome \<Rightarrow> int \<Rightarrow> Relay
    \<Rightarrow> Relay \<times> Heartbeat option" where
  "sync flushed out1 fetched out2 now r =
     (case flush flushed out1 r of
        (r1, Some _) \<Rightarrow> (r1\<lparr>re_online := False\<rparr>, None)
      | (r1, None) \<Rightarrow>
          (case fetched of
             CallOk snapshot \<Rightarrow>
               (case install_snapshot snapshot out2 now r1 of
                  (r2, Some _) \<Rightarrow> (r2, None)
                | (r2, None) \<Rightarrow>
                    (r2, Some \<lparr>hb_RelayID = cfg_RelayID r2, hb_SnapshotID = sn_SnapshotID snapshot,
                          hb_ProtocolVersion = Version, hb_CacheGeneratedAtMS = sn_GeneratedAtMS snapshot,
                          hb_Ready = readyLocked r2 now\<rparr>))
           | _ \<Rightarrow> (r1\<lparr>re_online := False\<rparr>, None)))"


subsection \<open>The running edge\<close>

text \<open>
  The operations of a running relay, interleaved in any order, with the batch that flush has
  sent and not yet removed (\<open>flushMu\<close> allows one). A restart opens the cache file again. The
  primary publishes one lease per account, and a lease that arrives as JSON has no reserve mark
  of its own (the field has the tag \<open>json:"-"\<close>). The move says which kind of step was taken.
\<close>

record relay_system =
  sys_relay :: Relay
  sys_sent :: "relay_event list option"

datatype relay_move = Serving | Sending | Committing | Giving_Up | Restarting

definition empty_state :: relay_state where
  "empty_state = \<lparr>st_Snapshot = \<lparr>sn_ProtocolVersion = 0, sn_SnapshotID = [], sn_RelayID = [],
       sn_PoolEpoch = [], sn_GeneratedAtMS = 0, sn_Clients = [], sn_Leases = []\<rparr>,
     st_Outbox = [], st_Exclusions = Map.empty, st_QuotaBlocks = Map.empty\<rparr>"

definition relay_Open :: "Relay \<Rightarrow> go_error + Relay" where
  "relay_Open r =
     (if re_disk r = None then Inr (r\<lparr>re_state := empty_state, re_online := False\<rparr>)
      else case load (r\<lparr>re_state := empty_state, re_online := False\<rparr>) of
             (r', None) \<Rightarrow> Inr r'
           | (_, Some e) \<Rightarrow> Inl e)"

definition relay_start :: "relay_system \<Rightarrow> bool" where
  "relay_start s \<longleftrightarrow> re_disk (sys_relay s) = None \<and> re_state (sys_relay s) = empty_state
     \<and> \<not> re_online (sys_relay s) \<and> sys_sent s = None"

inductive relay_step :: "relay_move \<Rightarrow> relay_system \<Rightarrow> relay_system \<Rightarrow> bool" where
  route: "(\<And>lease wait. response = CallOk (Some lease, wait) \<Longrightarrow> \<not> Reserve lease) \<Longrightarrow>
    relay_Route response newID out clientID request now r = (r', answer) \<Longrightarrow>
    relay_step Serving \<lparr>sys_relay = r, sys_sent = b\<rparr> \<lparr>sys_relay = r', sys_sent = b\<rparr>"
| observe: "relay_Observe out v r = (r', e) \<Longrightarrow>
    relay_step Serving \<lparr>sys_relay = r, sys_sent = b\<rparr> \<lparr>sys_relay = r', sys_sent = b\<rparr>"
| report: "relay_ReportFailure newID out reported clientID accountID kind now r = (r', e) \<Longrightarrow>
    relay_step Serving \<lparr>sys_relay = r, sys_sent = b\<rparr> \<lparr>sys_relay = r', sys_sent = b\<rparr>"
| activate: "relay_Activate newID out lease now r = (r', e) \<Longrightarrow>
    relay_step Serving \<lparr>sys_relay = r, sys_sent = b\<rparr> \<lparr>sys_relay = r', sys_sent = b\<rparr>"
| install: "distinct (map rl_AccountID (sn_Leases snapshot)) \<Longrightarrow>
    \<forall>item\<in>set (sn_Leases snapshot). \<not> Reserve (rl_Lease item) \<Longrightarrow>
    install_snapshot snapshot out now r = (r', e) \<Longrightarrow>
    relay_step Serving \<lparr>sys_relay = r, sys_sent = None\<rparr> \<lparr>sys_relay = r', sys_sent = None\<rparr>"
| send: "flush_batch r \<noteq> [] \<Longrightarrow>
    relay_step Sending \<lparr>sys_relay = r, sys_sent = None\<rparr> \<lparr>sys_relay = r, sys_sent = Some (flush_batch r)\<rparr>"
| commit: "flush_commit out (length events) r = (r', e) \<Longrightarrow>
    relay_step Committing \<lparr>sys_relay = r, sys_sent = Some events\<rparr> \<lparr>sys_relay = r', sys_sent = None\<rparr>"
| give_up:
    "relay_step Giving_Up \<lparr>sys_relay = r, sys_sent = Some events\<rparr>
       \<lparr>sys_relay = r\<lparr>re_online := False\<rparr>, sys_sent = None\<rparr>"
| restart: "relay_Open r = Inr r' \<Longrightarrow>
    relay_step Restarting \<lparr>sys_relay = r, sys_sent = b\<rparr> \<lparr>sys_relay = r', sys_sent = None\<rparr>"

inductive_cases relay_stepE: "relay_step m s t"

definition relay_any_step :: "relay_system \<Rightarrow> relay_system \<Rightarrow> bool" where
  "relay_any_step s t \<longleftrightarrow> (\<exists>m. relay_step m s t)"

end
