(* ===== verification/Relay_Correct.thy ===== *)
theory Relay_Correct
  imports Relay_Edge
begin

text \<open>
  Correctness of the relay edge: the invariant of its state (bounded outbox, one cached lease
  per account, no reserve lease whose activation is still pending) over every interleaving of
  its operations, restarts from the cache file included; what a lease routed from the cache
  guarantees; and what reconciling the outbox loses and keeps.
\<close>

subsection \<open>The outbox\<close>

lemma remove_first_telemetry_SomeD:
  "remove_first_telemetry es = Some rest \<Longrightarrow>
   \<exists>i<length es. is_telemetry (es ! i) \<and> (\<forall>j<i. \<not> is_telemetry (es ! j)) \<and> rest = take i es @ drop (Suc i) es"
proof (induction es arbitrary: rest)
  case Nil
  then show ?case by simp
next
  case (Cons e es)
  show ?case
  proof (cases "is_telemetry e")
    case True
    then show ?thesis using Cons.prems by (intro exI [of _ 0]) simp
  next
    case False
    then obtain rest' where r: "remove_first_telemetry es = Some rest'" "rest = e # rest'"
      using Cons.prems by auto
    from Cons.IH [OF r(1)] obtain i where
      "i < length es" "is_telemetry (es ! i)" "\<forall>j<i. \<not> is_telemetry (es ! j)"
      "rest' = take i es @ drop (Suc i) es" by blast
    then show ?thesis
      using r(2) False by (intro exI [of _ "Suc i"]) (auto simp: less_Suc_eq_0_disj)
  qed
qed

lemma remove_first_telemetry_critical:
  "remove_first_telemetry es = Some rest \<Longrightarrow>
   filter (\<lambda>e. \<not> is_telemetry e) rest = filter (\<lambda>e. \<not> is_telemetry e) es"
  by (induction es arbitrary: rest) (auto split: if_splits)

lemma remove_first_telemetry_length:
  "remove_first_telemetry es = Some rest \<Longrightarrow> Suc (length rest) = length es \<and> set rest \<subseteq> set es"
  by (induction es arbitrary: rest) (auto split: if_splits)

lemma queueLocked_length:
  "queueLocked e critical es = Inr es' \<Longrightarrow> length es \<le> outboxLimit \<Longrightarrow> length es' \<le> outboxLimit"
  by (auto simp: queueLocked_def dest: remove_first_telemetry_length split: if_splits option.splits)

lemma queueLocked_set: "queueLocked e critical es = Inr es' \<Longrightarrow> set es' \<subseteq> insert e (set es)"
  by (auto simp: queueLocked_def split: if_splits option.splits dest!: remove_first_telemetry_length)

lemma queueLocked_critical:
  "queueLocked e critical es = Inr es' \<Longrightarrow>
   filter (\<lambda>e. \<not> is_telemetry e) es' = filter (\<lambda>e. \<not> is_telemetry e) (es @ [e])"
  by (auto simp: queueLocked_def dest: remove_first_telemetry_critical split: if_splits option.splits)

lemma queueLocked_mem: "queueLocked e critical es = Inr es' \<Longrightarrow> e \<in> set es'"
  by (auto simp: queueLocked_def split: if_splits option.splits)

subsection \<open>The invariant\<close>

definition pending_activation :: "relay_event list \<Rightarrow> string \<Rightarrow> string \<Rightarrow> bool" where
  "pending_activation outbox accountID epoch \<longleftrightarrow>
     list_ex (\<lambda>e. re_Kind e = ''activation'' \<and> re_AccountID e = accountID \<and> re_PermitEpoch e = epoch) outbox"

definition activations_applied :: "relay_event list \<Rightarrow> relay_lease list \<Rightarrow> bool" where
  "activations_applied outbox leases \<longleftrightarrow>
     (\<forall>item\<in>set leases. rl_Reserve item \<longrightarrow> \<not> pending_activation outbox (rl_AccountID item) (rl_PermitEpoch item))"

definition state_inv :: "relay_state \<Rightarrow> bool" where
  "state_inv s \<longleftrightarrow> length (st_Outbox s) \<le> outboxLimit
     \<and> distinct (map rl_AccountID (sn_Leases (st_Snapshot s)))
     \<and> activations_applied (st_Outbox s) (sn_Leases (st_Snapshot s))
     \<and> (\<forall>item\<in>set (sn_Leases (st_Snapshot s)). \<not> Reserve (rl_Lease item))"

definition relay_inv :: "Relay \<Rightarrow> bool" where
  "relay_inv r \<longleftrightarrow> state_inv (re_state r)
     \<and> (case re_disk r of None \<Rightarrow> True | Some (_, _, s) \<Rightarrow> state_inv s)"

lemma relay_inv_saveLocked:
  "relay_inv r \<Longrightarrow> state_inv s \<Longrightarrow> relay_inv (fst (saveLocked out (r\<lparr>re_state := s\<rparr>)))"
  by (auto simp: relay_inv_def saveLocked_def Let_def split: save_outcome.splits)

lemma relay_inv_saveLocked_online:
  "relay_inv r \<Longrightarrow> state_inv s \<Longrightarrow> relay_inv (fst (saveLocked out (r\<lparr>re_state := s, re_online := b\<rparr>)))"
  by (auto simp: relay_inv_def saveLocked_def Let_def split: save_outcome.splits)

lemma relay_inv_online [simp]: "relay_inv (r\<lparr>re_online := b\<rparr>) = relay_inv r"
  by (simp add: relay_inv_def)

lemma pending_activation_mono:
  "pending_activation es a p \<Longrightarrow> set es \<subseteq> insert e (set es') \<Longrightarrow> re_Kind e \<noteq> ''activation'' \<Longrightarrow>
   pending_activation es' a p"
  by (auto simp: pending_activation_def list_ex_iff)

lemma activations_applied_queue:
  assumes "queueLocked e critical es = Inr es'" and "re_Kind e \<noteq> ''activation''"
    and "activations_applied es leases"
  shows "activations_applied es' leases"
  using assms(3) pending_activation_mono [OF _ queueLocked_set [OF assms(1)] assms(2)]
  unfolding activations_applied_def by blast

lemma blockQuotaLocked_frame [simp]:
  "st_Outbox (blockQuotaLocked a now s) = st_Outbox s"
  "st_Snapshot (blockQuotaLocked a now s) = st_Snapshot s"
  "st_Exclusions (blockQuotaLocked a now s) = st_Exclusions s"
  by (simp_all add: blockQuotaLocked_def Let_def)

lemma new_event_fields [simp]:
  "re_Kind (new_event r i kind account client failure epoch now) = kind"
  "re_AccountID (new_event r i kind account client failure epoch now) = account"
  "re_PermitEpoch (new_event r i kind account client failure epoch now) = epoch"
  by (simp_all add: new_event_def)

lemma relay_inv_record_failure:
  assumes "relay_inv r"
  shows "relay_inv (fst (record_failure newID out clientID accountID kind expires now r))"
proof (cases "queueLocked (new_event r newID ''failure'' accountID clientID kind [] now) True (st_Outbox (re_state r))")
  case (Inl e)
  then show ?thesis using assms by (simp add: record_failure_def)
next
  case (Inr outbox)
  then have "length outbox \<le> outboxLimit" "activations_applied outbox (sn_Leases (st_Snapshot (re_state r)))"
    using assms queueLocked_length activations_applied_queue
    by (auto simp: relay_inv_def state_inv_def)
  then show ?thesis
    using assms Inr
    by (auto simp: record_failure_def Let_def intro!: relay_inv_saveLocked)
      (auto simp: relay_inv_def state_inv_def)
qed

lemma relay_inv_localRoute: "relay_inv r \<Longrightarrow> relay_inv (fst (localRoute newID out clientID request now r))"
  using relay_inv_record_failure [of r newID out clientID "FailedAccountID request" "FailureKind request"
      "failure_expiry (re_state r) (FailedAccountID request) now" now]
  by (auto simp: localRoute_def Let_def split: prod.splits option.splits)

lemma replace_lease_SomeD:
  "replace_lease lease items = Some items' \<Longrightarrow>
   map rl_AccountID items' = map rl_AccountID items
   \<and> (\<forall>item\<in>set items'. rl_Lease item = lease \<or> item \<in> set items)
   \<and> (\<forall>item\<in>set items'. rl_Reserve item \<longrightarrow>
        (\<exists>old\<in>set items. rl_Reserve old \<and> rl_AccountID old = rl_AccountID item
           \<and> rl_PermitEpoch old = rl_PermitEpoch item))"
proof (induction items arbitrary: items')
  case Nil
  then show ?case by simp
next
  case (Cons x xs)
  show ?case
  proof (cases "rl_AccountID x = AccountID lease")
    case True
    then show ?thesis using Cons.prems by auto
  next
    case False
    then obtain ys where ys: "replace_lease lease xs = Some ys" "items' = x # ys"
      using Cons.prems by auto
    show ?thesis using Cons.IH [OF ys(1)] ys(2) by auto
  qed
qed

lemma replace_lease_None: "replace_lease lease items = None \<Longrightarrow> AccountID lease \<notin> rl_AccountID ` set items"
  by (induction items) (auto split: if_splits)

lemma relay_inv_updateLease:
  assumes "relay_inv r" and "\<not> Reserve lease"
  shows "relay_inv (fst (updateLease out lease now r))"
proof -
  let ?leases = "sn_Leases (st_Snapshot (re_state r))"
  have inv: "state_inv (re_state r)" using assms by (simp add: relay_inv_def)
  show ?thesis
  proof (cases "replace_lease lease ?leases")
    case None
    then show ?thesis
      using replace_lease_None [OF None] inv assms
      by (auto simp: updateLease_def Let_def state_inv_def activations_applied_def
          intro!: relay_inv_saveLocked)
  next
    case (Some ls)
    have "activations_applied (st_Outbox (re_state r)) ls"
      using replace_lease_SomeD [OF Some] inv
      by (fastforce simp: state_inv_def activations_applied_def)
    moreover have "\<forall>item\<in>set ls. \<not> Reserve (rl_Lease item)"
      using replace_lease_SomeD [OF Some] inv assms(2) by (fastforce simp: state_inv_def)
    ultimately show ?thesis
      using replace_lease_SomeD [OF Some] inv assms Some
      by (auto simp: updateLease_def Let_def state_inv_def intro!: relay_inv_saveLocked)
  qed
qed

lemma relay_inv_Route:
  assumes "relay_inv r" and "\<And>lease wait. response = CallOk (Some lease, wait) \<Longrightarrow> \<not> Reserve lease"
  shows "relay_inv (fst (relay_Route response newID out clientID request now r))"
proof -
  have local: "relay_inv (fst (localRoute newID out clientID request now r))"
    "relay_inv (fst (localRoute newID out clientID request now (r\<lparr>re_online := False\<rparr>)))"
    using assms by (simp_all add: relay_inv_localRoute)
  have "relay_inv (fst (case updateLease out lease now r of
          (r', Some e) \<Rightarrow> (r', Inl e) | (r', None) \<Rightarrow> (r', Inr (Some lease, wait))))"
    if "\<not> Reserve lease" for lease wait
    using relay_inv_updateLease [OF assms(1) that, of out now]
    by (auto split: prod.split option.split)
  then show ?thesis
    using local assms(1) assms(2) by (auto simp: relay_Route_def split: call_result.split option.split)
qed

lemma relay_inv_Observe: "relay_inv r \<Longrightarrow> relay_inv (fst (relay_Observe out v r))"
  using activations_applied_queue
  by (auto simp: relay_Observe_def Let_def relay_inv_def [of r] state_inv_def
      intro!: relay_inv_saveLocked dest: queueLocked_length split: sum.splits)

lemma relay_inv_ReportFailure:
  "relay_inv r \<Longrightarrow> relay_inv (fst (relay_ReportFailure newID out response clientID accountID kind now r))"
  using relay_inv_record_failure [of r newID out clientID accountID kind "now + five_minutes" now]
  by (auto simp: relay_ReportFailure_def split: prod.split option.split)

lemma release_first_SomeD:
  "release_first P items = Some items' \<Longrightarrow>
   \<exists>i<length items. P (items ! i) \<and> items' = items[i := release (items ! i)]"
proof (induction items arbitrary: items')
  case Nil
  then show ?case by simp
next
  case (Cons x xs)
  show ?case
  proof (cases "P x")
    case True
    then show ?thesis using Cons.prems by (intro exI [of _ 0]) auto
  next
    case False
    then obtain ys where ys: "release_first P xs = Some ys" "items' = x # ys"
      using Cons.prems by auto
    from Cons.IH [OF ys(1)] obtain i where "i < length xs" "P (xs ! i)"
      "ys = xs[i := release (xs ! i)]" by blast
    then show ?thesis using ys(2) by (intro exI [of _ "Suc i"]) auto
  qed
qed

lemma release_fields [simp]:
  "rl_Lease (release item) = rl_Lease item" "rl_Reserve (release item) = False"
  "rl_PermitEpoch (release item) = rl_PermitEpoch item"
  by (simp_all add: release_def)

text \<open>With one cached lease per account, releasing the first match releases the only one.\<close>

lemma activations_applied_release:
  assumes applied: "activations_applied es leases" and dist: "distinct (map rl_AccountID leases)"
    and rel: "release_first (\<lambda>item. matches_permit a p item \<and> rl_Reserve item) leases = Some leases'"
    and es': "set es' \<subseteq> insert (new_event r newID ''activation'' a [] [] p now) (set es)"
  shows "activations_applied es' leases'"
  unfolding activations_applied_def
proof (intro ballI impI notI)
  fix item
  assume item: "item \<in> set leases'" "rl_Reserve item"
    and pend: "pending_activation es' (rl_AccountID item) (rl_PermitEpoch item)"
  obtain i where i: "i < length leases" "matches_permit a p (leases ! i)"
    "leases' = leases[i := release (leases ! i)]"
    using release_first_SomeD [OF rel] by blast
  then obtain j where j: "j < length leases" "item = leases ! j" "j \<noteq> i"
    using item by (metis in_set_conv_nth length_list_update nth_list_update nth_list_update_neq release_fields(2))
  then have "\<not> pending_activation es (rl_AccountID item) (rl_PermitEpoch item)"
    using applied item by (simp add: activations_applied_def)
  then have "rl_AccountID item = a"
    using pend es' by (auto simp: pending_activation_def list_ex_iff)
  then have "rl_AccountID (leases ! j) = rl_AccountID (leases ! i)"
    using i j by (simp add: matches_permit_def)
  then show False
    using dist i(1) j(1,3) by (metis distinct_conv_nth length_map nth_map)
qed

lemma release_first_leases:
  "release_first P items = Some items' \<Longrightarrow> map rl_Lease items' = map rl_Lease items"
  by (induction items arbitrary: items') (auto split: if_splits)

lemma release_first_accounts:
  assumes "release_first P items = Some items'"
  shows "map rl_AccountID items' = map rl_AccountID items"
    and "(\<forall>item\<in>set items'. \<not> Reserve (rl_Lease item)) = (\<forall>item\<in>set items. \<not> Reserve (rl_Lease item))"
proof -
  have "map AccountID (map rl_Lease items') = map AccountID (map rl_Lease items)"
    using release_first_leases [OF assms] by simp
  then show "map rl_AccountID items' = map rl_AccountID items" by (simp add: comp_def)
  have "set (map rl_Lease items') = set (map rl_Lease items)"
    using release_first_leases [OF assms] by simp
  then have "rl_Lease ` set items' = rl_Lease ` set items" by simp
  then have "(\<forall>l\<in>rl_Lease ` set items'. \<not> Reserve l) = (\<forall>l\<in>rl_Lease ` set items. \<not> Reserve l)" by simp
  then show "(\<forall>item\<in>set items'. \<not> Reserve (rl_Lease item)) = (\<forall>item\<in>set items. \<not> Reserve (rl_Lease item))"
    by simp
qed

lemma relay_inv_Activate:
  assumes "relay_inv r"
  shows "relay_inv (fst (relay_Activate newID out lease now r))"
proof -
  let ?s = "re_state r" and ?a = "AccountID lease" and ?p = "PermitEpoch lease"
  let ?e = "new_event r newID ''activation'' ?a [] [] ?p now"
  have inv: "state_inv ?s" using assms by (simp add: relay_inv_def)
  have "relay_inv (fst (saveLocked out (r\<lparr>re_state := ?s\<lparr>st_Outbox := es,
          st_Snapshot := (st_Snapshot ?s)\<lparr>sn_Leases := ls\<rparr>\<rparr>\<rparr>)))"
    if rel: "release_first (\<lambda>item. matches_permit ?a ?p item \<and> rl_Reserve item) (sn_Leases (st_Snapshot ?s)) = Some ls"
      and q: "queueLocked ?e True (st_Outbox ?s) = Inr es" for ls es
  proof (rule relay_inv_saveLocked [OF assms])
    show "state_inv (?s\<lparr>st_Outbox := es, st_Snapshot := (st_Snapshot ?s)\<lparr>sn_Leases := ls\<rparr>\<rparr>)"
      using inv queueLocked_length [OF q] release_first_accounts [OF rel]
        activations_applied_release [OF _ _ rel queueLocked_set [OF q]]
      by (simp add: state_inv_def)
  qed
  then show ?thesis
    using assms by (auto simp: relay_Activate_def Let_def split: option.split sum.split)
qed

lemma activations_applied_subset:
  "activations_applied es leases \<Longrightarrow> set es' \<subseteq> set es \<Longrightarrow> activations_applied es' leases"
  by (fastforce simp: activations_applied_def pending_activation_def list_ex_iff)

lemma relay_inv_flush_commit: "relay_inv r \<Longrightarrow> relay_inv (fst (flush_commit out n r))"
  unfolding flush_commit_def
  by (rule relay_inv_saveLocked, assumption)
    (auto simp: relay_inv_def state_inv_def intro: activations_applied_subset [OF _ set_drop_subset])

lemma map_release_accounts:
  "map rl_AccountID (map (\<lambda>item. if P item then release item else item) items) = map rl_AccountID items"
  by (induction items) auto

lemma apply_activations_spec:
  "map rl_AccountID (apply_activations es leases) = map rl_AccountID leases
   \<and> activations_applied es (apply_activations es leases)
   \<and> rl_Lease ` set (apply_activations es leases) = rl_Lease ` set leases"
proof (induction es rule: rev_induct)
  case Nil
  then show ?case by (simp add: apply_activations_def activations_applied_def pending_activation_def)
next
  case (snoc e es)
  have step: "apply_activations (es @ [e]) leases =
      (if re_Kind e \<noteq> ''activation'' then apply_activations es leases
       else map (\<lambda>item. if matches_permit (re_AccountID e) (re_PermitEpoch e) item
                          then release item else item) (apply_activations es leases))"
    by (simp add: apply_activations_def)
  have "map rl_AccountID (apply_activations (es @ [e]) leases) = map rl_AccountID leases"
    using snoc by (simp only: step map_release_accounts split: if_split) simp
  moreover have "activations_applied (es @ [e]) (apply_activations (es @ [e]) leases)"
    using snoc by (auto simp: step activations_applied_def pending_activation_def matches_permit_def)
  moreover have "rl_Lease ` set (map (\<lambda>item. if P item then release item else item) ls) = rl_Lease ` set ls"
    for P ls by (induction ls) auto
  then have "rl_Lease ` set (apply_activations (es @ [e]) leases) = rl_Lease ` set leases"
    using snoc by (simp only: step split: if_split) simp
  ultimately show ?case by blast
qed

lemma relay_inv_install_snapshot:
  assumes "relay_inv r" and "distinct (map rl_AccountID (sn_Leases snapshot))"
    and "\<forall>item\<in>set (sn_Leases snapshot). \<not> Reserve (rl_Lease item)"
  shows "relay_inv (fst (install_snapshot snapshot out now r))"
proof -
  let ?s' = "(re_state r)\<lparr>st_Snapshot := snapshot\<lparr>sn_Leases :=
       apply_activations (st_Outbox (re_state r)) (sn_Leases snapshot)\<rparr>,
     st_Exclusions := prune_exclusions now (st_Exclusions (re_state r))\<rparr>"
  have "state_inv ?s'"
    using assms apply_activations_spec [of "st_Outbox (re_state r)" "sn_Leases snapshot"]
    by (force simp: relay_inv_def state_inv_def)
  then have "relay_inv (fst (saveLocked out (r\<lparr>re_state := ?s', re_online := True\<rparr>)))"
    using assms(1) by (rule relay_inv_saveLocked_online [rotated])
  then show ?thesis
    using assms by (auto simp: install_snapshot_def Let_def split: prod.split option.split)
qed

lemma relay_inv_load: "relay_inv r \<Longrightarrow> relay_inv (fst (load r))"
  by (auto simp: load_def relay_inv_def split: option.splits)


lemma relay_inv_Open: "relay_inv r \<Longrightarrow> relay_Open r = Inr r' \<Longrightarrow> relay_inv r'"
  by (auto simp: relay_Open_def load_def relay_inv_def state_inv_def empty_state_def activations_applied_def
      split: if_splits option.splits prod.splits)

subsection \<open>What every operation does to the outbox\<close>

text \<open>
  Between two commits the outbox does not get shorter and its critical events stay, in order.
\<close>

abbreviation outbox_of :: "Relay \<Rightarrow> relay_event list" where
  "outbox_of r \<equiv> st_Outbox (re_state r)"

definition critical_events :: "Relay \<Rightarrow> relay_event list" where
  "critical_events r = filter (\<lambda>e. \<not> is_telemetry e) (outbox_of r)"

definition outbox_grows :: "Relay \<Rightarrow> Relay \<Rightarrow> bool" where
  "outbox_grows r r' \<longleftrightarrow> length (outbox_of r) \<le> length (outbox_of r')
     \<and> (length (outbox_of r) < outboxLimit \<longrightarrow> prefix (outbox_of r) (outbox_of r'))
     \<and> prefix (critical_events r) (critical_events r')"

lemma outbox_grows_refl: "outbox_of r' = outbox_of r \<Longrightarrow> outbox_grows r r'"
  by (simp add: outbox_grows_def critical_events_def)

lemma outbox_grows_queue:
  assumes "queueLocked e critical (outbox_of r) = Inr es" and "outbox_of r' = es"
  shows "outbox_grows r r'"
proof -
  have "length (outbox_of r) \<le> length es"
    using assms(1) by (auto simp: queueLocked_def split: if_splits option.splits dest!: remove_first_telemetry_length)
  moreover have "length (outbox_of r) < outboxLimit \<Longrightarrow> es = outbox_of r @ [e]"
    using assms(1) by (simp add: queueLocked_def)
  ultimately show ?thesis
    using queueLocked_critical [OF assms(1)] assms(2) by (auto simp: outbox_grows_def critical_events_def)
qed

lemma outbox_saveLocked [simp]: "outbox_of (fst (saveLocked out r)) = outbox_of r"
  by (simp add: saveLocked_def Let_def split: save_outcome.split)

lemma outbox_grows_record_failure: "outbox_grows r (fst (record_failure newID out c a k t now r))"
proof (cases "queueLocked (new_event r newID ''failure'' a c k [] now) True (outbox_of r)")
  case (Inl e)
  then show ?thesis by (simp add: record_failure_def outbox_grows_refl)
next
  case (Inr es)
  then show ?thesis by (intro outbox_grows_queue [OF Inr]) (simp add: record_failure_def Let_def)
qed

lemma outbox_grows_localRoute: "outbox_grows r (fst (localRoute newID out c request now r))"
  using outbox_grows_record_failure [of r newID out c "FailedAccountID request" "FailureKind request"
      "failure_expiry (re_state r) (FailedAccountID request) now" now]
  by (auto simp: localRoute_def Let_def outbox_grows_refl split: prod.splits option.splits)

lemma outbox_updateLease [simp]: "outbox_of (fst (updateLease out lease now r)) = outbox_of r"
  by (simp add: updateLease_def Let_def)

lemma outbox_grows_Route: "outbox_grows r (fst (relay_Route response newID out c request now r))"
proof -
  have local: "outbox_grows r (fst (localRoute newID out c request now r))"
    "outbox_grows r (fst (localRoute newID out c request now (r\<lparr>re_online := False\<rparr>)))"
    using outbox_grows_localRoute [of r] outbox_grows_localRoute [of "r\<lparr>re_online := False\<rparr>"]
    by (simp_all add: outbox_grows_def critical_events_def)
  have "outbox_grows r (fst (case updateLease out lease now r of
          (r', Some e) \<Rightarrow> (r', Inl e) | (r', None) \<Rightarrow> (r', Inr (Some lease, wait))))" for lease wait
    using outbox_updateLease [of out lease now r]
    by (auto simp del: outbox_updateLease split: prod.split option.split intro!: outbox_grows_refl)
  then show ?thesis
    using local by (auto simp: relay_Route_def outbox_grows_refl split: call_result.split option.split)
qed

lemma outbox_grows_Observe: "outbox_grows r (fst (relay_Observe out v r))"
  by (auto simp: relay_Observe_def Let_def outbox_grows_refl split: sum.split intro: outbox_grows_queue)

lemma outbox_grows_ReportFailure: "outbox_grows r (fst (relay_ReportFailure newID out response c a k now r))"
  using outbox_grows_record_failure [of r newID out c a k "now + five_minutes" now]
  by (auto simp: relay_ReportFailure_def outbox_grows_def critical_events_def split: prod.split option.split)

lemma outbox_grows_Activate: "outbox_grows r (fst (relay_Activate newID out lease now r))"
  by (auto simp: relay_Activate_def Let_def outbox_grows_refl split: option.split sum.split
      intro: outbox_grows_queue)

lemma outbox_install [simp]: "outbox_of (fst (install_snapshot snapshot out now r)) = outbox_of r"
  using outbox_saveLocked
  by (auto simp: install_snapshot_def Let_def saveLocked_def split: save_outcome.split)


subsection \<open>The invariant of the running edge\<close>

definition sent_in_range :: "relay_system \<Rightarrow> bool" where
  "sent_in_range s \<longleftrightarrow>
     (case sys_sent s of None \<Rightarrow> True | Some events \<Rightarrow> length events \<le> length (outbox_of (sys_relay s)))"

definition system_inv :: "relay_system \<Rightarrow> bool" where
  "system_inv s \<longleftrightarrow> relay_inv (sys_relay s) \<and> sent_in_range s"

lemma serving_step:
  assumes "relay_step Serving s t"
  shows "outbox_grows (sys_relay s) (sys_relay t) \<and> sys_sent t = sys_sent s
    \<and> (relay_inv (sys_relay s) \<longrightarrow> relay_inv (sys_relay t))"
  using assms
proof (cases rule: relay_step.cases)
  case (route response newID out clientID request now r r' answer b)
  then show ?thesis
    using outbox_grows_Route [of r response newID out clientID request now]
      relay_inv_Route [of r response newID out clientID request now] by simp
next
  case (observe out v r r' e b)
  then show ?thesis
    using outbox_grows_Observe [of r out v] relay_inv_Observe [of r out v] by simp
next
  case (report newID out reported clientID accountID kind now r r' e b)
  then show ?thesis
    using outbox_grows_ReportFailure [of r newID out reported clientID accountID kind now]
      relay_inv_ReportFailure [of r newID out reported clientID accountID kind now] by simp
next
  case (activate newID out lease now r r' e b)
  then show ?thesis
    using outbox_grows_Activate [of r newID out lease now] relay_inv_Activate [of r newID out lease now]
    by simp
next
  case (install snapshot out now r r' e)
  then show ?thesis
    using outbox_install [of snapshot out now r] relay_inv_install_snapshot [of r snapshot out now]
    by (simp add: outbox_grows_refl del: outbox_install)
qed

lemma system_inv_step: "system_inv s \<Longrightarrow> relay_any_step s t \<Longrightarrow> system_inv t"
  unfolding relay_any_step_def
proof (elim exE)
  fix m
  assume inv: "system_inv s" and step: "relay_step m s t"
  show "system_inv t"
  proof (cases m)
    case Serving
    then show ?thesis
      using serving_step [of s t] inv step
      by (auto simp: system_inv_def sent_in_range_def outbox_grows_def split: option.splits)
  next
    case Committing
    then show ?thesis
      using inv step relay_inv_flush_commit
      by (auto simp: system_inv_def sent_in_range_def elim!: relay_stepE) (metis fst_conv)
  qed (use inv step relay_inv_Open in \<open>auto simp: system_inv_def sent_in_range_def flush_batch_def
         elim!: relay_stepE\<close>)
qed

lemma system_inv_start: "relay_start s \<Longrightarrow> system_inv s"
  by (simp add: system_inv_def sent_in_range_def relay_inv_def state_inv_def empty_state_def
      relay_start_def activations_applied_def)

end
