(* ===== verification/Relay_Properties.thy ===== *)
theory Relay_Properties
  imports Relay_Correct
begin

text \<open>
  What the relay edge promises, over the definitions of \<open>Relay_Edge\<close>: the invariant of every
  run, the leases and waits it routes from its cache, and the reconciliation of its outbox.
\<close>

interpretation edge: inv_system relay_start relay_any_step system_inv
  by unfold_locales (auto intro: system_inv_start system_inv_step)

text \<open>The order of cached leases is the order of a key, so sorting by it puts a least lease first.\<close>

definition lease_key :: "string \<Rightarrow> int \<Rightarrow> relay_lease \<Rightarrow> int \<times> int \<times> bool \<times> int \<times> string" where
  "lease_key preferred now a =
     (resetRank (WeeklyResetsAtMS (rl_Lease a)) now, resetRank (ShortResetsAtMS (rl_Lease a)) now,
      rl_AccountID a \<noteq> preferred, rl_CreatedAtMS a, rl_AccountID a)"

interpretation lease_order: keyed_ranking "\<lambda>a b. leaseLess a b preferred now" "lease_key preferred now"
  for preferred now
  by unfold_locales (auto simp: leaseLess_def lease_key_def Let_def)

subsection \<open>Routing from the cache\<close>

lemma select_lease_sound:
  assumes "select_lease s clientID preferred now = Inr (Some lease, wait)"
  obtains item where "item \<in> set (sn_Leases (st_Snapshot s))" "routable s clientID now item"
    "AccountID lease = rl_AccountID item" "wait = None"
    "rl_Reserve item \<longrightarrow> now < rl_PermitExpiresAtMS item \<and> Reserve lease
       \<and> PermitEpoch lease = rl_PermitEpoch item
       \<and> (\<forall>other\<in>set (sn_Leases (st_Snapshot s)). routable s clientID now other \<longrightarrow> rl_Reserve other)"
    "\<not> rl_Reserve item \<longrightarrow> lease = rl_Lease item"
    "\<And>other. other \<in> set (sn_Leases (st_Snapshot s)) \<Longrightarrow> routable s clientID now other \<Longrightarrow>
       rl_Reserve other = rl_Reserve item \<Longrightarrow> now < rl_PermitExpiresAtMS other \<or> \<not> rl_Reserve other \<Longrightarrow>
       \<not> leaseLess other item preferred now"
proof -
  define candidates where "candidates = filter (routable s clientID now) (sn_Leases (st_Snapshot s))"
  define reserve where "reserve = filter (\<lambda>item. rl_Reserve item \<and> now < rl_PermitExpiresAtMS item) candidates"
  define active where "active = filter (\<lambda>item. \<not> rl_Reserve item) candidates"
  define chosen where "chosen = (if active = [] \<and> reserve \<noteq> [] then reserve else active)"
  define item where "item = hd (sort_slice (\<lambda>a b. leaseLess a b preferred now) chosen)"
  have sel: "chosen \<noteq> []" "wait = None"
    "lease = (if active = [] \<and> reserve \<noteq> []
       then (rl_Lease item)\<lparr>Reserve := True, PermitEpoch := rl_PermitEpoch item,
              PermitExpiresAtMS := rl_PermitExpiresAtMS item\<rparr>
       else rl_Lease item)"
    using assms
    unfolding select_lease_def Let_def candidates_def [symmetric] reserve_def [symmetric]
      active_def [symmetric] chosen_def [symmetric] item_def [symmetric]
    by (auto split: if_splits)
  have mem: "item \<in> set chosen" unfolding item_def by (rule hd_sort_slice_in [OF sel(1)])
  have best: "\<not> leaseLess other item preferred now" if "other \<in> set chosen" for other
    unfolding item_def by (rule lease_order.hd_minimal [OF that])
  have item: "item \<in> set candidates"
    using mem by (auto simp: chosen_def active_def reserve_def split: if_splits)
  have res: "rl_Reserve item \<longleftrightarrow> active = [] \<and> reserve \<noteq> []"
    using mem by (auto simp: chosen_def active_def reserve_def split: if_splits)
  have cand: "other \<in> set candidates \<longleftrightarrow> other \<in> set (sn_Leases (st_Snapshot s)) \<and> routable s clientID now other"
    for other by (auto simp: candidates_def)
  have permit: "now < rl_PermitExpiresAtMS item" if "rl_Reserve item"
    using mem that res by (simp add: chosen_def reserve_def)
  have only: "rl_Reserve other" if "rl_Reserve item" "other \<in> set candidates" for other
    using that res by (auto simp: active_def filter_empty_conv)
  have peer: "other \<in> set chosen"
    if "other \<in> set candidates" "rl_Reserve other = rl_Reserve item"
      "now < rl_PermitExpiresAtMS other \<or> \<not> rl_Reserve other" for other
    using that res by (auto simp: chosen_def active_def reserve_def)
  show ?thesis
  proof (rule that [of item])
    show "rl_Reserve item \<longrightarrow> now < rl_PermitExpiresAtMS item \<and> Reserve lease
       \<and> PermitEpoch lease = rl_PermitEpoch item
       \<and> (\<forall>other\<in>set (sn_Leases (st_Snapshot s)). routable s clientID now other \<longrightarrow> rl_Reserve other)"
      using permit only res cand sel(3) by simp
  qed (use item cand sel res peer best in auto)
qed

lemma localRoute_SelectD:
  assumes "localRoute newID out clientID request now r = (r', Inr answer)"
  shows "readyLocked r now
    \<and> select_lease (re_state r') clientID (PreferredAccountID request) now = Inr answer
    \<and> (FailedAccountID request \<noteq> [] \<longrightarrow> FailureKind request \<noteq> [] \<longrightarrow>
         record_failure newID out clientID (FailedAccountID request) (FailureKind request)
           (failure_expiry (re_state r) (FailedAccountID request) now) now r = (r', None))
    \<and> (FailedAccountID request = [] \<or> FailureKind request = [] \<longrightarrow> r' = r)"
  using assms by (auto simp: localRoute_def Let_def split: if_splits prod.splits option.splits)

text \<open>
  C4: A lease routed from the cache is one the relay may hand out at that moment: the cache is
  fresh, the client is allowed on the account, the access token has not expired, no usage
  window is spent, the account is neither quota-blocked nor excluded for the client; a reserve
  account is handed out only with a permit that has not expired and when no ordinary lease is
  usable, and no usable lease of the same class ranks before it.
\<close>

theorem localRoute_lease_is_usable:
  assumes "localRoute newID out clientID request now r = (r', Inr (Some lease, wait))"
  shows "readyLocked r now \<and> wait = None \<and>
    (\<exists>item\<in>set (sn_Leases (st_Snapshot (re_state r'))).
       AccountID lease = rl_AccountID item
       \<and> allowed (re_state r') clientID (rl_AccountID item)
       \<and> now < ExpiresAtMS (rl_Lease item)
       \<and> \<not> lease_exhausted (rl_Lease item) now
       \<and> \<not> quotaBlockedLocked (re_state r') (rl_Lease item) now
       \<and> exclusion (re_state r') clientID (rl_AccountID item) \<le> now
       \<and> (rl_Reserve item \<longrightarrow> now < rl_PermitExpiresAtMS item \<and> Reserve lease
            \<and> (\<forall>other\<in>set (sn_Leases (st_Snapshot (re_state r'))).
                 routable (re_state r') clientID now other \<longrightarrow> rl_Reserve other))
       \<and> (\<forall>other\<in>set (sn_Leases (st_Snapshot (re_state r'))).
            routable (re_state r') clientID now other \<longrightarrow> rl_Reserve other = rl_Reserve item \<longrightarrow>
            now < rl_PermitExpiresAtMS other \<or> \<not> rl_Reserve other \<longrightarrow>
            \<not> leaseLess other item (PreferredAccountID request) now))"
proof -
  have sel: "readyLocked r now"
    "select_lease (re_state r') clientID (PreferredAccountID request) now = Inr (Some lease, wait)"
    using localRoute_SelectD [OF assms] by auto
  show ?thesis
    by (rule select_lease_sound [OF sel(2)]) (use sel(1) in \<open>auto simp: routable_def\<close>)
qed


text \<open>A concrete edge: one client, an ordinary lease and a reserve lease.\<close>

definition ex_lease :: "string \<Rightarrow> Lease" where
  "ex_lease a = \<lparr>AccountID = a, AccountLabel = [], AccessToken = ''t'', ChatGPTAccountID = [],
     ExpiresAtMS = 900000, UsageSnapshotAtMS = 5, ShortRemainingPercent = Some 40,
     WeeklyRemainingPercent = Some 70, ShortResetsAtMS = Some 700000, WeeklyResetsAtMS = Some 800000,
     Reserve = False, PermitEpoch = [], PermitExpiresAtMS = 0\<rparr>"

definition ex_cached :: "string \<Rightarrow> bool \<Rightarrow> relay_lease" where
  "ex_cached a reserve = \<lparr>rl_Lease = ex_lease a, rl_CycleState = ''IN_CYCLE'', rl_CreatedAtMS = 1,
     rl_Reserve = reserve, rl_PermitEpoch = ''e1'', rl_PermitExpiresAtMS = 600000\<rparr>"

definition ex_snapshot :: Snapshot where
  "ex_snapshot = \<lparr>sn_ProtocolVersion = 5, sn_SnapshotID = ''s'', sn_RelayID = ''r1'', sn_PoolEpoch = ''p'',
     sn_GeneratedAtMS = 10000,
     sn_Clients = [\<lparr>rc_ID = ''c1'', rc_Name = [], rc_Prefix = [], rc_Digest = ''d'', rc_Restricted = False,
                    rc_StreamerMode = False, rc_AllowedAccountIDs = []\<rparr>],
     sn_Leases = [ex_cached ''a'' False, ex_cached ''b'' True]\<rparr>"

definition ex_relay :: "relay_event list \<Rightarrow> Relay" where
  "ex_relay outbox = \<lparr>cfg_RelayID = ''r1'', cfg_RelayKey = ''k'', cfg_RelayMaxStaleSeconds = 3600,
     re_state = \<lparr>st_Snapshot = ex_snapshot, st_Outbox = outbox, st_Exclusions = Map.empty,
                  st_QuotaBlocks = Map.empty\<rparr>,
     re_online = False, re_disk = None\<rparr>"

definition ex_request :: "string \<Rightarrow> string \<Rightarrow> RouteRequest" where
  "ex_request failed kind = \<lparr>SessionID = [], TurnID = [], PreferredAccountID = [], FailedAccountID = failed,
     FailureKind = kind\<rparr>"

lemmas ex_defs = ex_lease_def ex_cached_def ex_snapshot_def ex_relay_def ex_request_def

lemmas route_defs = localRoute_def select_lease_def readyLocked_def lease_usable_def allowed_def routable_def
  lease_exhausted_def window_spent_def quotaBlockedLocked_def exclusion_def Let_def Version_def
  five_minutes_def ms_per_minute_def sort_slice_def leaseLess_def resetRank_def record_failure_def
  queueLocked_def outboxLimit_def new_event_def failure_expiry_def leaseReset_def spent_reset_def
  blockQuotaLocked_def lease_resets_def map_filter_def saveLocked_def exclusion_key_def MaxInt64_def

lemma ex_route_ordinary:
  "snd (localRoute ''n1'' Saved ''c1'' (ex_request [] []) 20000 (ex_relay [])) = Inr (Some (ex_lease ''a''), None)"
  by (simp add: ex_defs route_defs)

lemma localRoute_lease_is_usable_witness:
  "\<exists>item\<in>set (sn_Leases ex_snapshot). rl_AccountID item = ''a'' \<and> 20000 < ExpiresAtMS (rl_Lease item)"
proof -
  obtain r' where r: "localRoute ''n1'' Saved ''c1'' (ex_request [] []) 20000 (ex_relay [])
      = (r', Inr (Some (ex_lease ''a''), None))"
    using ex_route_ordinary by (metis prod.collapse)
  then have "r' = ex_relay []" by (auto simp: localRoute_def ex_request_def Let_def split: if_splits)
  then show ?thesis
    using localRoute_lease_is_usable [OF r] by (auto simp: ex_relay_def ex_lease_def)
qed


subsection \<open>Failures\<close>

lemma fold_min_bounds:
  fixes start :: int
  assumes "bound < start" and "\<forall>x\<in>set xs. bound < x \<or> \<not> P x"
  shows "bound < fold (\<lambda>x acc. if P x \<and> x < acc then x else acc) xs start"
  using assms by (induction xs arbitrary: start) auto

lemma blockQuotaLocked_blocks:
  assumes "now < MaxInt64"
  obtains block where "st_QuotaBlocks (blockQuotaLocked accountID now s) accountID = Some block"
    "qb_AtMS block = now" "now < qb_RetryAtMS block"
  using fold_min_bounds [of now MaxInt64 _ "\<lambda>reset. now < reset"] assms
  by (simp add: blockQuotaLocked_def Let_def)

lemma leaseReset_future: "0 < leaseReset l now \<Longrightarrow> now < leaseReset l now"
  by (auto simp: leaseReset_def Let_def split: if_splits)

lemma failure_expiry_future: "now < failure_expiry s accountID now"
  using leaseReset_future by (auto simp: failure_expiry_def Let_def five_minutes_def ms_per_minute_def
      split: option.split)

lemma re_state_saveLocked [simp]: "re_state (fst (saveLocked out r)) = re_state r"
  by (simp add: saveLocked_def Let_def split: save_outcome.split)

lemma record_failure_state:
  assumes "record_failure newID out clientID accountID kind expires now r = (r', None)"
  obtains outbox where "re_state r' =
     (let s = (re_state r)\<lparr>st_Outbox := outbox\<rparr>
      in if kind = ''quota'' then blockQuotaLocked accountID now s
         else s\<lparr>st_Exclusions := (st_Exclusions s)(exclusion_key clientID accountID \<mapsto> expires)\<rparr>)"
proof -
  from assms obtain outbox where
    "saveLocked out (r\<lparr>re_state := (let s = (re_state r)\<lparr>st_Outbox := outbox\<rparr>
       in if kind = ''quota'' then blockQuotaLocked accountID now s
          else s\<lparr>st_Exclusions := (st_Exclusions s)(exclusion_key clientID accountID \<mapsto> expires)\<rparr>)\<rparr>) = (r', None)"
    by (auto simp: record_failure_def Let_def split: sum.splits)
  from arg_cong [OF this, of "\<lambda>p. re_state (fst p)"] show ?thesis
    by (intro that [of outbox]) simp
qed

lemma record_failure_snapshot:
  "record_failure newID out clientID accountID kind expires now r = (r', None) \<Longrightarrow>
   st_Snapshot (re_state r') = st_Snapshot (re_state r)"
  by (erule record_failure_state) (simp add: Let_def)

lemma localRoute_snapshot:
  "localRoute newID out clientID request now r = (r', Inr answer) \<Longrightarrow>
   st_Snapshot (re_state r') = st_Snapshot (re_state r)"
  using localRoute_SelectD [of newID out clientID request now r r' answer] record_failure_snapshot
  by blast

lemma record_failure_unroutable:
  assumes "record_failure newID out clientID accountID kind expires now r = (r', None)"
    and "now < expires" "now < MaxInt64" "rl_AccountID item = accountID"
    and "kind = ''quota'' \<Longrightarrow> UsageSnapshotAtMS (rl_Lease item) \<le> now"
  shows "\<not> routable (re_state r') clientID now item"
proof (cases "kind = ''quota''")
  case True
  obtain outbox where "re_state r' = blockQuotaLocked accountID now ((re_state r)\<lparr>st_Outbox := outbox\<rparr>)"
    using assms(1) True by (auto elim!: record_failure_state simp: Let_def)
  then have "quotaBlockedLocked (re_state r') (rl_Lease item) now"
    using assms True
    by (auto simp: quotaBlockedLocked_def
        intro: blockQuotaLocked_blocks [of now accountID "(re_state r)\<lparr>st_Outbox := outbox\<rparr>"])
  then show ?thesis by (simp add: routable_def)
next
  case False
  then show ?thesis
    using assms by (auto elim!: record_failure_state simp: routable_def exclusion_def Let_def)
qed

text \<open>
  After a failed attempt the cache does not hand the failed account out again: when the
  failure report was recorded, the account of the routed lease is another one. A quota failure
  has this effect for usage readings taken before the failure.
\<close>

theorem localRoute_avoids_failed_account:
  assumes "localRoute newID out clientID request now r = (r', Inr (Some lease, wait))"
    and "FailedAccountID request \<noteq> []" "FailureKind request \<noteq> []" "now < MaxInt64"
    and "FailureKind request = ''quota'' \<Longrightarrow>
      \<forall>item\<in>set (sn_Leases (st_Snapshot (re_state r))). UsageSnapshotAtMS (rl_Lease item) \<le> now"
  shows "AccountID lease \<noteq> FailedAccountID request"
proof -
  have sel: "select_lease (re_state r') clientID (PreferredAccountID request) now = Inr (Some lease, wait)"
    and rec: "record_failure newID out clientID (FailedAccountID request) (FailureKind request)
           (failure_expiry (re_state r) (FailedAccountID request) now) now r = (r', None)"
    using localRoute_SelectD [OF assms(1)] assms(2,3) by auto
  have snap: "st_Snapshot (re_state r') = st_Snapshot (re_state r)"
    by (rule localRoute_snapshot [OF assms(1)])
  show ?thesis
  proof (rule select_lease_sound [OF sel])
    fix item
    assume "item \<in> set (sn_Leases (st_Snapshot (re_state r')))" "routable (re_state r') clientID now item"
      "AccountID lease = rl_AccountID item"
    then show ?thesis
      using record_failure_unroutable [OF rec failure_expiry_future assms(4), of item] assms(5) snap
      by auto
  qed
qed


definition ex_two :: "relay_event list \<Rightarrow> Relay" where
  "ex_two outbox = (ex_relay outbox)\<lparr>re_state := (re_state (ex_relay outbox))\<lparr>st_Snapshot :=
     ex_snapshot\<lparr>sn_Leases := [ex_cached ''a'' False, ex_cached ''d'' False]\<rparr>\<rparr>\<rparr>"

lemma ex_route_after_failure:
  "snd (localRoute ''n1'' Saved ''c1'' (ex_request ''a'' ''quota'') 20000 (ex_two []))
   = Inr (Some (ex_lease ''d''), None)"
  by (simp add: ex_defs ex_two_def route_defs)

lemma localRoute_avoids_failed_account_witness: "AccountID (ex_lease ''d'') \<noteq> ''a''"
proof -
  obtain r' where r: "localRoute ''n1'' Saved ''c1'' (ex_request ''a'' ''quota'') 20000 (ex_two [])
      = (r', Inr (Some (ex_lease ''d''), None))"
    using ex_route_after_failure by (metis prod.collapse)
  show ?thesis
    using localRoute_avoids_failed_account [OF r]
    by (simp add: ex_request_def MaxInt64_def ex_two_def ex_relay_def ex_snapshot_def ex_cached_def ex_lease_def)
qed

lemma quotaBlocked_after_failure:
  assumes "record_failure newID out clientID accountID ''quota'' expires now r = (r', None)"
    and "now < MaxInt64" "now \<le> later" "AccountID l = accountID" "UsageSnapshotAtMS l \<le> now"
    and "\<forall>item\<in>set (sn_Leases (st_Snapshot (re_state r))). rl_AccountID item = accountID \<longrightarrow>
        (\<forall>reset\<in>set (lease_resets (rl_Lease item)). now < reset \<longrightarrow> later < reset)"
    and "later < MaxInt64"
  shows "quotaBlockedLocked (re_state r') l later"
proof -
  obtain outbox where s: "re_state r' = blockQuotaLocked accountID now ((re_state r)\<lparr>st_Outbox := outbox\<rparr>)"
    using assms(1) by (auto elim!: record_failure_state simp: Let_def)
  have "later < fold (\<lambda>reset retry. if now < reset \<and> reset < retry then reset else retry)
      (concat (map (\<lambda>item. if rl_AccountID item = accountID then lease_resets (rl_Lease item) else [])
         (sn_Leases (st_Snapshot (re_state r))))) MaxInt64"
    using assms(6,7) by (intro fold_min_bounds [where P = "\<lambda>reset. now < reset"]) auto
  then show ?thesis
    using assms(4,5) by (simp add: s quotaBlockedLocked_def blockQuotaLocked_def Let_def)
qed

text \<open>
  A quota failure reported for one client takes the account away from every client: until
  the first reset its cached leases announce, no request is routed to the account on a usage
  reading taken before the failure.
\<close>

theorem quota_failure_blocks_every_client:
  assumes "relay_ReportFailure newID out response clientID accountID ''quota'' now r = (r1, None)"
    and "now \<le> later" "later < MaxInt64"
    and "\<forall>item\<in>set (sn_Leases (st_Snapshot (re_state r))). rl_AccountID item = accountID \<longrightarrow>
        UsageSnapshotAtMS (rl_Lease item) \<le> now
        \<and> (\<forall>reset\<in>set (lease_resets (rl_Lease item)). now < reset \<longrightarrow> later < reset)"
    and "localRoute newID' out' other request later r1 = (r2, Inr (Some lease, wait))"
    and "FailedAccountID request = []"
  shows "AccountID lease \<noteq> accountID"
proof -
  obtain r' where rec: "record_failure newID out clientID accountID ''quota'' (now + five_minutes) now r = (r', None)"
    and r1: "re_state r1 = re_state r'"
    using assms(1) by (auto simp: relay_ReportFailure_def split: prod.splits option.splits if_splits)
  have sel: "select_lease (re_state r1) other (PreferredAccountID request) later = Inr (Some lease, wait)"
    using localRoute_SelectD [OF assms(5)] assms(6) by metis
  have "now < MaxInt64" using assms(2,3) by simp
  note blocked = quotaBlocked_after_failure [OF rec this assms(2)]
  show ?thesis
  proof (rule select_lease_sound [OF sel])
    fix item
    assume item: "item \<in> set (sn_Leases (st_Snapshot (re_state r1)))" "routable (re_state r1) other later item"
      "AccountID lease = rl_AccountID item"
    have "item \<in> set (sn_Leases (st_Snapshot (re_state r)))"
      using item(1) record_failure_snapshot [OF rec] r1 by simp
    then show ?thesis
      using item(2,3) blocked [of "rl_Lease item"] assms(3,4) r1 by (auto simp: routable_def)
  qed
qed

lemma quota_failure_blocks_every_client_witness:
  "AccountID (ex_lease ''d'') \<noteq> ''a'' \<and> UsageSnapshotAtMS (ex_lease ''a'') \<le> 20000"
proof -
  let ?r1 = "fst (relay_ReportFailure ''n1'' Saved (CallOk ()) ''c0'' ''a'' ''quota'' 20000 (ex_two []))"
  have report: "relay_ReportFailure ''n1'' Saved (CallOk ()) ''c0'' ''a'' ''quota'' 20000 (ex_two []) = (?r1, None)"
    by (simp add: relay_ReportFailure_def ex_defs ex_two_def route_defs)
  have "snd (localRoute ''n2'' Saved ''c1'' (ex_request [] []) 30000 ?r1) = Inr (Some (ex_lease ''d''), None)"
    by (simp add: relay_ReportFailure_def ex_defs ex_two_def route_defs)
  then obtain r2 where route: "localRoute ''n2'' Saved ''c1'' (ex_request [] []) 30000 ?r1
      = (r2, Inr (Some (ex_lease ''d''), None))"
    by (metis prod.collapse)
  show ?thesis
    using quota_failure_blocks_every_client [OF report _ _ _ route]
    by (simp add: MaxInt64_def ex_defs ex_two_def lease_resets_def map_filter_def)
qed

subsection \<open>Waiting for the pool\<close>

lemma fold_min_le: "fold (\<lambda>x acc. if x < acc then x else acc) xs m \<le> (m :: int)"
proof (induction xs arbitrary: m)
  case (Cons x xs)
  from Cons.IH [of "if x < m then x else m"] show ?case by (simp split: if_splits)
qed simp

lemma retry_candidates_future: "c \<in> set (retry_candidates s clientID now item) \<Longrightarrow> now < c"
  by (auto simp: retry_candidates_def Let_def quotaBlockedLocked_def split: if_splits option.splits)

lemma next_retry_future:
  assumes "now < MaxInt64"
  shows "now < next_retry s clientID now"
proof -
  have "now < fold (\<lambda>x acc. if True \<and> x < acc then x else acc)
       (concat (map (\<lambda>item. if allowed s clientID (rl_AccountID item)
                              then retry_candidates s clientID now item else []) (sn_Leases (st_Snapshot s))))
       MaxInt64"
    using retry_candidates_future assms by (intro fold_min_bounds) (auto split: if_splits)
  then show ?thesis by (simp add: next_retry_def)
qed

text \<open>
  When the cache has no usable lease but knows when one returns, the answer is a wait whose
  retry time lies in the future and whose seconds cover it without overshooting by a second;
  a wait is never answered while some ordinary lease is usable.
\<close>

theorem localRoute_wait_is_future:
  assumes "localRoute newID out clientID request now r = (r', Inr (None, Some wait))"
    and "now < MaxInt64"
  shows "now < NextRetryAtMS wait \<and> NextRetryAtMS wait < MaxInt64
    \<and> NextRetryAtMS wait - now \<le> 1000 * RetryAfterSeconds wait
    \<and> 1000 * RetryAfterSeconds wait < NextRetryAtMS wait - now + 1000
    \<and> (\<forall>item\<in>set (sn_Leases (st_Snapshot (re_state r'))).
         routable (re_state r') clientID now item \<longrightarrow> rl_Reserve item \<and> rl_PermitExpiresAtMS item \<le> now)"
proof -
  let ?next = "next_retry (re_state r') clientID now"
  have sel: "select_lease (re_state r') clientID (PreferredAccountID request) now = Inr (None, Some wait)"
    using localRoute_SelectD [OF assms(1)] by simp
  have "NextRetryAtMS wait = ?next" "RetryAfterSeconds wait = ceil_seconds (?next - now)" "?next \<noteq> MaxInt64"
    using sel by (auto simp: select_lease_def Let_def split: if_splits)
  moreover have "?next \<le> MaxInt64" by (simp add: next_retry_def fold_min_le)
  moreover have "\<forall>item\<in>set (sn_Leases (st_Snapshot (re_state r'))).
         routable (re_state r') clientID now item \<longrightarrow> rl_Reserve item \<and> rl_PermitExpiresAtMS item \<le> now"
    using sel by (auto simp: select_lease_def Let_def filter_empty_conv not_less split: if_splits)
  ultimately show ?thesis
    using next_retry_future [OF assms(2), of "re_state r'" clientID] ceil_seconds_pos [of "?next - now"]
    by simp
qed

lemma localRoute_wait_is_future_witness:
  "\<exists>wait. snd (localRoute ''n1'' Saved ''c1'' (ex_request ''a'' ''quota'') 650000 (ex_relay []))
     = Inr (None, Some wait) \<and> 650000 < NextRetryAtMS wait"
proof -
  let ?answer = "localRoute ''n1'' Saved ''c1'' (ex_request ''a'' ''quota'') 650000 (ex_relay [])"
  have "snd ?answer = Inr (None, Some \<lparr>NextRetryAtMS = 700000, RetryAfterSeconds = 50\<rparr>)"
    by (simp add: ex_defs route_defs next_retry_def retry_candidates_def ceil_seconds_def)
  then obtain r' where r: "?answer = (r', Inr (None, Some \<lparr>NextRetryAtMS = 700000, RetryAfterSeconds = 50\<rparr>))"
    by (metis prod.collapse)
  then show ?thesis using localRoute_wait_is_future [OF r] by (simp add: MaxInt64_def)
qed


subsection \<open>Every run\<close>

text \<open>
  C3: In every run of the edge, over every interleaving of serving, reconciling, giving up and
  restarting from the cache file, the outbox stays within its limit, the cache has one lease per
  account, no cached lease is still reserved while its activation waits in the outbox, and
  removing the batch in flight never cuts past the end of the outbox; the state in the cache
  file has the same properties.
\<close>

theorem relay_run_invariant:
  assumes "relay_start s" and "relay_any_step\<^sup>*\<^sup>* s t"
  shows "length (outbox_of (sys_relay t)) \<le> 10000
    \<and> distinct (map rl_AccountID (sn_Leases (st_Snapshot (re_state (sys_relay t)))))
    \<and> (\<forall>item\<in>set (sn_Leases (st_Snapshot (re_state (sys_relay t)))). rl_Reserve item \<longrightarrow>
           \<not> pending_activation (outbox_of (sys_relay t)) (rl_AccountID item) (rl_PermitEpoch item))
    \<and> (\<forall>events. sys_sent t = Some events \<longrightarrow> length events \<le> length (outbox_of (sys_relay t)))
    \<and> (\<forall>key relayID saved. re_disk (sys_relay t) = Some (key, relayID, saved) \<longrightarrow> state_inv saved)"
  using edge.reachable_inv [OF assms]
  by (auto simp: system_inv_def relay_inv_def state_inv_def outboxLimit_def activations_applied_def sent_in_range_def)

definition ex_started :: relay_system where
  "ex_started = \<lparr>sys_relay = \<lparr>cfg_RelayID = ''r1'', cfg_RelayKey = ''k'', cfg_RelayMaxStaleSeconds = 3600,
     re_state = empty_state, re_online = False, re_disk = None\<rparr>, sys_sent = None\<rparr>"

definition ex_after :: "relay_lease list \<Rightarrow> relay_system" where
  "ex_after leases = \<lparr>sys_relay = fst (install_snapshot (ex_snapshot\<lparr>sn_Leases := leases\<rparr>) Saved 20000
     (sys_relay ex_started)), sys_sent = None\<rparr>"

lemma ex_start: "relay_start ex_started"
  by (simp add: relay_start_def ex_started_def)

lemma ex_run:
  assumes "distinct (map rl_AccountID leases)" "\<forall>item\<in>set leases. \<not> Reserve (rl_Lease item)"
  shows "relay_any_step\<^sup>*\<^sup>* ex_started (ex_after leases)"
proof -
  obtain r' e where i: "install_snapshot (ex_snapshot\<lparr>sn_Leases := leases\<rparr>) Saved 20000 (sys_relay ex_started) = (r', e)"
    by fastforce
  have "relay_step Serving \<lparr>sys_relay = sys_relay ex_started, sys_sent = None\<rparr> (ex_after leases)"
    unfolding ex_after_def i fst_conv by (rule install [OF _ _ i]) (use assms in simp_all)
  moreover have "\<lparr>sys_relay = sys_relay ex_started, sys_sent = None\<rparr> = ex_started"
    by (simp add: ex_started_def)
  ultimately have "relay_any_step ex_started (ex_after leases)" unfolding relay_any_step_def by auto
  then show ?thesis by (rule r_into_rtranclp)
qed

lemma ex_after_state:
  "re_state (sys_relay (ex_after leases)) = \<lparr>st_Snapshot = ex_snapshot\<lparr>sn_Leases := leases\<rparr>, st_Outbox = [],
     st_Exclusions = Map.empty, st_QuotaBlocks = Map.empty\<rparr>"
  by (simp add: ex_after_def ex_started_def install_snapshot_def ex_snapshot_def Version_def Let_def
      saveLocked_def apply_activations_def empty_state_def prune_exclusions_def)

lemma relay_run_invariant_witness:
  "length (outbox_of (sys_relay (ex_after [ex_cached ''a'' False, ex_cached ''b'' True]))) \<le> 10000
   \<and> \<not> pending_activation (outbox_of (sys_relay (ex_after [ex_cached ''a'' False, ex_cached ''b'' True]))) ''b'' ''e1''"
proof -
  have "relay_any_step\<^sup>*\<^sup>* ex_started (ex_after [ex_cached ''a'' False, ex_cached ''b'' True])"
    by (rule ex_run) (simp_all add: ex_cached_def ex_lease_def)
  from relay_run_invariant [OF ex_start this] show ?thesis
    by (auto simp: ex_after_state ex_cached_def ex_lease_def)
qed

text \<open>
  A reserve account is activated once: in every run, a lease routed from the cache under a
  reserve permit is not one whose activation is waiting to be reconciled.
\<close>

theorem activated_reserve_is_not_routed:
  assumes "relay_start s" and "relay_any_step\<^sup>*\<^sup>* s t"
    and "localRoute newID out clientID request now (sys_relay t) = (r', Inr (Some lease, wait))"
    and "Reserve lease"
  shows "\<not> pending_activation (outbox_of r') (AccountID lease) (PermitEpoch lease)"
proof -
  have "relay_inv r'"
    using relay_inv_localRoute [of "sys_relay t" newID out clientID request now]
      edge.reachable_inv [OF assms(1,2)] assms(3) by (simp add: system_inv_def)
  then have inv: "state_inv (re_state r')" by (simp add: relay_inv_def)
  have sel: "select_lease (re_state r') clientID (PreferredAccountID request) now = Inr (Some lease, wait)"
    using localRoute_SelectD [OF assms(3)] by simp
  show ?thesis
    by (rule select_lease_sound [OF sel])
      (use inv assms(4) in \<open>auto simp: state_inv_def activations_applied_def\<close>)
qed

lemma activated_reserve_is_not_routed_witness:
  "\<exists>r' lease. localRoute ''n1'' Saved ''c1'' (ex_request [] []) 20000 (sys_relay (ex_after [ex_cached ''b'' True]))
      = (r', Inr (Some lease, None)) \<and> Reserve lease \<and> PermitEpoch lease = ''e1''
      \<and> \<not> pending_activation (outbox_of r') ''b'' ''e1''"
proof -
  let ?lease = "(ex_lease ''b'')\<lparr>Reserve := True, PermitEpoch := ''e1'', PermitExpiresAtMS := 600000\<rparr>"
  let ?t = "ex_after [ex_cached ''b'' True]"
  have run: "relay_any_step\<^sup>*\<^sup>* ex_started ?t"
    by (rule ex_run) (simp_all add: ex_cached_def ex_lease_def)
  have "cfg_RelayID (sys_relay ?t) = ''r1''" "cfg_RelayMaxStaleSeconds (sys_relay ?t) = 3600"
    by (simp_all add: ex_after_def ex_started_def install_snapshot_def ex_snapshot_def Version_def Let_def
        saveLocked_def)
  then have "snd (localRoute ''n1'' Saved ''c1'' (ex_request [] []) 20000 (sys_relay ?t)) = Inr (Some ?lease, None)"
    by (simp add: localRoute_def readyLocked_def ex_after_state ex_defs route_defs)
  then obtain r' where r: "localRoute ''n1'' Saved ''c1'' (ex_request [] []) 20000 (sys_relay ?t)
      = (r', Inr (Some ?lease, None))"
    by (metis prod.collapse)
  then show ?thesis
    using activated_reserve_is_not_routed [OF ex_start run r] by (simp add: ex_lease_def)
qed

subsection \<open>Reconciling the outbox\<close>

lemma serving_steps_grow:
  "(relay_step Serving)\<^sup>*\<^sup>* s t \<Longrightarrow> length (outbox_of (sys_relay s)) \<le> length (outbox_of (sys_relay t))
    \<and> prefix (critical_events (sys_relay s)) (critical_events (sys_relay t)) \<and> sys_sent t = sys_sent s
    \<and> (length (outbox_of (sys_relay t)) < outboxLimit \<longrightarrow>
         prefix (outbox_of (sys_relay s)) (outbox_of (sys_relay t)))"
proof (induction rule: rtranclp_induct)
  case base
  then show ?case by simp
next
  case (step t u)
  then show ?case
    using serving_step [OF step.hyps(2)] by (auto simp: outbox_grows_def intro: prefix_order.trans)
qed


lemma outbox_flush_commit [simp]: "outbox_of (fst (flush_commit out n r)) = drop n (outbox_of r)"
  by (simp add: flush_commit_def)

lemma committed_outbox:
  assumes "relay_step Committing s t" and "sys_sent s = Some events"
  shows "outbox_of (sys_relay t) = drop (length events) (outbox_of (sys_relay s))"
  using assms(1)
proof (cases rule: relay_step.cases)
  case (commit out events' r r' e)
  then have "outbox_of r' = drop (length events') (outbox_of r)"
    by (metis fst_conv outbox_flush_commit)
  then show ?thesis using commit assms(2) by simp
qed

text \<open>
  C23: While the outbox does not reach its limit, an acknowledged batch is exactly what leaves the
  outbox, however many requests were served while the batch was in flight: what was in the
  outbox before the acknowledgement is the batch followed by what stays.
\<close>

theorem flush_removes_exactly_the_sent_batch:
  assumes "relay_step Sending s s1" and "(relay_step Serving)\<^sup>*\<^sup>* s1 s2"
    and "length (outbox_of (sys_relay s2)) < outboxLimit"
    and "relay_step Committing s2 s3"
  shows "\<exists>events. sys_sent s1 = Some events \<and> events = flush_batch (sys_relay s)
    \<and> outbox_of (sys_relay s2) = events @ outbox_of (sys_relay s3)"
proof -
  have s1: "sys_sent s1 = Some (flush_batch (sys_relay s))" "sys_relay s1 = sys_relay s"
    using assms(1) by (auto elim: relay_stepE)
  have grow: "prefix (outbox_of (sys_relay s1)) (outbox_of (sys_relay s2))" "sys_sent s2 = sys_sent s1"
    using serving_steps_grow [OF assms(2)] assms(3) by auto
  have "outbox_of (sys_relay s3) = drop (length (flush_batch (sys_relay s))) (outbox_of (sys_relay s2))"
    using assms(4) grow(2) s1(1) committed_outbox by simp
  moreover have "take (length (flush_batch (sys_relay s))) (outbox_of (sys_relay s2)) = flush_batch (sys_relay s)"
    using grow(1) s1(2) by (auto simp: flush_batch_def prefix_def min_def)
  ultimately show ?thesis
    using s1(1) by (metis append_take_drop_id)
qed



definition ex_event :: "string \<Rightarrow> int \<Rightarrow> relay_event" where
  "ex_event kind time = \<lparr>re_ID = ''e'', re_RelayID = ''r1'', re_Kind = kind, re_AccountID = ''a'',
     re_ClientID = ''c1'', re_FailureKind = [], re_PermitEpoch = [], re_OccurredAtMS = time, re_Observation = None\<rparr>"

definition ex_sys :: "relay_event list \<Rightarrow> relay_event list option \<Rightarrow> relay_system" where
  "ex_sys outbox sent = \<lparr>sys_relay = ex_relay outbox, sys_sent = sent\<rparr>"

lemma ex_sending: "outbox \<noteq> [] \<Longrightarrow> relay_step Sending (ex_sys outbox None) (ex_sys outbox (Some (take 100 outbox)))"
  using send [of "ex_relay outbox"] by (simp add: ex_sys_def flush_batch_def ex_relay_def)

lemma flush_removes_exactly_the_sent_batch_witness:
  "\<exists>s2 s3. relay_step Committing s2 s3
     \<and> outbox_of (sys_relay s2) = [ex_event ''failure'' 1] @ outbox_of (sys_relay s3)
     \<and> map re_Kind (outbox_of (sys_relay s3)) = [''failure'']"
proof -
  let ?s = "ex_sys [ex_event ''failure'' 1] None"
  let ?s1 = "ex_sys [ex_event ''failure'' 1] (Some [ex_event ''failure'' 1])"
  obtain r2 e where r2: "relay_ReportFailure ''n1'' Saved CallFailed ''c1'' ''a'' ''quota'' 20000 (sys_relay ?s1) = (r2, e)"
    by fastforce
  let ?s2 = "\<lparr>sys_relay = r2, sys_sent = Some [ex_event ''failure'' 1]\<rparr>"
  obtain r3 e3 where r3: "flush_commit Saved (length [ex_event ''failure'' 1]) r2 = (r3, e3)" by fastforce
  let ?s3 = "\<lparr>sys_relay = r3, sys_sent = None\<rparr>"
  have "relay_step Serving ?s1 ?s2" using report [OF r2] by (simp add: ex_sys_def)
  then have serve: "(relay_step Serving)\<^sup>*\<^sup>* ?s1 ?s2" by (rule r_into_rtranclp)
  have commit: "relay_step Committing ?s2 ?s3" by (rule commit [OF r3])
  have out: "outbox_of r2 = [ex_event ''failure'' 1, new_event (ex_relay []) ''n1'' ''failure'' ''a'' ''c1'' ''quota'' [] 20000]"
    using arg_cong [OF r2, of "\<lambda>p. outbox_of (fst p)"]
    by (simp add: relay_ReportFailure_def record_failure_def queueLocked_def outboxLimit_def ex_sys_def
        ex_relay_def Let_def saveLocked_def new_event_def)
  have ex: "\<exists>events. sys_sent ?s1 = Some events \<and> events = flush_batch (sys_relay ?s)
    \<and> outbox_of (sys_relay ?s2) = events @ outbox_of (sys_relay ?s3)"
    by (rule flush_removes_exactly_the_sent_batch [OF _ serve _ commit])
      (use ex_sending [of "[ex_event ''failure'' 1]"] out in \<open>simp_all add: outboxLimit_def\<close>)
  have "outbox_of r3 = [new_event (ex_relay []) ''n1'' ''failure'' ''a'' ''c1'' ''quota'' [] 20000]"
    using ex out by (simp add: ex_sys_def)
  then show ?thesis using commit out by (intro exI [of _ ?s2] exI [of _ ?s3]) simp
qed


lemma outbox_record_failure:
  assumes "queueLocked (new_event r newID ''failure'' a c k [] now) True (outbox_of r) = Inr es"
  shows "outbox_of (fst (record_failure newID out c a k expires now r)) = es"
  using assms by (simp add: record_failure_def Let_def)

lemma outbox_ReportFailure:
  "outbox_of (fst (relay_ReportFailure newID out response c a k now r))
   = outbox_of (fst (record_failure newID out c a k (now + five_minutes) now r))"
  by (simp add: relay_ReportFailure_def split: prod.split option.split)

lemma remove_first_telemetry_NoneD: "remove_first_telemetry es = None \<Longrightarrow> e \<in> set es \<Longrightarrow> \<not> is_telemetry e"
  by (induction es) (auto split: if_splits)

lemma drop_after_eviction:
  assumes "remove_first_telemetry es = Some rest" and "is_telemetry (es ! i)" "i < n" "n < length es"
  shows "drop n rest = drop (Suc n) es"
proof -
  obtain j where j: "j < length es" "\<forall>k<j. \<not> is_telemetry (es ! k)" "rest = take j es @ drop (Suc j) es"
    using remove_first_telemetry_SomeD [OF assms(1)] by blast
  have "\<not> i < j" using j(2) assms(2) by blast
  then have "j < n" using assms(3) by simp
  then show ?thesis using j(1,3) assms(4) by (simp add: min_def)
qed

text \<open>
  C18: With a full outbox the acknowledgement of a batch can lose an event that was never sent.
  When a failure is recorded while the batch is in flight, the eviction that makes room for it
  takes a telemetry event out of the batch, and the acknowledgement then removes as many
  events as were sent: the hundred-and-first event of the outbox, which may be critical, is
  neither in the batch nor in the outbox any more.
\<close>

theorem flush_overlapping_eviction_loses_event:
  assumes "relay_step Sending s s1"
    and "length (outbox_of (sys_relay s)) = outboxLimit"
    and "i < 100" and "is_telemetry (outbox_of (sys_relay s) ! i)"
    and "relay_ReportFailure newID out response clientID accountID kind now (sys_relay s1) = (r2, e)"
    and "relay_step Committing (s1\<lparr>sys_relay := r2\<rparr>) s3"
  shows "sys_sent s1 = Some (take 100 (outbox_of (sys_relay s)))
    \<and> outbox_of (sys_relay s3) = drop 101 (outbox_of (sys_relay s))
        @ [new_event (sys_relay s) newID ''failure'' accountID clientID kind [] now]"
proof -
  let ?es = "outbox_of (sys_relay s)"
  let ?e = "new_event (sys_relay s) newID ''failure'' accountID clientID kind [] now"
  have s1: "sys_sent s1 = Some (take 100 ?es)" "sys_relay s1 = sys_relay s"
    using assms(1) by (auto elim: relay_stepE simp: flush_batch_def)
  have len: "100 < length ?es" using assms(2) by (simp add: outboxLimit_def)
  have tel: "remove_first_telemetry ?es \<noteq> None"
    using assms(3,4) len remove_first_telemetry_NoneD [of ?es "?es ! i"] by auto
  then obtain rest where rest: "remove_first_telemetry ?es = Some rest" by blast
  have q: "queueLocked ?e True ?es = Inr (rest @ [?e])"
    using assms(2) rest by (simp add: queueLocked_def)
  have "outbox_of r2 = rest @ [?e]"
    using outbox_ReportFailure [of newID out response clientID accountID kind now "sys_relay s"]
      outbox_record_failure [OF q] assms(5) s1(2) by simp
  then have "outbox_of (sys_relay s3) = drop 100 (rest @ [?e])"
    using committed_outbox [OF assms(6), of "take 100 ?es"] s1(1) len by (simp add: min_def)
  moreover have "Suc (length rest) = length ?es" using remove_first_telemetry_length [OF rest] by simp
  moreover have "drop 100 rest = drop 101 ?es"
    using drop_after_eviction [OF rest assms(4,3) len] by simp
  ultimately show ?thesis using s1(1) len by simp
qed

definition ex_full :: "relay_event list" where
  "ex_full = map (\<lambda>n. ex_event (if n = 0 then ''telemetry'' else ''failure'') (int n)) [0..<outboxLimit]"

lemma flush_overlapping_eviction_loses_event_witness:
  "\<exists>s1 s2 s3. relay_step Sending (ex_sys ex_full None) s1 \<and> relay_step Serving s1 s2 \<and> relay_step Committing s2 s3
     \<and> ex_full ! 100 = ex_event ''failure'' 100
     \<and> ex_event ''failure'' 100 \<notin> set (take 100 ex_full)
     \<and> ex_event ''failure'' 100 \<notin> set (outbox_of (sys_relay s3))"
proof -
  let ?s = "ex_sys ex_full None" and ?s1 = "ex_sys ex_full (Some (take 100 ex_full))"
  have len: "length ex_full = outboxLimit" by (simp add: ex_full_def)
  have nth: "n < outboxLimit \<Longrightarrow> ex_full ! n = ex_event (if n = 0 then ''telemetry'' else ''failure'') (int n)" for n
    by (simp add: ex_full_def)
  have "ex_full \<noteq> []" using len by (auto simp: outboxLimit_def)
  then have s1: "relay_step Sending ?s ?s1" by (rule ex_sending)
  obtain r2 e where r2: "relay_ReportFailure ''n'' Saved CallFailed ''c1'' ''a'' ''quota'' 20000 (sys_relay ?s1) = (r2, e)"
    by fastforce
  obtain r3 e3 where r3: "flush_commit Saved (length (take 100 ex_full)) r2 = (r3, e3)" by fastforce
  have s2: "relay_step Serving ?s1 (?s1\<lparr>sys_relay := r2\<rparr>)" using report [OF r2] by (simp add: ex_sys_def)
  have s3: "relay_step Committing (?s1\<lparr>sys_relay := r2\<rparr>) \<lparr>sys_relay = r3, sys_sent = None\<rparr>"
    using commit [OF r3] by (simp add: ex_sys_def)
  have "outbox_of r3 = drop 101 ex_full @ [new_event (sys_relay ?s) ''n'' ''failure'' ''a'' ''c1'' ''quota'' [] 20000]"
    using flush_overlapping_eviction_loses_event [OF s1 _ _ _ r2 s3, of 0] len nth [of 0]
    by (simp add: ex_sys_def ex_relay_def outboxLimit_def is_telemetry_def ex_event_def)
  moreover have at: "re_OccurredAtMS (ex_full ! n) = int n" if "n < outboxLimit" for n
    using nth [OF that] by (simp add: ex_event_def)
  have "ex_event ''failure'' 100 \<notin> set (take 100 ex_full)"
  proof
    assume "ex_event ''failure'' 100 \<in> set (take 100 ex_full)"
    then obtain n where "n < 100" "n < outboxLimit" "ex_full ! n = ex_event ''failure'' 100"
      unfolding in_set_conv_nth len length_take by auto
    then show False using at [of n] by (simp add: ex_event_def)
  qed
  moreover have "ex_event ''failure'' 100 \<notin> set (drop 101 ex_full)"
  proof
    assume "ex_event ''failure'' 100 \<in> set (drop 101 ex_full)"
    then obtain n where n: "n < outboxLimit - 101" "drop 101 ex_full ! n = ex_event ''failure'' 100"
      unfolding in_set_conv_nth len length_drop by blast
    then have "101 + n < outboxLimit" by linarith
    then show False using n(2) at [of "101 + n"] by (simp add: ex_event_def len)
  qed
  ultimately have lost: "ex_event ''failure'' 100 \<notin> set (outbox_of r3)"
    and unsent: "ex_event ''failure'' 100 \<notin> set (take 100 ex_full)"
    by (simp_all add: ex_event_def new_event_def)
  have "ex_full ! 100 = ex_event ''failure'' 100" using nth [of 100] by (simp add: outboxLimit_def)
  with s1 s2 s3 lost unsent show ?thesis by (metis relay_system.select_convs(1))
qed

end
