(* ===== verification/Gateway_Relay.thy ===== *)
theory Gateway_Relay
  imports Gateway_Correct Relay_Properties
begin

text \<open>
  The gateway in front of the relay edge. The edge provides the gateway's \<open>Authority\<close>: each
  call takes its clock reading, its new identifier and the outcome of what it calls from the
  next entry of \<open>inputs\<close>. The contracts of \<open>Gateway_Correct\<close> are interpreted on it, so that
  serving a request keeps the edge's invariant and always ends.
\<close>

record relay_inputs =
  in_now :: int
  in_newID :: string
  in_save :: save_outcome
  in_route :: "(Lease option \<times> PoolWait option) call_result"
  in_report :: "unit call_result"

type_synonym relay_world = "nat \<times> Relay"

text \<open>A lease that arrives as JSON does not carry the fields tagged \<open>json:"-"\<close>.\<close>

definition unmarked :: "Lease \<Rightarrow> Lease" where
  "unmarked l = l\<lparr>Reserve := False, PermitEpoch := [], PermitExpiresAtMS := 0\<rparr>"

definition decoded_route :: "(Lease option \<times> PoolWait option) call_result \<Rightarrow> (Lease option \<times> PoolWait option) call_result" where
  "decoded_route response =
     (case response of
        CallOk (Some lease, wait) \<Rightarrow> CallOk (Some (unmarked lease), wait)
      | _ \<Rightarrow> response)"

definition relay_authority :: "(nat \<Rightarrow> relay_inputs) \<Rightarrow> (string \<Rightarrow> string) \<Rightarrow> relay_world authority" where
  "relay_authority inputs sha256 =
     \<lparr>au_Authenticate = (\<lambda>token (n, r). relay_Authenticate sha256 r (in_now (inputs n)) token),
      au_Route = (\<lambda>c request (n, r).
        let i = inputs n;
            (r', answer) = relay_Route (decoded_route (in_route i)) (in_newID i) (in_save i) c request (in_now i) r
        in ((Suc n, r'), answer)),
      au_Observe = (\<lambda>v (n, r). let (r', e) = relay_Observe (in_save (inputs n)) v r in ((Suc n, r'), e)),
      au_ReportFailure = (\<lambda>c account kind (n, r).
        let i = inputs n;
            (r', e) = relay_ReportFailure (in_newID i) (in_save i) (in_report i) c account kind (in_now i) r
        in ((Suc n, r'), e)),
      au_Activate = (\<lambda>lease (n, r).
        let i = inputs n; (r', e) = relay_Activate (in_newID i) (in_save i) lease (in_now i) r in ((Suc n, r'), e))\<rparr>"

lemmas relay_authority_simps = relay_authority_def Let_def

definition cached_accounts :: "Relay \<Rightarrow> string set" where
  "cached_accounts r = rl_AccountID ` set (sn_Leases (st_Snapshot (re_state r)))"

lemma decoded_route_unmarked: "decoded_route response = CallOk (Some lease, wait) \<Longrightarrow> \<not> Reserve lease"
  by (auto simp: decoded_route_def unmarked_def split: call_result.splits option.splits prod.splits)

lemma decoded_route_account:
  "decoded_route response = CallOk (Some lease, wait) \<Longrightarrow>
   \<exists>l. response = CallOk (Some l, wait) \<and> AccountID lease = AccountID l"
  by (auto simp: decoded_route_def unmarked_def split: call_result.splits option.splits prod.splits)

lemma relay_authority_inv:
  "relay_inv r \<Longrightarrow> au_Route (relay_authority inputs sha) c q (n, r) = ((n', r'), answer) \<Longrightarrow> relay_inv r'"
  "relay_inv r \<Longrightarrow> au_Observe (relay_authority inputs sha) v (n, r) = ((n', r'), e) \<Longrightarrow> relay_inv r'"
  "relay_inv r \<Longrightarrow> au_ReportFailure (relay_authority inputs sha) c account kind (n, r) = ((n', r'), e) \<Longrightarrow> relay_inv r'"
  "relay_inv r \<Longrightarrow> au_Activate (relay_authority inputs sha) lease (n, r) = ((n', r'), e) \<Longrightarrow> relay_inv r'"
proof -
  show "relay_inv r'" if "relay_inv r" "au_Route (relay_authority inputs sha) c q (n, r) = ((n', r'), answer)"
    using that relay_inv_Route [OF that(1), of "decoded_route (in_route (inputs n))"] decoded_route_unmarked
    by (auto simp: relay_authority_simps split: prod.splits dest!: arg_cong [of _ _ fst])
  show "relay_inv r'" if "relay_inv r" "au_Observe (relay_authority inputs sha) v (n, r) = ((n', r'), e)"
    using that relay_inv_Observe [OF that(1)] by (auto simp: relay_authority_simps split: prod.splits) (metis fst_conv)
  show "relay_inv r'"
    if "relay_inv r" "au_ReportFailure (relay_authority inputs sha) c account kind (n, r) = ((n', r'), e)"
    using that relay_inv_ReportFailure [OF that(1)] by (auto simp: relay_authority_simps split: prod.splits) (metis fst_conv)
  show "relay_inv r'" if "relay_inv r" "au_Activate (relay_authority inputs sha) lease (n, r) = ((n', r'), e)"
    using that relay_inv_Activate [OF that(1)] by (auto simp: relay_authority_simps split: prod.splits) (metis fst_conv)
qed

interpretation relay_serving: authority_contract "relay_authority inputs sha" "\<lambda>(n, r). relay_inv r" for inputs sha
  by unfold_locales (auto dest: relay_authority_inv)


subsection \<open>The accounts the edge knows\<close>

lemma record_failure_snapshot_always:
  "st_Snapshot (re_state (fst (record_failure newID out c account kind expires now r))) = st_Snapshot (re_state r)"
  by (simp add: record_failure_def Let_def split: sum.split)

lemma localRoute_snapshot_always:
  "st_Snapshot (re_state (fst (localRoute newID out c request now r))) = st_Snapshot (re_state r)"
  using record_failure_snapshot_always [of newID out c "FailedAccountID request" "FailureKind request"
      "failure_expiry (re_state r) (FailedAccountID request) now" now r]
  by (auto simp: localRoute_def Let_def split: prod.split option.split)

lemma localRoute_account:
  assumes "localRoute newID out c request now r = (r', Inr (Some lease, wait))"
  shows "AccountID lease \<in> cached_accounts r"
proof -
  have sel: "select_lease (re_state r') c (PreferredAccountID request) now = Inr (Some lease, wait)"
    using localRoute_SelectD [OF assms] by simp
  have snap: "st_Snapshot (re_state r') = st_Snapshot (re_state r)"
    by (rule localRoute_snapshot [OF assms])
  show ?thesis
    by (rule select_lease_sound [OF sel]) (use snap in \<open>simp add: cached_accounts_def\<close>)
qed

lemma updateLease_accounts:
  "cached_accounts (fst (updateLease out lease now r)) \<subseteq> insert (AccountID lease) (cached_accounts r)"
proof (cases "replace_lease lease (sn_Leases (st_Snapshot (re_state r)))")
  case None
  then show ?thesis by (auto simp: updateLease_def cached_accounts_def Let_def)
next
  case (Some ls)
  have "set (map rl_AccountID ls) = set (map rl_AccountID (sn_Leases (st_Snapshot (re_state r))))"
    using replace_lease_SomeD [OF Some] by metis
  then show ?thesis using Some by (auto simp: updateLease_def cached_accounts_def Let_def)
qed

lemma relay_Route_accounts:
  assumes "relay_Route response newID out c request now r = (r', answer)"
    and "\<And>lease wait. response = CallOk (Some lease, wait) \<Longrightarrow> AccountID lease \<in> A" and "cached_accounts r \<subseteq> A"
  shows "cached_accounts r' \<subseteq> A" and "answer = Inr (Some lease, wait) \<Longrightarrow> AccountID lease \<in> A"
proof -
  have local: "cached_accounts (fst (localRoute newID out c request now r1)) \<subseteq> A"
    "localRoute newID out c request now r1 = (r2, Inr (Some lease, wait)) \<Longrightarrow> AccountID lease \<in> A"
    if "cached_accounts r1 = cached_accounts r" for r1 r2 lease wait
    using that assms(3) localRoute_snapshot_always [of newID out c request now r1] localRoute_account [of newID out c request now r1]
    by (auto simp: cached_accounts_def)
  have off: "cached_accounts (r\<lparr>re_online := False\<rparr>) = cached_accounts r" by (simp add: cached_accounts_def)
  have upd: "cached_accounts (fst (updateLease out l now r)) \<subseteq> A" if "AccountID l \<in> A" for l
    using updateLease_accounts [of out l now r] that assms(3) by blast
  show "cached_accounts r' \<subseteq> A"
  proof (cases "re_online r \<and> (\<exists>l w. response = CallOk (Some l, w))")
    case True
    then obtain l w where l: "response = CallOk (Some l, w)" "re_online r" by blast
    then have "r' = fst (updateLease out l now r)"
      using assms(1) by (auto simp: relay_Route_def split: prod.splits option.splits)
    then show ?thesis using upd assms(2) l(1) by blast
  next
    case False
    then have "r' = r \<or> r' = fst (localRoute newID out c request now r)
        \<or> r' = fst (localRoute newID out c request now (r\<lparr>re_online := False\<rparr>))"
      using assms(1) by (auto simp: relay_Route_def split: call_result.splits option.splits prod.splits if_splits)
    then show ?thesis using local(1) [OF refl] local(1) [OF off] assms(3) by auto
  qed
  show "AccountID lease \<in> A" if "answer = Inr (Some lease, wait)"
  proof (cases "re_online r \<and> (\<exists>l w. response = CallOk (Some l, w))")
    case True
    then show ?thesis
      using assms(1,2) that by (auto simp: relay_Route_def split: prod.splits option.splits)
  next
    case False
    then have "localRoute newID out c request now r = (r', answer)
        \<or> localRoute newID out c request now (r\<lparr>re_online := False\<rparr>) = (r', answer)"
      using assms(1) that by (auto simp: relay_Route_def split: call_result.splits option.splits prod.splits if_splits)
    then show ?thesis using local(2) [OF refl] local(2) [OF off] that by blast
  qed
qed

lemma other_accounts:
  "cached_accounts (fst (relay_Observe out v r)) = cached_accounts r"
  "cached_accounts (fst (relay_ReportFailure newID out response c account kind now r)) = cached_accounts r"
  "cached_accounts (fst (relay_Activate newID out lease now r)) = cached_accounts r"
proof -
  show "cached_accounts (fst (relay_Observe out v r)) = cached_accounts r"
    by (simp add: relay_Observe_def cached_accounts_def Let_def split: sum.split)
  show "cached_accounts (fst (relay_ReportFailure newID out response c account kind now r)) = cached_accounts r"
    using record_failure_snapshot_always [of newID out c account kind "now + five_minutes" now r]
    by (auto simp: relay_ReportFailure_def cached_accounts_def split: prod.split option.split)
  show "cached_accounts (fst (relay_Activate newID out lease now r)) = cached_accounts r"
  proof (cases "release_first (\<lambda>item. matches_permit (AccountID lease) (PermitEpoch lease) item \<and> rl_Reserve item)
      (sn_Leases (st_Snapshot (re_state r)))")
    case (Some ls)
    have "set (map rl_AccountID ls) = set (map rl_AccountID (sn_Leases (st_Snapshot (re_state r))))"
      using release_first_accounts(1) [OF Some] by metis
    then show ?thesis
      using Some by (auto simp: relay_Activate_def cached_accounts_def Let_def split: sum.split)
  qed (simp add: relay_Activate_def Let_def)
qed

text \<open>What the primary may grant: leases on the accounts of a list.\<close>

definition grants_within :: "(nat \<Rightarrow> relay_inputs) \<Rightarrow> string list \<Rightarrow> bool" where
  "grants_within inputs accts \<longleftrightarrow>
     (\<forall>n lease wait. in_route (inputs n) = CallOk (Some lease, wait) \<longrightarrow> AccountID lease \<in> set accts)"

definition edge_serving_inv :: "(nat \<Rightarrow> relay_inputs) \<Rightarrow> string list \<Rightarrow> relay_world \<Rightarrow> bool" where
  "edge_serving_inv inputs accts w \<longleftrightarrow>
     relay_inv (snd w) \<and> cached_accounts (snd w) \<subseteq> set accts \<and> grants_within inputs accts"

lemma route_accounts:
  assumes "edge_serving_inv inputs accts (n, r)"
    and "au_Route (relay_authority inputs sha) c q (n, r) = ((n', r'), answer)"
  shows "cached_accounts r' \<subseteq> set accts" and "answer = Inr (Some lease, wait) \<Longrightarrow> AccountID lease \<in> set accts"
proof -
  have run: "relay_Route (decoded_route (in_route (inputs n))) (in_newID (inputs n)) (in_save (inputs n)) c q
      (in_now (inputs n)) r = (r', answer)"
    using assms(2) by (auto simp: relay_authority_simps split: prod.splits)
  have "AccountID lease \<in> set accts" if "decoded_route (in_route (inputs n)) = CallOk (Some lease, wait)" for lease wait
    using decoded_route_account [OF that] assms(1) unfolding edge_serving_inv_def grants_within_def by metis
  note within = relay_Route_accounts [OF run this]
  show "cached_accounts r' \<subseteq> set accts" "answer = Inr (Some lease, wait) \<Longrightarrow> AccountID lease \<in> set accts"
    using within assms(1) by (auto simp: edge_serving_inv_def)
qed

lemma other_steps_accounts:
  "au_Observe (relay_authority inputs sha) v (n, r) = ((n', r'), e) \<Longrightarrow> cached_accounts r' = cached_accounts r"
  "au_ReportFailure (relay_authority inputs sha) c account kind (n, r) = ((n', r'), e) \<Longrightarrow> cached_accounts r' = cached_accounts r"
  "au_Activate (relay_authority inputs sha) lease (n, r) = ((n', r'), e) \<Longrightarrow> cached_accounts r' = cached_accounts r"
  using other_accounts(1) [of "in_save (inputs n)" v r]
    other_accounts(2) [of "in_newID (inputs n)" "in_save (inputs n)" "in_report (inputs n)" c account kind "in_now (inputs n)" r]
    other_accounts(3) [of "in_newID (inputs n)" "in_save (inputs n)" lease "in_now (inputs n)" r]
  by (auto simp: relay_authority_simps split: prod.splits)

interpretation edge_serving: bounded_authority "relay_authority inputs sha" "edge_serving_inv inputs accts" "set accts"
  for inputs sha accts
proof unfold_locales
  fix a a' :: relay_world and c q answer v e account kind lease
  assume inv: "edge_serving_inv inputs accts a"
  obtain n r n' r' where p: "a = (n, r)" "a' = (n', r')" by fastforce
  show "edge_serving_inv inputs accts a'" if "au_Route (relay_authority inputs sha) c q a = (a', answer)"
    using route_accounts(1) [of inputs accts n r sha c q n' r' answer] relay_authority_inv(1) [of r inputs sha c q n] that inv p
    by (auto simp: edge_serving_inv_def)
  show "edge_serving_inv inputs accts a'" if "au_Observe (relay_authority inputs sha) v a = (a', e)"
    using other_steps_accounts(1) [of inputs sha v n r n' r' e] relay_authority_inv(2) [of r inputs sha v n] that inv p
    by (auto simp: edge_serving_inv_def)
  show "edge_serving_inv inputs accts a'" if "au_ReportFailure (relay_authority inputs sha) c account kind a = (a', e)"
    using other_steps_accounts(2) [of inputs sha c account kind n r n' r' e]
      relay_authority_inv(3) [of r inputs sha c account kind n] that inv p
    by (auto simp: edge_serving_inv_def)
  show "edge_serving_inv inputs accts a'" if "au_Activate (relay_authority inputs sha) lease a = (a', e)"
    using other_steps_accounts(3) [of inputs sha lease n r n' r' e]
      relay_authority_inv(4) [of r inputs sha lease n] that inv p
    by (auto simp: edge_serving_inv_def)
  show "AccountID lease \<in> set accts"
    if "au_Route (relay_authority inputs sha) c q a = (a', Inr (Some lease, None))"
    using route_accounts(2) [of inputs accts n r sha c q n' r'] that inv p by auto
qed simp


subsection \<open>Serving through the edge\<close>

text \<open>
  C17: Behind the edge every request is answered. When the accounts cached by the edge and those
  the primary may grant are among the accounts of a list, the serving loop ends after at most
  two attempts per account, whatever the upstream, the primary and the cache file do and
  however the clock runs; and the answered edge is again in a state from which this holds.
\<close>

theorem edge_answers_every_request:
  assumes "edge_serving_inv inputs accts (n, relay)"
  shows "\<exists>n' relay' until' reply.
     Serve env (relay_authority inputs sha) r (2 * card (set accts) + 1) (n, relay) until = Some ((n', relay'), until', reply)
     \<and> edge_serving_inv inputs accts (n', relay')"
proof -
  obtain w until' reply where run: "Serve env (relay_authority inputs sha) r (2 * card (set accts) + 1) (n, relay) until
      = Some (w, until', reply)"
    using edge_serving.Serve_returns [OF assms, of env sha r until] by auto
  obtain n' relay' where "w = (n', relay')" by fastforce
  then show ?thesis using run edge_serving.Serve_inv [OF assms run] by blast
qed

text \<open>
  Serving any number of turns of a request through the edge keeps the edge's state sound:
  the outbox within its limit, one lease per account, no reserved lease with a pending
  activation, in memory and in the cache file.
\<close>

theorem serving_keeps_the_edge_invariant:
  assumes "relay_inv relay"
    and "Serve env (relay_authority inputs sha) r fuel (n, relay) until = Some ((n', relay'), until', reply)"
  shows "relay_inv relay'"
  using relay_serving.Serve_inv [OF _ assms(2)] assms(1) by simp

definition ex_inputs :: "nat \<Rightarrow> relay_inputs" where
  "ex_inputs n = \<lparr>in_now = 20000, in_newID = ''i'', in_save = Saved, in_route = CallFailed, in_report = CallFailed\<rparr>"

lemma ex_edge: "edge_serving_inv ex_inputs [''a'', ''b''] (0, ex_relay [])"
  by (simp add: edge_serving_inv_def grants_within_def ex_inputs_def cached_accounts_def ex_defs relay_inv_def
      state_inv_def outboxLimit_def activations_applied_def pending_activation_def)

lemma edge_answers_every_request_witness:
  "\<forall>env sha r until. \<exists>w until' reply.
     Serve env (relay_authority ex_inputs sha) r 5 (0, ex_relay []) until = Some (w, until', reply)"
proof (intro allI)
  fix env sha r until
  have "2 * card (set [''a'', ''b'']) + 1 = (5 :: nat)" by simp
  then show "\<exists>w until' reply. Serve env (relay_authority ex_inputs sha) r 5 (0, ex_relay []) until = Some (w, until', reply)"
    using edge_answers_every_request [OF ex_edge, of env sha r until] by metis
qed

lemma serving_keeps_the_edge_invariant_witness:
  "\<forall>env sha r until. \<exists>n' relay' until' reply.
     Serve env (relay_authority ex_inputs sha) r 5 (0, ex_relay []) until = Some ((n', relay'), until', reply)
     \<and> relay_inv relay'"
proof (intro allI)
  fix env sha r until
  have "Serve env (relay_authority ex_inputs sha) r (2 * card (set [''a'', ''b'']) + 1) (0, ex_relay []) until \<noteq> None"
    by (rule edge_serving.Serve_returns [OF ex_edge])
  moreover have "2 * card (set [''a'', ''b'']) + 1 = (5 :: nat)" by simp
  ultimately obtain n' relay' until' reply where
    run: "Serve env (relay_authority ex_inputs sha) r 5 (0, ex_relay []) until = Some ((n', relay'), until', reply)"
    by (metis not_None_eq prod.exhaust)
  have "relay_inv (ex_relay [])" using ex_edge by (simp add: edge_serving_inv_def)
  from serving_keeps_the_edge_invariant [OF this run] run
  show "\<exists>n' relay' until' reply. Serve env (relay_authority ex_inputs sha) r 5 (0, ex_relay []) until
      = Some ((n', relay'), until', reply) \<and> relay_inv relay'" by blast
qed

end
