(* ===== verification/Broker_Db.thy ===== *)
theory Broker_Db
  imports Gateway_Types Go_Strings Event_Bus
begin

text \<open>
  The broker's SQLite tables (internal/store/migrations) as far as routing, the weekly cycle,
  usage polling, credentials and the relay authority use them, and \<open>Store.Write\<close>.

  A table whose primary key is the account is a partial map from account identifiers to rows;
  the tables scanned by other columns are lists of rows in insertion order. A nullable column
  is an option. Columns that are written and never read by the modelled code
  (\<open>updated_at_ms\<close>, the lease columns of operations) are left out, and a credential row holds
  the payload its envelope seals, so that sealing and opening are the identity. SQL arithmetic
  does not wrap (SQLite turns an overflow into a float), so it is written on \<open>int\<close>; Go
  arithmetic on a value from outside is wrapped with \<open>w64\<close>.
\<close>

named_theorems db_simps \<open>reading back a table after an update\<close>

subsection \<open>Rows\<close>

record account_row =
  ar_account_id :: string
  ar_public_token :: string
  ar_display_name :: string
  ar_workspace_constraint :: "string option"
  ar_enabled :: bool
  ar_created_at_ms :: int
  ar_deleted_at_ms :: nullint
  ar_lifecycle_state :: string
  ar_preferred_login_method :: string
  ar_last_successful_login_method :: "string option"

record state_row =
  as_auth_state :: string
  as_worker_state :: string
  as_overall_state :: string
  as_usage_state :: string
  as_upstream_email :: "string option"
  as_upstream_plan :: "string option"
  as_last_auth_verified_at_ms :: nullint
  as_last_error_code :: "string option"
  as_last_error_summary :: "string option"
  as_last_routed_at_ms :: nullint
  as_state_version :: int

record usage_row =
  uc_snapshot_id :: "string option"
  uc_selected_limit_id :: "string option"
  uc_short_raw_slot :: "string option"
  uc_short_used_percent_raw :: nullint
  uc_short_duration_minutes :: nullint
  uc_short_resets_at_s :: nullint
  uc_short_anomaly :: bool
  uc_weekly_raw_slot :: "string option"
  uc_weekly_used_percent_raw :: nullint
  uc_weekly_duration_minutes :: nullint
  uc_weekly_resets_at_s :: nullint
  uc_weekly_anomaly :: bool
  uc_complete_read_at_ms :: nullint
  uc_last_attempt_at_ms :: nullint
  uc_stale :: bool
  uc_last_error_code :: "string option"
  uc_last_error_summary :: "string option"
  uc_source :: string
  uc_state_version :: int

record pulse_row =
  pw_last_attempt_at_ms :: int
  pw_last_success_at_ms :: nullint
  pw_next_pulse_at_ms :: nullint
  pw_last_error_code :: "string option"
  pw_cycle_state :: string
  pw_weekly_started_at_ms :: nullint
  pw_last_usage_observed_at_ms :: nullint
  pw_idle_observation_count :: int

record exclusion_row =
  ex_failure_kind :: string
  ex_expires_at_ms :: int
  ex_created_at_ms :: int

record quota_block_row =
  qb_blocked_at_ms :: int
  qb_retry_at_ms :: int

record refresh_request_row =
  rq_due_at_ms :: int
  rq_reason :: string
  rq_next_attempt_at_ms :: int

record reset_poll_row =
  rp_reset_at_s :: int
  rp_last_polled_reset_at_s :: int

record reservation_row =
  rv_relay_id :: string
  rv_account_id :: string
  rv_permit_epoch :: string
  rv_expires_at_ms :: int
  rv_updated_at_ms :: int

record operation_row =
  op_operation_id :: string
  op_account_id :: "string option"
  op_kind :: string
  op_trigger :: string
  op_state :: string
  op_progress_code :: "string option"
  op_progress_summary :: "string option"
  op_result_json :: "string option"
  op_error_code :: "string option"
  op_error_summary :: "string option"
  op_created_at_ms :: int
  op_started_at_ms :: nullint
  op_completed_at_ms :: nullint
  op_state_version :: int

text \<open>The files of a credential bundle (vault.Payload), with the content in base64.\<close>

record credential_file =
  cf_relative_path :: string
  cf_sha256 :: string
  cf_content_base64 :: string

record bundle_row =
  bu_bundle_id :: string
  bu_account_id :: string
  bu_state :: string
  bu_files :: "credential_file list"
  bu_created_at_ms :: int
  bu_retired_at_ms :: nullint

record key_row =
  ck_key_id :: string
  ck_name :: string
  ck_key_prefix :: string
  ck_secret_hash :: string
  ck_streamer_mode :: bool
  ck_created_at_ms :: int
  ck_last_used_at_ms :: nullint
  ck_revoked_at_ms :: nullint

record key_label_row =
  kl_key_id :: string
  kl_label_id :: string
  kl_mode :: string

record incident_row =
  ic_incident_id :: string
  ic_scope_key :: string
  ic_problem_type :: string
  ic_state :: string
  ic_severity :: string
  ic_summary :: string
  ic_current_error_code :: "string option"
  ic_occurrence_count :: int
  ic_opened_at_ms :: int
  ic_last_seen_at_ms :: int
  ic_resolved_at_ms :: nullint
  ic_resolution_reason :: "string option"
  ic_state_version :: int

record snapshot_row =
  us_snapshot_id :: string
  us_account_id :: string
  us_attempted_at_ms :: int
  us_completed_at_ms :: nullint
  us_success :: bool
  us_error_code :: "string option"
  us_error_summary :: "string option"
  us_duration_ms :: int

record poll_state_row =
  pl_next_regular_at_ms :: int
  pl_next_sweep_at_ms :: int
  pl_regular_cursor :: string

record cycle_state_row =
  cy_cadence_anchor_at_ms :: nullint
  cy_member_count :: nat
  cy_state_version :: int

text \<open>
  Proxy telemetry: the responses kept for a week, the totals by period and model, the usage
  intervals with the merged spans of activity (a JSON text in the table), and their lifetime
  sums. \<open>qi_model\<close> is None for mixed or unknown activity and empty before any activity.
\<close>

record response_row =
  pr_request_id :: string
  pr_account_id :: string
  pr_client_key_id :: "string option"
  pr_upstream_started_at_ms :: int
  pr_terminal_event_at_ms :: int
  pr_input_tokens :: nullint
  pr_cached_input_tokens :: nullint
  pr_output_tokens :: nullint
  pr_reasoning_output_tokens :: nullint
  pr_total_tokens :: nullint
  pr_stats_model :: string
  pr_active_duration_ms :: int

record totals_row =
  pt_response_count :: int
  pt_active_duration_ms :: int
  pt_input_tokens :: int
  pt_cached_input_tokens :: int
  pt_output_tokens :: int
  pt_reasoning_output_tokens :: int
  pt_total_tokens :: int

record interval_row =
  qi_snapshot_id :: string
  qi_account_id :: string
  qi_window_kind :: string
  qi_started_at_ms :: int
  qi_ended_at_ms :: int
  qi_used_percent :: int
  qi_active_ms :: int
  qi_spans :: "(int \<times> int) list"
  qi_model :: "string option"

record lifetime_row =
  ql_samples :: int
  ql_used_percent :: int
  ql_active_ms :: int

record heartbeat_row =
  rh_protocol_version :: int
  rh_snapshot_id :: "string option"
  rh_cache_generated_at_ms :: nullint
  rh_ready :: bool
  rh_last_seen_at_ms :: int

text \<open>
  The profile of an account (its daily usage is a JSON text in the table), sign-in attempts and
  public enrollments.
\<close>

record profile_row =
  pf_profile_display_name :: "string option"
  pf_username :: "string option"
  pf_stats_as_of :: "string option"
  pf_stats_error :: "string option"
  pf_lifetime_tokens :: nullint
  pf_peak_daily_tokens :: nullint
  pf_longest_running_turn_sec :: nullint
  pf_current_streak_days :: nullint
  pf_longest_streak_days :: nullint
  pf_daily_usage_buckets :: "(string \<times> int) list"
  pf_fast_mode_usage_percentage :: "rat option"
  pf_most_used_reasoning_effort :: "string option"
  pf_most_used_reasoning_effort_percentage :: "rat option"
  pf_unique_skills_used :: nullint
  pf_total_skills_used :: nullint
  pf_total_threads :: nullint
  pf_complete_read_at_ms :: nullint
  pf_last_attempt_at_ms :: nullint
  pf_stale :: bool
  pf_last_error_code :: "string option"
  pf_last_error_summary :: "string option"
  pf_state_version :: int

record login_row =
  la_login_attempt_id :: string
  la_account_id :: string
  la_operation_id :: string
  la_method :: string
  la_state :: string
  la_upstream_login_id :: "string option"
  la_initiating_session_hash :: string
  la_interaction_nonce_hash :: string
  la_callback_port :: nullint
  la_callback_mode :: "string option"
  la_observed_email :: "string option"
  la_observed_plan_type :: "string option"
  la_error_code :: "string option"
  la_error_summary :: "string option"

record enrollment_row =
  en_enrollment_id :: string
  en_account_id :: string
  en_login_attempt_id :: string
  en_session_hash :: string
  en_state :: string
  en_observed_email :: "string option"

record broker_db =
  t_accounts :: "account_row list"
  t_account_state :: "string \<Rightarrow> state_row option"
  t_usage_current :: "string \<Rightarrow> usage_row option"
  t_window_pulse_state :: "string \<Rightarrow> pulse_row option"
  t_account_quota_blocks :: "string \<Rightarrow> quota_block_row option"
  t_account_exclusions :: "string \<times> string \<Rightarrow> exclusion_row option"
  t_usage_refresh_requests :: "string \<Rightarrow> refresh_request_row option"
  t_usage_reset_polls :: "string \<times> string \<Rightarrow> reset_poll_row option"
  t_relay_reservations :: "reservation_row list"
  t_operations :: "operation_row list"
  t_credential_bundles :: "bundle_row list"
  t_client_api_keys :: "key_row list"
  t_client_key_labels :: "key_label_row list"
  t_labels :: "(string \<times> string) list"
  t_account_labels :: "(string \<times> string) list"
  t_incidents :: "incident_row list"
  t_usage_snapshots :: "snapshot_row list"
  t_usage_poll_state :: poll_state_row
  t_weekly_cycle_state :: cycle_state_row
  t_relay_events :: "string list"
  t_relay_heartbeats :: "string \<Rightarrow> heartbeat_row option"
  t_proxy_responses :: "response_row list"
  t_proxy_usage_totals :: "string \<times> string \<Rightarrow> totals_row option"
  t_quota_intervals :: "interval_row list"
  t_quota_lifetime :: "string \<times> string \<Rightarrow> lifetime_row option"
  t_quota_model_lifetime :: "string \<times> string \<times> string \<Rightarrow> lifetime_row option"
  t_account_profiles :: "string \<Rightarrow> profile_row option"
  t_login_attempts :: "login_row list"
  t_public_enrollments :: "enrollment_row list"
  t_public_enrollment_open :: "bool option"

text \<open>The database of a fresh broker.\<close>

definition empty_db :: broker_db where
  "empty_db = \<lparr>t_accounts = [], t_account_state = Map.empty, t_usage_current = Map.empty,
     t_window_pulse_state = Map.empty, t_account_quota_blocks = Map.empty,
     t_account_exclusions = Map.empty, t_usage_refresh_requests = Map.empty,
     t_usage_reset_polls = Map.empty, t_relay_reservations = [], t_operations = [],
     t_credential_bundles = [], t_client_api_keys = [], t_client_key_labels = [], t_labels = [],
     t_account_labels = [], t_incidents = [], t_usage_snapshots = [],
     t_usage_poll_state = \<lparr>pl_next_regular_at_ms = 0, pl_next_sweep_at_ms = 0, pl_regular_cursor = []\<rparr>,
     t_weekly_cycle_state = \<lparr>cy_cadence_anchor_at_ms = None, cy_member_count = 0, cy_state_version = 0\<rparr>,
     t_relay_events = [], t_relay_heartbeats = Map.empty, t_proxy_responses = [],
     t_proxy_usage_totals = Map.empty, t_quota_intervals = [], t_quota_lifetime = Map.empty,
     t_quota_model_lifetime = Map.empty, t_account_profiles = Map.empty, t_login_attempts = [],
     t_public_enrollments = [], t_public_enrollment_open = None\<rparr>"

subsection \<open>Transactions\<close>

text \<open>
  \<open>Store.Write\<close>: the work of a transaction either commits with a result, or its error rolls
  everything back. Failures of SQLite itself are not modelled.
\<close>

definition Write :: "(broker_db \<Rightarrow> go_error + 'a \<times> broker_db) \<Rightarrow> broker_db \<Rightarrow> (go_error + 'a) \<times> broker_db" where
  "Write work db =
     (case work db of
        Inl e \<Rightarrow> (Inl e, db)
      | Inr (x, db') \<Rightarrow> (Inr x, db'))"

lemma Write_Inl: "Write work db = (Inl e, db') \<Longrightarrow> db' = db"
  by (auto simp: Write_def split: sum.splits prod.splits)

lemma Write_Inr: "Write work db = (Inr x, db') \<longleftrightarrow> work db = Inr (x, db')"
  by (auto simp: Write_def split: sum.splits prod.splits)

lemma Write_work: "work db = Inr (x, db') \<Longrightarrow> Write work db = (Inr x, db')"
  "work db = Inl e \<Longrightarrow> Write work db = (Inl e, db)"
  by (auto simp: Write_def)

subsection \<open>Reading and updating rows\<close>

text \<open>\<open>UPDATE \<dots> WHERE account_id=k\<close> and \<open>DELETE \<dots> WHERE P\<close> on a keyed table.\<close>

definition update_row :: "('r \<Rightarrow> 'r) \<Rightarrow> 'k \<Rightarrow> ('k \<Rightarrow> 'r option) \<Rightarrow> 'k \<Rightarrow> 'r option" where
  "update_row f k t = t(k := map_option f (t k))"

definition delete_where :: "('k \<Rightarrow> 'r \<Rightarrow> bool) \<Rightarrow> ('k \<Rightarrow> 'r option) \<Rightarrow> 'k \<Rightarrow> 'r option" where
  "delete_where P t k = (case t k of None \<Rightarrow> None | Some row \<Rightarrow> if P k row then None else Some row)"

text \<open>\<open>UPDATE \<dots> WHERE P\<close> on a list of rows.\<close>

definition update_where :: "('r \<Rightarrow> bool) \<Rightarrow> ('r \<Rightarrow> 'r) \<Rightarrow> 'r list \<Rightarrow> 'r list" where
  "update_where P f rows = map (\<lambda>row. if P row then f row else row) rows"

lemma update_row_same [simp, db_simps]: "update_row f k t k = map_option f (t k)"
  by (simp add: update_row_def)

lemma update_row_other [simp, db_simps]: "k' \<noteq> k \<Longrightarrow> update_row f k t k' = t k'"
  by (simp add: update_row_def)

lemma update_row_apply [db_simps]: "update_row f k t k' = (if k' = k then map_option f (t k) else t k')"
  by (simp add: update_row_def)

lemma update_row_None [simp]: "update_row f k t k' = None \<longleftrightarrow> t k' = None"
  by (simp add: update_row_def)

lemma dom_update_row [simp]: "dom (update_row f k t) = dom t"
  by (auto simp: update_row_def split: if_splits)

lemma delete_where_Some [simp]: "delete_where P t k = Some row \<longleftrightarrow> t k = Some row \<and> \<not> P k row"
  by (auto simp: delete_where_def split: option.splits)

lemma delete_where_None: "delete_where P t k = None \<longleftrightarrow> (\<forall>row. t k = Some row \<longrightarrow> P k row)"
  by (auto simp: delete_where_def split: option.splits)

lemma length_update_where [simp]: "length (update_where P f rows) = length rows"
  by (simp add: update_where_def)

lemma set_update_where: "set (update_where P f rows) = (\<lambda>row. if P row then f row else row) ` set rows"
  by (simp add: update_where_def)

lemma map_update_where:
  "(\<And>row. P row \<Longrightarrow> g (f row) = g row) \<Longrightarrow> map g (update_where P f rows) = map g rows"
  by (simp add: update_where_def)

subsection \<open>Predicates the queries share\<close>

text \<open>A comparison with a NULL is not true.\<close>

definition sql_gt :: "nullint \<Rightarrow> int \<Rightarrow> bool" where
  "sql_gt v n \<longleftrightarrow> (case v of None \<Rightarrow> False | Some x \<Rightarrow> n < x)"

definition coalesce :: "nullint \<Rightarrow> int \<Rightarrow> int" where
  "coalesce v d = (case v of None \<Rightarrow> d | Some x \<Rightarrow> x)"

definition open_states :: "string list" where
  "open_states = [''QUEUED'', ''RUNNING'', ''WAITING_FOR_USER'', ''RETRY_SCHEDULED'']"

definition is_open :: "operation_row \<Rightarrow> bool" where
  "is_open row \<longleftrightarrow> op_state row \<in> set open_states"

definition has_open_operation :: "broker_db \<Rightarrow> string \<Rightarrow> bool" where
  "has_open_operation db account \<longleftrightarrow>
     list_ex (\<lambda>row. op_account_id row = Some account \<and> is_open row) (t_operations db)"

definition has_active_bundle :: "broker_db \<Rightarrow> string \<Rightarrow> bool" where
  "has_active_bundle db account \<longleftrightarrow>
     list_ex (\<lambda>row. bu_account_id row = account \<and> bu_state row = ''ACTIVE'') (t_credential_bundles db)"

definition capacity_left :: "usage_row \<Rightarrow> bool" where
  "capacity_left u \<longleftrightarrow>
     coalesce (uc_short_used_percent_raw u) 0 < 100 \<and> coalesce (uc_weekly_used_percent_raw u) 0 < 100"

definition by_creation :: "account_row list \<Rightarrow> account_row list" where
  "by_creation rows = sort_key (\<lambda>a. (ar_created_at_ms a, ar_account_id a)) rows"

definition account_by_public :: "broker_db \<Rightarrow> string \<Rightarrow> account_row option" where
  "account_by_public db public = find (\<lambda>a. ar_public_token a = public) (t_accounts db)"

lemma set_by_creation [simp]: "set (by_creation rows) = set rows"
  by (simp add: by_creation_def)

text \<open>The row an INSERT INTO operations of a queued operation writes.\<close>

definition queued_operation :: "string \<Rightarrow> string option \<Rightarrow> string \<Rightarrow> string \<Rightarrow> int \<Rightarrow> operation_row" where
  "queued_operation i account kind trig now =
     \<lparr>op_operation_id = i, op_account_id = account, op_kind = kind, op_trigger = trig,
      op_state = ''QUEUED'', op_progress_code = None, op_progress_summary = None,
      op_result_json = None, op_error_code = None, op_error_summary = None,
      op_created_at_ms = now, op_started_at_ms = None, op_completed_at_ms = None,
      op_state_version = 1\<rparr>"

definition add_operation :: "operation_row \<Rightarrow> broker_db \<Rightarrow> broker_db" where
  "add_operation row db = db\<lparr>t_operations := t_operations db @ [row]\<rparr>"

lemma is_open_queued [simp]: "is_open (queued_operation i account kind trig now)"
  by (simp add: is_open_def queued_operation_def open_states_def)

lemma op_account_id_queued [simp]: "op_account_id (queued_operation i account kind trig now) = account"
  by (simp add: queued_operation_def)

subsection \<open>The broker's state\<close>

text \<open>
  What the services share: the database, the events published and the webhook events emitted
  so far (event, subject, details), newest last.
\<close>

record broker =
  br_db :: broker_db
  br_published :: "(string \<times> gomap) list"
  br_webhooks :: "(string \<times> string \<times> gomap) list"

definition publish :: "string \<Rightarrow> gomap \<Rightarrow> broker \<Rightarrow> broker" where
  "publish name data b = b\<lparr>br_published := br_published b @ [(name, data)]\<rparr>"

definition emit_webhook :: "string \<Rightarrow> string \<Rightarrow> gomap \<Rightarrow> broker \<Rightarrow> broker" where
  "emit_webhook event subject details b = b\<lparr>br_webhooks := br_webhooks b @ [(event, subject, details)]\<rparr>"

text \<open>A transaction on the broker's database.\<close>

definition Write_b :: "(broker_db \<Rightarrow> go_error + 'a \<times> broker_db) \<Rightarrow> broker \<Rightarrow> (go_error + 'a) \<times> broker" where
  "Write_b work b = (case Write work (br_db b) of (r, db) \<Rightarrow> (r, b\<lparr>br_db := db\<rparr>))"

definition on_db :: "(broker_db \<Rightarrow> broker_db) \<Rightarrow> broker \<Rightarrow> broker" where
  "on_db f b = b\<lparr>br_db := f (br_db b)\<rparr>"

lemma br_db_publish [simp]: "br_db (publish name data b) = br_db b"
  by (simp add: publish_def)

lemma br_db_emit_webhook [simp]: "br_db (emit_webhook event subject details b) = br_db b"
  by (simp add: emit_webhook_def)

lemma fst_Write_b: "fst (Write_b work b) = fst (Write work (br_db b))"
  by (simp add: Write_b_def split: prod.split)

lemma br_db_Write_b: "br_db (snd (Write_b work b)) = snd (Write work (br_db b))"
  by (simp add: Write_b_def split: prod.split)

lemma br_db_on_db [simp]: "br_db (on_db f b) = f (br_db b)"
  by (simp add: on_db_def)

lemma br_published_on_db [simp]: "br_published (on_db f b) = br_published b"
  by (simp add: on_db_def)

end
