(* ===== verification/Client_Keys.thy ===== *)
theory Client_Keys
  imports Broker_Db
begin

text \<open>
  internal/auth/clients.go, internal/auth/scopes.go and internal/broker/labels.go: client API
  keys, the labels they may or may not use, and the account scope they give a key.

  SHA-256 is an argument, as are the clock, the new identifier and the random token. A row
  that violates a primary key or a UNIQUE column makes the INSERT fail.
\<close>

subsection \<open>Names\<close>

text \<open>The bytes before the next white space, and \<open>strings.Fields\<close>.\<close>

function word_len :: "string \<Rightarrow> nat" where
  "word_len s = (if s = [] \<or> space_front s \<noteq> 0 then 0 else Suc (word_len (tl s)))"
  by pat_completeness auto
termination by (relation "measure length") auto

declare word_len.simps [simp del]

lemma length_trim_left: "length (trim_left s) \<le> length s"
proof (induction s rule: trim_left.induct)
  case (1 s)
  show ?case
  proof (cases "s = [] \<or> space_front s = 0")
    case True
    then show ?thesis by (auto simp: trim_left.simps [of s])
  next
    case False
    then have "length (trim_left s) \<le> length (drop (space_front s) s)"
      using 1 by (simp add: trim_left.simps [of s])
    then show ?thesis by simp
  qed
qed

lemma trim_left_front: "trim_left s = [] \<or> space_front (trim_left s) = 0"
proof (induction s rule: trim_left.induct)
  case (1 s)
  then show ?case
    by (cases "s = [] \<or> space_front s = 0") (auto simp: trim_left.simps [of s])
qed

function Fields :: "string \<Rightarrow> string list" where
  "Fields s =
     (let t = trim_left s in
      if t = [] then [] else take (word_len t) t # Fields (drop (word_len t) t))"
  by pat_completeness auto
termination
proof (relation "measure length")
  show "wf (measure length)" by simp
  fix s t :: string
  assume t: "t = trim_left s" and ne: "t \<noteq> []"
  have "word_len t \<noteq> 0"
    using trim_left_front [of s] ne unfolding t by (simp add: word_len.simps [of "trim_left s"])
  then show "(drop (word_len t) t, s) \<in> measure length"
    using length_trim_left [of s] t ne by (simp, metis diff_less le_trans length_greater_0_conv not_le order_less_le_trans)
qed

declare Fields.simps [simp del]

definition squeeze_spaces :: "string \<Rightarrow> string" where
  "squeeze_spaces name = join_with '' '' (Fields name)"

subsection \<open>Keys\<close>

record LabelScope =
  ls_ID :: string
  ls_Mode :: string

record IssuedClientKey =
  ik_ID :: string
  ik_Name :: string
  ik_Prefix :: string
  ik_Token :: string
  ik_CreatedAtMS :: int

definition constraint_failed :: go_error where
  "constraint_failed = OtherError ''constraint failed''"

definition scope_invalid :: go_error where
  "scope_invalid = NewError ''CLIENT_KEY_SCOPE_INVALID'' ''Choose existing labels and allow or block rules'' 422"

fun insert_scopes :: "string \<Rightarrow> LabelScope list \<Rightarrow> broker_db \<Rightarrow> go_error + broker_db" where
  "insert_scopes key [] db = Inr db"
| "insert_scopes key (s # rest) db =
     (if ls_ID s \<notin> fst ` set (t_labels db) \<or> ls_Mode s \<noteq> ''allow'' \<and> ls_Mode s \<noteq> ''block''
      then Inl scope_invalid
      else if list_ex (\<lambda>row. kl_key_id row = key \<and> kl_label_id row = ls_ID s) (t_client_key_labels db)
      then Inl constraint_failed
      else insert_scopes key rest
             (db\<lparr>t_client_key_labels := t_client_key_labels db
                 @ [\<lparr>kl_key_id = key, kl_label_id = ls_ID s, kl_mode = ls_Mode s\<rparr>]\<rparr>))"

definition saveScopes :: "string \<Rightarrow> LabelScope list \<Rightarrow> broker_db \<Rightarrow> go_error + broker_db" where
  "saveScopes key scopes db =
     insert_scopes key scopes
       (db\<lparr>t_client_key_labels := filter (\<lambda>row. kl_key_id row \<noteq> key) (t_client_key_labels db)\<rparr>)"

definition key_active :: "broker_db \<Rightarrow> string \<Rightarrow> bool" where
  "key_active db key \<longleftrightarrow>
     list_ex (\<lambda>row. ck_key_id row = key \<and> ck_revoked_at_ms row = None) (t_client_api_keys db)"

definition key_not_found :: go_error where
  "key_not_found = NewError ''CLIENT_KEY_NOT_FOUND'' ''Active client key not found'' 404"

definition SetScopes :: "string \<Rightarrow> LabelScope list \<Rightarrow> broker_db \<Rightarrow> (go_error + unit) \<times> broker_db" where
  "SetScopes key scopes =
     Write (\<lambda>db. if \<not> key_active db key then Inl key_not_found
                 else map_sum id (Pair ()) (saveScopes key scopes db))"

definition insert_key :: "key_row \<Rightarrow> broker_db \<Rightarrow> go_error + broker_db" where
  "insert_key row db =
     (if list_ex (\<lambda>r. ck_key_id r = ck_key_id row \<or> ck_secret_hash r = ck_secret_hash row) (t_client_api_keys db)
      then Inl constraint_failed
      else Inr (db\<lparr>t_client_api_keys := t_client_api_keys db @ [row]\<rparr>))"

definition Create :: "(string \<Rightarrow> string) \<Rightarrow> string \<Rightarrow> string \<Rightarrow> int \<Rightarrow> string \<Rightarrow> LabelScope list
    \<Rightarrow> broker_db \<Rightarrow> (go_error + IssuedClientKey) \<times> broker_db" where
  "Create sha256 newID randomToken now displayName scopes db =
     (let name = squeeze_spaces displayName in
      if RuneCountInString name < 1 \<or> 80 < RuneCountInString name
      then (Inl (OtherError ''client key name must contain 1-80 characters''), db)
      else
        (let token = ''cbk_'' @ randomToken;
             issued = \<lparr>ik_ID = newID, ik_Name = name, ik_Prefix = take 12 token, ik_Token = token,
                       ik_CreatedAtMS = now\<rparr>;
             row = \<lparr>ck_key_id = newID, ck_name = name, ck_key_prefix = take 12 token,
                    ck_secret_hash = sha256 token, ck_streamer_mode = False, ck_created_at_ms = now,
                    ck_last_used_at_ms = None, ck_revoked_at_ms = None\<rparr>
         in Write (\<lambda>db. case insert_key row db of
                           Inl e \<Rightarrow> Inl e
                         | Inr db1 \<Rightarrow> map_sum id (Pair issued) (saveScopes newID scopes db1)) db))"

text \<open>The rows are scanned to the end, so the last match counts.\<close>

definition matching_key :: "string \<Rightarrow> broker_db \<Rightarrow> key_row option" where
  "matching_key digest db =
     fold (\<lambda>row found. if ck_revoked_at_ms row = None \<and> ck_secret_hash row = digest then Some row else found)
       (t_client_api_keys db) None"

definition touch_key :: "int \<Rightarrow> string \<Rightarrow> broker_db \<Rightarrow> broker_db" where
  "touch_key now key db =
     db\<lparr>t_client_api_keys := update_where (\<lambda>row. ck_key_id row = key)
          (\<lambda>row. row\<lparr>ck_last_used_at_ms := Some now\<rparr>) (t_client_api_keys db)\<rparr>"

definition key_invalid :: go_error where
  "key_invalid = NewError ''CLIENT_KEY_INVALID'' ''Client authentication failed'' 401"

definition Authenticate :: "(string \<Rightarrow> string) \<Rightarrow> int \<Rightarrow> string \<Rightarrow> broker_db \<Rightarrow> (go_error + key_row) \<times> broker_db" where
  "Authenticate sha256 now token db =
     (case matching_key (sha256 token) db of
        None \<Rightarrow> (Inl key_invalid, db)
      | Some row \<Rightarrow> (Inr (row\<lparr>ck_last_used_at_ms := Some now\<rparr>), touch_key now (ck_key_id row) db))"

definition Revoke :: "int \<Rightarrow> string \<Rightarrow> broker_db \<Rightarrow> bool \<times> broker_db" where
  "Revoke now key db =
     (key_active db key,
      db\<lparr>t_client_api_keys := update_where (\<lambda>row. ck_key_id row = key \<and> ck_revoked_at_ms row = None)
           (\<lambda>row. row\<lparr>ck_revoked_at_ms := Some now\<rparr>) (t_client_api_keys db)\<rparr>)"

text \<open>Deleting a key cascades to its rules and exclusions.\<close>

definition DeleteRevoked :: "string \<Rightarrow> broker_db \<Rightarrow> bool \<times> broker_db" where
  "DeleteRevoked key db =
     (if list_ex (\<lambda>row. ck_key_id row = key \<and> ck_revoked_at_ms row \<noteq> None) (t_client_api_keys db)
      then (True,
        db\<lparr>t_client_api_keys := filter (\<lambda>row. ck_key_id row \<noteq> key) (t_client_api_keys db),
           t_client_key_labels := filter (\<lambda>row. kl_key_id row \<noteq> key) (t_client_key_labels db),
           t_account_exclusions := delete_where (\<lambda>(k, _) _. k = key) (t_account_exclusions db)\<rparr>)
      else (False, db))"

definition SetStreamerMode :: "string \<Rightarrow> bool \<Rightarrow> broker_db \<Rightarrow> (go_error + unit) \<times> broker_db" where
  "SetStreamerMode key enabled =
     Write (\<lambda>db. if key_active db key
        then Inr ((), db\<lparr>t_client_api_keys :=
               update_where (\<lambda>row. ck_key_id row = key \<and> ck_revoked_at_ms row = None)
                 (\<lambda>row. row\<lparr>ck_streamer_mode := enabled\<rparr>) (t_client_api_keys db)\<rparr>)
        else Inl key_not_found)"

subsection \<open>Labels\<close>

definition CreateLabel :: "string \<Rightarrow> string \<Rightarrow> broker_db \<Rightarrow> (go_error + unit) \<times> broker_db" where
  "CreateLabel newID name db =
     (let name = squeeze_spaces name in
      if name = [] \<or> 40 < RuneCountInString name \<or> Contains name '',''
      then (Inl (NewError ''ACCOUNT_LABELS_INVALID'' ''Use a label of 1-40 characters without commas'' 422), db)
      else Write (\<lambda>db. Inr ((),
        if list_ex (\<lambda>(i, n). i = newID \<or> map lower_char n = map lower_char name) (t_labels db) then db
        else db\<lparr>t_labels := t_labels db @ [(newID, name)]\<rparr>)) db)"

text \<open>Deleting a label cascades to the accounts that carry it.\<close>

definition DeleteLabel :: "string \<Rightarrow> broker \<Rightarrow> (go_error + unit) \<times> broker" where
  "DeleteLabel label b =
     (case Write (\<lambda>db. if list_ex (\<lambda>row. kl_label_id row = label) (t_client_key_labels db)
              then Inl (NewError ''LABEL_IN_USE'' ''Remove this label from client key access rules before deleting it'' 409)
              else Inr ((), db\<lparr>t_labels := filter (\<lambda>(i, _). i \<noteq> label) (t_labels db),
                     t_account_labels := filter (\<lambda>(_, i). i \<noteq> label) (t_account_labels db)\<rparr>)) (br_db b) of
        (Inl e, _) \<Rightarrow> (Inl e, b)
      | (Inr _, db) \<Rightarrow> (Inr (), publish ''account.updated'' [(''label_deleted'', AStr label)] (b\<lparr>br_db := db\<rparr>)))"

subsection \<open>The account scope of a key\<close>

definition key_rule_covers :: "broker_db \<Rightarrow> string \<Rightarrow> string \<Rightarrow> string \<Rightarrow> bool" where
  "key_rule_covers db key mode account \<longleftrightarrow>
     list_ex (\<lambda>row. kl_key_id row = key \<and> kl_mode row = mode
                    \<and> (account, kl_label_id row) \<in> set (t_account_labels db)) (t_client_key_labels db)"

definition account_scope :: "broker_db \<Rightarrow> string \<Rightarrow> string \<Rightarrow> bool" where
  "account_scope db key account \<longleftrightarrow>
     (\<not> list_ex (\<lambda>row. kl_key_id row = key \<and> kl_mode row = ''allow'') (t_client_key_labels db)
      \<or> key_rule_covers db key ''allow'' account)
     \<and> \<not> key_rule_covers db key ''block'' account"

definition AllowedAccountIDs :: "broker_db \<Rightarrow> string \<Rightarrow> string list" where
  "AllowedAccountIDs db key =
     map ar_public_token
       (filter (\<lambda>a. ar_deleted_at_ms a = None \<and> account_scope db key (ar_account_id a)) (t_accounts db))"

subsection \<open>Facts\<close>

lemma insert_scopes_frame:
  "insert_scopes key scopes db = Inr db' \<Longrightarrow>
   \<exists>rows. db' = db\<lparr>t_client_key_labels := t_client_key_labels db @ rows\<rparr>
     \<and> (\<forall>row\<in>set rows. kl_key_id row = key \<and> (kl_mode row = ''allow'' \<or> kl_mode row = ''block''))"
proof (induction key scopes db rule: insert_scopes.induct)
  case (1 key db)
  then show ?case by (intro exI [of _ "[]"]) simp
next
  case (2 key s rest db)
  then obtain rows where
    "db' = db\<lparr>t_client_key_labels := t_client_key_labels db @ \<lparr>kl_key_id = key, kl_label_id = ls_ID s, kl_mode = ls_Mode s\<rparr> # rows\<rparr>"
    "\<forall>row\<in>set rows. kl_key_id row = key \<and> (kl_mode row = ''allow'' \<or> kl_mode row = ''block'')"
    by (auto split: if_splits)
  moreover have "ls_Mode s = ''allow'' \<or> ls_Mode s = ''block''" using 2(2) by (auto split: if_splits)
  ultimately show ?case by (intro exI [of _ "\<lparr>kl_key_id = key, kl_label_id = ls_ID s, kl_mode = ls_Mode s\<rparr> # rows"]) auto
qed

lemma saveScopes_keys: "saveScopes key scopes db = Inr db' \<Longrightarrow> t_client_api_keys db' = t_client_api_keys db"
  by (auto simp: saveScopes_def dest!: insert_scopes_frame)

lemma last_match_none: "\<forall>row\<in>set rows. \<not> P row \<Longrightarrow> fold (\<lambda>row found. if P row then Some row else found) rows found = found"
  by (induction rows arbitrary: found) auto

lemma matching_key_last:
  assumes "t_client_api_keys db = rows @ [row]" and "\<forall>r\<in>set rows. ck_secret_hash r \<noteq> digest"
  shows "matching_key digest db = (if ck_revoked_at_ms row = None \<and> ck_secret_hash row = digest then Some row else None)"
  using assms last_match_none [of rows "\<lambda>row. ck_revoked_at_ms row = None \<and> ck_secret_hash row = digest"]
  by (simp add: matching_key_def)

text \<open>A created key is the last row, and no other row has its identifier or digest.\<close>

lemma Create_row:
  assumes "Create sha256 newID rnd now name scopes db = (Inr issued, db')"
  obtains row where "t_client_api_keys db' = t_client_api_keys db @ [row]"
    and "ck_key_id row = ik_ID issued" and "ck_name row = ik_Name issued" and "ck_key_prefix row = ik_Prefix issued"
    and "ck_secret_hash row = sha256 (ik_Token issued)" and "ck_revoked_at_ms row = None"
    and "\<forall>r\<in>set (t_client_api_keys db). ck_key_id r \<noteq> ik_ID issued \<and> ck_secret_hash r \<noteq> sha256 (ik_Token issued)"
  using assms
  by (auto simp: Create_def Let_def Write_Inr insert_key_def list_ex_iff map_sum_def
      split: if_splits sum.splits dest!: saveScopes_keys)

lemma Authenticate_created:
  assumes "Create sha256 newID rnd now name scopes db = (Inr issued, db')"
  shows "\<exists>row. fst (Authenticate sha256 t (ik_Token issued) db') = Inr row
     \<and> ck_key_id row = ik_ID issued \<and> ck_name row = ik_Name issued"
  using assms
proof (rule Create_row)
  fix row
  assume row: "t_client_api_keys db' = t_client_api_keys db @ [row]" "ck_key_id row = ik_ID issued"
    "ck_name row = ik_Name issued" "ck_secret_hash row = sha256 (ik_Token issued)" "ck_revoked_at_ms row = None"
    "\<forall>r\<in>set (t_client_api_keys db). ck_key_id r \<noteq> ik_ID issued \<and> ck_secret_hash r \<noteq> sha256 (ik_Token issued)"
  then have "matching_key (sha256 (ik_Token issued)) db' = Some row"
    by (subst matching_key_last) auto
  then show ?thesis using row by (simp add: Authenticate_def)
qed

lemma Authenticate_revoked:
  assumes "Create sha256 newID rnd now name scopes db = (Inr issued, db')"
  shows "fst (Authenticate sha256 t (ik_Token issued) (snd (Revoke u (ik_ID issued) db'))) = Inl key_invalid"
  using assms
proof (rule Create_row)
  fix row
  assume row: "t_client_api_keys db' = t_client_api_keys db @ [row]" "ck_key_id row = ik_ID issued"
    "ck_revoked_at_ms row = None"
    "\<forall>r\<in>set (t_client_api_keys db). ck_key_id r \<noteq> ik_ID issued \<and> ck_secret_hash r \<noteq> sha256 (ik_Token issued)"
  have "matching_key (sha256 (ik_Token issued)) (snd (Revoke u (ik_ID issued) db')) = None"
    by (subst matching_key_last [where rows = "update_where (\<lambda>row. ck_key_id row = ik_ID issued \<and> ck_revoked_at_ms row = None)
          (\<lambda>row. row\<lparr>ck_revoked_at_ms := Some u\<rparr>) (t_client_api_keys db)" and row = "row\<lparr>ck_revoked_at_ms := Some u\<rparr>"])
      (use row in \<open>auto simp: Revoke_def update_where_def\<close>)
  then show ?thesis by (simp add: Authenticate_def)
qed

lemma AllowedAccountIDs_iff:
  assumes "distinct (map ar_public_token (t_accounts db))" and "a \<in> set (t_accounts db)" and "ar_deleted_at_ms a = None"
  shows "ar_public_token a \<in> set (AllowedAccountIDs db key) \<longleftrightarrow> account_scope db key (ar_account_id a)"
  using assms by (auto simp: AllowedAccountIDs_def distinct_map inj_on_def)

lemma account_scope_unrestricted:
  "\<not> list_ex (\<lambda>row. kl_key_id row = key) (t_client_key_labels db) \<Longrightarrow> account_scope db key account"
  by (auto simp: account_scope_def key_rule_covers_def list_ex_iff)



end
