(* ===== verification/Redact.thy ===== *)
theory Redact
  imports Go_Strings
begin

text \<open>
  internal/logbook/redact.go: what is removed from values before they are stored or logged,
  and the truncation of summaries (internal/broker/service.go).

  The replacements by the token and the URL pattern are arguments (\<open>red_tokens\<close>,
  \<open>red_urls\<close>): regular expressions and URL parsing are library code.
\<close>

record redactor =
  red_tokens :: "string \<Rightarrow> string"
  red_urls :: "string \<Rightarrow> string"

definition deniedKeys :: "string list" where
  "deniedKeys = [''authorization'', ''password'', ''token'', ''access_token'', ''refresh_token'',
     ''id_token'', ''csrf'', ''session'', ''authurl'', ''auth_url'', ''verificationurl'',
     ''verification_url'', ''usercode'', ''user_code'', ''callbackurl'', ''callback_url'',
     ''code'', ''state'', ''code_verifier'', ''code_challenge'']"

definition denied :: "string \<Rightarrow> bool" where
  "denied key \<longleftrightarrow> ToLower key \<in> set deniedKeys"

definition redacted :: string where "redacted = ''[REDACTED]''"

text \<open>\<open>string([]rune(s)[:n])\<close>: an invalid byte becomes the replacement character.\<close>

fun take_runes :: "nat \<Rightarrow> string \<Rightarrow> string" where
  "take_runes 0 s = []"
| "take_runes (Suc n) s =
     (if s = [] then []
      else if rune_len s = 0 then [CHR 0xEF, CHR 0xBF, CHR 0xBD] @ take_runes n (tl s)
      else take (rune_len s) s @ take_runes n (drop (rune_len s) s))"

definition truncate_runes :: "nat \<Rightarrow> string \<Rightarrow> string" where
  "truncate_runes n s = (if n < RuneCountInString s then take_runes n s else s)"

definition single_line :: "string \<Rightarrow> string" where
  "single_line s = map (\<lambda>c. if c = CHR 0x0D \<or> c = CHR 0x0A then CHR '' '' else c) s"

definition redact_string :: "redactor \<Rightarrow> string \<Rightarrow> string" where
  "redact_string lib s = red_urls lib (red_tokens lib (truncate_runes 8192 (single_line s)))"

fun Redact :: "redactor \<Rightarrow> any \<Rightarrow> any" where
  "Redact lib (AMap m) = AMap (map (\<lambda>(k, v). (k, if denied k then AStr redacted else Redact lib v)) m)"
| "Redact lib (AArr vs) = AArr (map (Redact lib) vs)"
| "Redact lib (AStr s) = AStr (redact_string lib s)"
| "Redact lib v = v"

definition truncateSummary :: "string \<Rightarrow> string" where
  "truncateSummary s = truncate_runes 200 s"

definition safe_summary :: "redactor \<Rightarrow> string \<Rightarrow> string" where
  "safe_summary lib s = truncateSummary (as_string (Redact lib (AStr s)))"

subsection \<open>What is kept\<close>

text \<open>A value hides its secrets when, at every depth, a denied key holds only the mark.\<close>

fun hides_secrets :: "any \<Rightarrow> bool" where
  "hides_secrets (AMap m) \<longleftrightarrow> (\<forall>(k, v)\<in>set m. (denied k \<longrightarrow> v = AStr redacted) \<and> hides_secrets v)"
| "hides_secrets (AArr vs) \<longleftrightarrow> (\<forall>v\<in>set vs. hides_secrets v)"
| "hides_secrets v \<longleftrightarrow> True"

text \<open>The same keys and the same lengths.\<close>

fun same_shape :: "any \<Rightarrow> any \<Rightarrow> bool" where
  "same_shape (AMap m) w \<longleftrightarrow> (case w of AMap m' \<Rightarrow> map fst m = map fst m' | _ \<Rightarrow> False)"
| "same_shape (AArr vs) w \<longleftrightarrow> (case w of AArr vs' \<Rightarrow> length vs = length vs' | _ \<Rightarrow> False)"
| "same_shape (AStr s) w \<longleftrightarrow> (case w of AStr _ \<Rightarrow> True | _ \<Rightarrow> False)"
| "same_shape v w \<longleftrightarrow> v = w"

lemma Redact_hides: "hides_secrets (Redact lib v)"
proof (induction lib v rule: Redact.induct)
  case (1 lib m)
  then show ?case by (fastforce split: prod.splits)
qed auto

lemma Redact_shape: "same_shape v (Redact lib v)"
  by (cases v) (auto simp: comp_def split_beta)


end
