(* ===== verification/Credentials.thy ===== *)
theory Credentials
  imports Broker_Db Redact
begin

text \<open>
  The credential part of internal/broker/credentials.go with the payload checks of
  internal/vault/vault.go: the active bundle of an account, the runtime that may change it,
  the checkpoint of the changed credential, the lease read from it, and the incidents.

  Base64, SHA-256 and JSON decoding are the fields of \<open>cred_lib\<close>. One use of the external
  Codex runtime is a \<open>runtime_run\<close>: what starting, closing, capturing and discarding it returned.
  The credential lock of an account makes every use of its runtime one step.
\<close>

record cred_lib =
  cl_std_base64 :: "string \<Rightarrow> string option"
  cl_url_base64 :: "string \<Rightarrow> string option"
  cl_sha256_hex :: "string \<Rightarrow> string"
  cl_json_object :: "string \<Rightarrow> bool"
  cl_access_token :: "string \<Rightarrow> string option"
  cl_claims :: "string \<Rightarrow> (int \<times> string) option"

record cred_lease =
  ce_ChatGPTAccountID :: string
  ce_AccessToken :: string
  ce_ExpiresAtMS :: int

subsection \<open>Payloads\<close>

fun AuthJSON :: "cred_lib \<Rightarrow> credential_file list \<Rightarrow> go_error + string" where
  "AuthJSON lib [] = Inl (OtherError ''credential bundle has no auth.json'')"
| "AuthJSON lib (f # files) =
     (if cf_relative_path f \<noteq> ''auth.json'' then AuthJSON lib files
      else case cl_std_base64 lib (cf_content_base64 f) of
             None \<Rightarrow> Inl (OtherError ''illegal base64 data'')
           | Some content \<Rightarrow>
               if cl_sha256_hex lib content \<noteq> cf_sha256 f
               then Inl (OtherError ''credential payload digest mismatch'')
               else if \<not> cl_json_object lib content then Inl (OtherError ''auth.json is not valid JSON'')
               else Inr content)"

definition AuthFingerprint :: "cred_lib \<Rightarrow> credential_file list \<Rightarrow> go_error + string" where
  "AuthFingerprint lib files =
     (case AuthJSON lib files of
        Inl e \<Rightarrow> Inl e
      | Inr _ \<Rightarrow> (case find (\<lambda>f. cf_relative_path f = ''auth.json'') files of
                    Some f \<Rightarrow> Inr (cf_sha256 f)
                  | None \<Rightarrow> Inl (OtherError ''credential bundle has no auth.json'')))"

definition splitToken :: "string \<Rightarrow> string list" where
  "splitToken token = split_on CHR ''.'' token"

definition formatError :: go_error where
  "formatError = NewError ''CREDENTIAL_FORMAT_INVALID'' ''The active credential cannot be leased'' 503"

definition leaseFromPayload :: "cred_lib \<Rightarrow> credential_file list \<Rightarrow> go_error + cred_lease" where
  "leaseFromPayload lib files =
     (case AuthJSON lib files of
        Inl _ \<Rightarrow> Inl formatError
      | Inr content \<Rightarrow>
          (case cl_access_token lib content of
             None \<Rightarrow> Inl formatError
           | Some token \<Rightarrow>
               if token = [] then Inl formatError
               else case splitToken token of
                 [_, part, _] \<Rightarrow>
                   (case cl_url_base64 lib part of
                      None \<Rightarrow> Inl formatError
                    | Some body \<Rightarrow>
                        (case cl_claims lib body of
                           None \<Rightarrow> Inl formatError
                         | Some (expiry, account) \<Rightarrow>
                             if expiry \<le> 0 \<or> account = [] then Inl formatError
                             else Inr \<lparr>ce_ChatGPTAccountID = account, ce_AccessToken = token,
                                       ce_ExpiresAtMS = w64 (expiry * 1000)\<rparr>))
               | _ \<Rightarrow> Inl formatError))"

subsection \<open>The active bundle\<close>

definition read_bundle :: "broker_db \<Rightarrow> string \<Rightarrow> string \<Rightarrow> go_error + credential_file list" where
  "read_bundle db account state =
     (case find (\<lambda>row. bu_account_id row = account \<and> bu_state row = state) (t_credential_bundles db) of
        None \<Rightarrow> Inl (NewError ''AUTH_REQUIRED'' ''The account must be authenticated first'' 409)
      | Some row \<Rightarrow> Inr (bu_files row))"

definition retire_active :: "int \<Rightarrow> string \<Rightarrow> broker_db \<Rightarrow> broker_db" where
  "retire_active now account db =
     db\<lparr>t_credential_bundles := update_where (\<lambda>row. bu_account_id row = account \<and> bu_state row = ''ACTIVE'')
          (\<lambda>row. row\<lparr>bu_state := ''RETIRED'', bu_retired_at_ms := Some now\<rparr>) (t_credential_bundles db)\<rparr>"

definition add_bundle :: "bundle_row \<Rightarrow> broker_db \<Rightarrow> broker_db" where
  "add_bundle row db = db\<lparr>t_credential_bundles := t_credential_bundles db @ [row]\<rparr>"

text \<open>The identifier of an envelope is new; its failure to seal is not modelled.\<close>

definition replaceActive :: "string \<Rightarrow> int \<Rightarrow> string \<Rightarrow> credential_file list \<Rightarrow> broker_db \<Rightarrow> broker_db" where
  "replaceActive newID now account files db =
     add_bundle \<lparr>bu_bundle_id = newID, bu_account_id = account, bu_state = ''ACTIVE'', bu_files = files,
                 bu_created_at_ms = now, bu_retired_at_ms = None\<rparr> (retire_active now account db)"

subsection \<open>The use of a credential\<close>

definition on_state :: "(state_row \<Rightarrow> state_row) \<Rightarrow> string \<Rightarrow> broker_db \<Rightarrow> broker_db" where
  "on_state f account db = db\<lparr>t_account_state := update_row f account (t_account_state db)\<rparr>"

abbreviation bump_version :: "state_row \<Rightarrow> state_row" where
  "bump_version row \<equiv> row\<lparr>as_state_version := as_state_version row + 1\<rparr>"

definition runtime_blocked :: go_error where
  "runtime_blocked = NewError ''CREDENTIAL_RUNTIME_BLOCKED''
     ''Credential recovery is required before another runtime can start'' 409"

definition start_use :: "string \<Rightarrow> broker_db \<Rightarrow> go_error + unit \<times> broker_db" where
  "start_use account db =
     (case t_account_state db account of
        Some row \<Rightarrow>
          if as_worker_state row = ''STOPPED''
          then Inr ((), on_state (\<lambda>r. bump_version (r\<lparr>as_worker_state := ''CREDENTIAL_IN_USE''\<rparr>)) account db)
          else Inl runtime_blocked
      | None \<Rightarrow> Inl runtime_blocked)"

definition end_use :: "bool \<Rightarrow> state_row \<Rightarrow> state_row" where
  "end_use safe row =
     (if safe then bump_version (row\<lparr>as_worker_state := ''STOPPED''\<rparr>)
      else bump_version (row\<lparr>as_worker_state := ''CREDENTIAL_QUARANTINED'', as_auth_state := ''AUTH_REQUIRED'',
             as_overall_state := ''ERROR'', as_last_error_code := Some ''CREDENTIAL_CHECKPOINT_FAILED'',
             as_last_error_summary := Some ''Credential recovery is required''\<rparr>))"

definition setCredentialUse :: "string \<Rightarrow> bool \<Rightarrow> bool \<Rightarrow> broker_db \<Rightarrow> (go_error + unit) \<times> broker_db" where
  "setCredentialUse account started safe =
     Write (\<lambda>db. if started then start_use account db else Inr ((), on_state (end_use safe) account db))"

subsection \<open>Incidents\<close>

definition nullable :: "string \<Rightarrow> any" where
  "nullable s = (if s = [] then ANil else AStr s)"

definition incidentWebhookData :: "incident_row \<Rightarrow> string \<Rightarrow> string \<Rightarrow> string \<Rightarrow> string \<Rightarrow> string \<Rightarrow> string \<Rightarrow> string \<Rightarrow> gomap" where
  "incidentWebhookData row state summary causeCode causeSummary name email public =
     (let kind = ic_problem_type row;
          reason = (if kind = ''authentication_failed''
              then ''Codex rejected or could not refresh the account credential, so routing cannot continue.''
            else if kind = ''credential_checkpoint''
              then ''Codex may have changed its credential, but Codex Broker could not safely persist the result.''
            else ''Codex Broker detected an account condition that requires operator attention.'');
          action = (if state = ''RESOLVED''
              then ''No action required. Codex Broker closed this incident and resumed normal account processing.''
            else if kind = ''authentication_failed''
              then ''Open the account and use Replace or repair credentials with device code or browser sign-in.''
            else if kind = ''credential_checkpoint''
              then ''Stop account activity and preserve the quarantined runtime before restarting or reauthenticating.''
            else ''Open the account and Incidents pages, review the latest operation, and correct the reported condition.'')
      in [(''incident_id'', AStr (ic_incident_id row)), (''problem_type'', AStr kind), (''incident_status'', AStr state),
          (''severity'', AStr (ic_severity row)), (''summary'', AStr summary), (''cause_code'', nullable causeCode),
          (''cause_summary'', nullable causeSummary), (''reason'', AStr reason), (''recommended_action'', AStr action),
          (''occurrence_count'', AInt (ic_occurrence_count row)), (''first_seen_at_ms'', AInt (ic_opened_at_ms row)),
          (''last_seen_at_ms'', AInt (ic_last_seen_at_ms row)), (''account_name'', AStr name),
          (''account_email'', nullable email), (''account_id'', AStr public)])"

definition open_incident_of :: "string \<Rightarrow> string \<Rightarrow> incident_row \<Rightarrow> bool" where
  "open_incident_of account kind row \<longleftrightarrow>
     ic_scope_key row = account \<and> ic_problem_type row = kind \<and> ic_state row = ''OPEN''"

text \<open>The account and its state an incident is joined with.\<close>

definition incident_account :: "broker_db \<Rightarrow> string \<Rightarrow> (account_row \<times> state_row) option" where
  "incident_account db account =
     (case (find (\<lambda>a. ar_account_id a = account) (t_accounts db), t_account_state db account) of
        (Some a, Some s) \<Rightarrow> Some (a, s)
      | _ \<Rightarrow> None)"

definition note_incident :: "string \<Rightarrow> int \<Rightarrow> string \<Rightarrow> string \<Rightarrow> string \<Rightarrow> string \<Rightarrow> broker_db \<Rightarrow> bool \<times> incident_row \<times> broker_db" where
  "note_incident newID now account kind severity summary db =
     (case find (open_incident_of account kind) (t_incidents db) of
        Some row \<Rightarrow>
          (let row' = row\<lparr>ic_occurrence_count := ic_occurrence_count row + 1, ic_last_seen_at_ms := now,
                          ic_summary := summary, ic_state_version := ic_state_version row + 1\<rparr>
           in (False, row', db\<lparr>t_incidents :=
                 update_where (\<lambda>r. ic_incident_id r = ic_incident_id row) (\<lambda>_. row') (t_incidents db)\<rparr>))
      | None \<Rightarrow>
          (let row = \<lparr>ic_incident_id = newID, ic_scope_key = account, ic_problem_type = kind, ic_state = ''OPEN'',
                      ic_severity = severity, ic_summary = summary, ic_current_error_code = Some (map fold_char kind),
                      ic_occurrence_count = 1, ic_opened_at_ms = now, ic_last_seen_at_ms = now,
                      ic_resolved_at_ms = None, ic_resolution_reason = None, ic_state_version = 1\<rparr>
           in (True, row, db\<lparr>t_incidents := t_incidents db @ [row]\<rparr>)))"

definition no_rows :: go_error where
  "no_rows = OtherError ''sql: no rows in result set''"

definition OpenIncident :: "redactor \<Rightarrow> string \<Rightarrow> int \<Rightarrow> string \<Rightarrow> string \<Rightarrow> string \<Rightarrow> string \<Rightarrow> broker
    \<Rightarrow> (go_error + unit) \<times> broker" where
  "OpenIncident red newID now account kind severity summary b =
     (let summary = safe_summary red summary in
      case Write_b (\<lambda>db. case note_incident newID now account kind severity summary db of
               (opened, row, db') \<Rightarrow>
                 (case incident_account db' account of
                    None \<Rightarrow> Inl no_rows
                  | Some (a, s) \<Rightarrow>
                      Inr ((opened, ar_public_token a,
                        incidentWebhookData row ''OPEN'' (ic_summary row)
                          (case as_last_error_code s of Some c \<Rightarrow> c | None \<Rightarrow> (case ic_current_error_code row of Some c \<Rightarrow> c | None \<Rightarrow> []))
                          (case as_last_error_summary s of Some t \<Rightarrow> t | None \<Rightarrow> ic_summary row)
                          (ar_display_name a) (case as_upstream_email s of Some e \<Rightarrow> e | None \<Rightarrow> []) (ar_public_token a),
                        ic_incident_id row), db'))) b of
        (Inl e, b') \<Rightarrow> (Inl e, b')
      | (Inr (opened, public, details, i), b') \<Rightarrow>
          (Inr (), emit_webhook (if opened then ''incident.opened'' else ''incident.updated'') (''account:'' @ public) details
             (publish ''incident.updated'' [(''incident_id'', AStr i), (''state'', AStr ''OPEN'')] b')))"

definition ResolveIncident :: "int \<Rightarrow> string \<Rightarrow> string \<Rightarrow> broker \<Rightarrow> (go_error + unit) \<times> broker" where
  "ResolveIncident now account kind b =
     (case (find (open_incident_of account kind) (t_incidents (br_db b)), incident_account (br_db b) account) of
        (Some row, Some (a, s)) \<Rightarrow>
          (let details = put ''resolved_at_ms'' (AInt now)
                 (incidentWebhookData row ''RESOLVED'' (''Recovered from: '' @ ic_summary row)
                    (case ic_current_error_code row of Some c \<Rightarrow> c | None \<Rightarrow> []) (ic_summary row)
                    (ar_display_name a) (case as_upstream_email s of Some e \<Rightarrow> e | None \<Rightarrow> []) (ar_public_token a))
           in (Inr (), emit_webhook ''incident.resolved'' (''account:'' @ ar_public_token a) details
                 (publish ''incident.updated'' [(''incident_id'', AStr (ic_incident_id row)), (''state'', AStr ''RESOLVED'')]
                   (on_db (\<lambda>db. db\<lparr>t_incidents := update_where (\<lambda>r. ic_incident_id r = ic_incident_id row)
                      (\<lambda>r. r\<lparr>ic_state := ''RESOLVED'', ic_resolved_at_ms := Some now,
                            ic_resolution_reason := Some ''RECOVERED'', ic_state_version := ic_state_version r + 1\<rparr>)
                      (t_incidents db)\<rparr>) b))))
      | _ \<Rightarrow> (Inr (), b))"

subsection \<open>A managed runtime\<close>

record runtime_run =
  run_start :: "go_error option"
  run_close :: "go_error option"
  run_capture :: "go_error + credential_file list"
  run_discard :: "go_error option"
  run_bundle_id :: string
  run_incident_id :: string
  run_now :: int

definition checkpoint_failed :: go_error where
  "checkpoint_failed = NewError ''CREDENTIAL_CHECKPOINT_FAILED''
     ''Codex credential state could not be safely checkpointed'' 503"

text \<open>Closing, capturing and saving what the runtime left behind: the error, if any.\<close>

definition checkpoint :: "cred_lib \<Rightarrow> runtime_run \<Rightarrow> string \<Rightarrow> string \<Rightarrow> broker \<Rightarrow> go_error option \<times> broker" where
  "checkpoint lib run fingerprint account b =
     (case (run_close run, run_capture run) of
        (None, Inr captured) \<Rightarrow>
          (case AuthFingerprint lib captured of
             Inl e \<Rightarrow> (Some e, b)
           | Inr new_fingerprint \<Rightarrow>
               (run_discard run,
                if new_fingerprint \<noteq> fingerprint
                then on_db (replaceActive (run_bundle_id run) (run_now run) account captured) b else b))
      | (Some e, _) \<Rightarrow> (Some e, b)
      | (None, Inl e) \<Rightarrow> (Some e, b))"

definition use_credential :: "string \<Rightarrow> bool \<Rightarrow> bool \<Rightarrow> broker \<Rightarrow> (go_error + unit) \<times> broker" where
  "use_credential account started safe b =
     (case setCredentialUse account started safe (br_db b) of (r, db) \<Rightarrow> (r, b\<lparr>br_db := db\<rparr>))"

definition finish_use :: "redactor \<Rightarrow> cred_lib \<Rightarrow> runtime_run \<Rightarrow> string \<Rightarrow> string \<Rightarrow> go_error + 'a \<Rightarrow> broker
    \<Rightarrow> (go_error + 'a) \<times> broker" where
  "finish_use red lib run fingerprint account primary b =
     (case checkpoint lib run fingerprint account b of
        (failed, b1) \<Rightarrow>
          (let b2 = snd (use_credential account False (failed = None) b1) in
           if failed \<noteq> None
           then (Inl checkpoint_failed,
                 snd (OpenIncident red (run_incident_id run) (run_now run) account ''credential_checkpoint'' ''ERROR''
                        ''Codex credential state could not be safely checkpointed'' b2))
           else (primary, b2)))"

definition managedLocked :: "redactor \<Rightarrow> cred_lib \<Rightarrow> runtime_run \<Rightarrow> string \<Rightarrow> (broker \<Rightarrow> (go_error + 'a) \<times> broker)
    \<Rightarrow> broker \<Rightarrow> (go_error + 'a) \<times> broker" where
  "managedLocked red lib run account call b =
     (case read_bundle (br_db b) account ''ACTIVE'' of
        Inl e \<Rightarrow> (Inl e, b)
      | Inr source \<Rightarrow>
          (case AuthFingerprint lib source of
             Inl e \<Rightarrow> (Inl e, b)
           | Inr fingerprint \<Rightarrow>
               (case use_credential account True True b of
                  (Inl e, b1) \<Rightarrow> (Inl e, b1)
                | (Inr _, b1) \<Rightarrow>
                    (case run_start run of
                       Some e \<Rightarrow> (Inl e, snd (use_credential account False True b1))
                     | None \<Rightarrow>
                         (case call b1 of
                            (primary, b2) \<Rightarrow> finish_use red lib run fingerprint account primary b2)))))"

subsection \<open>Leases\<close>

definition needs_refresh :: "int \<Rightarrow> bool \<Rightarrow> go_error + cred_lease \<Rightarrow> bool" where
  "needs_refresh now force lease \<longleftrightarrow>
     (case lease of Inl _ \<Rightarrow> True | Inr l \<Rightarrow> force \<or> ce_ExpiresAtMS l \<le> now + 5 * 60 * 1000)"

definition lease_of_bundle :: "cred_lib \<Rightarrow> int \<Rightarrow> credential_file list \<Rightarrow> go_error + cred_lease" where
  "lease_of_bundle lib now files =
     (case leaseFromPayload lib files of
        Inl e \<Rightarrow> Inl e
      | Inr lease \<Rightarrow>
          if ce_ExpiresAtMS lease \<le> now
          then Inl (NewError ''CREDENTIAL_EXPIRED'' ''The active credential is expired'' 503)
          else Inr lease)"

text \<open>\<open>answer\<close> is what the account call of the runtime returns.\<close>

definition service_Lease :: "redactor \<Rightarrow> cred_lib \<Rightarrow> runtime_run \<Rightarrow> go_error + unit \<Rightarrow> string \<Rightarrow> int \<Rightarrow> bool \<Rightarrow> broker
    \<Rightarrow> (go_error + cred_lease) \<times> broker" where
  "service_Lease red lib run answer account now force b =
     (case t_account_state (br_db b) account of
        None \<Rightarrow> (Inl no_rows, b)
      | Some row \<Rightarrow>
          if as_worker_state row \<noteq> ''STOPPED'' then (Inl runtime_blocked, b)
          else case read_bundle (br_db b) account ''ACTIVE'' of
            Inl e \<Rightarrow> (Inl e, b)
          | Inr payload \<Rightarrow>
              if needs_refresh now force (leaseFromPayload lib payload)
              then (case managedLocked red lib run account (\<lambda>b. (answer, b)) b of
                      (Inl e, b') \<Rightarrow> (Inl e, b')
                    | (Inr _, b') \<Rightarrow>
                        (case read_bundle (br_db b') account ''ACTIVE'' of
                           Inl e \<Rightarrow> (Inl e, b')
                         | Inr payload' \<Rightarrow> (lease_of_bundle lib now payload', b')))
              else (lease_of_bundle lib now payload, b))"

end
