(* ===== verification/Credentials_Correct.thy ===== *)
theory Credentials_Correct
  imports Credentials
begin

text \<open>
  What the use of a credential guarantees: the worker state of the account ends STOPPED or,
  when the checkpoint failed, quarantined; the active bundle is the captured one; a lease is
  read from the stored active bundle and has not expired. Nothing but the account's state,
  the bundles and the incidents changes (\<open>cred_frame\<close>).
\<close>

subsection \<open>What changes\<close>

definition other_bundles :: "string \<Rightarrow> broker_db \<Rightarrow> bundle_row list" where
  "other_bundles account db = filter (\<lambda>row. bu_account_id row \<noteq> account) (t_credential_bundles db)"

definition cred_frame :: "string \<Rightarrow> broker_db \<Rightarrow> broker_db \<Rightarrow> bool" where
  "cred_frame account db db' \<longleftrightarrow>
     db' = db\<lparr>t_account_state := (t_account_state db)(account := t_account_state db' account),
              t_credential_bundles := t_credential_bundles db', t_incidents := t_incidents db'\<rparr>
     \<and> other_bundles account db' = other_bundles account db"

lemma cred_frame_refl [simp]: "cred_frame account db db"
  by (simp add: cred_frame_def)

lemma cred_frame_trans: "cred_frame account a b \<Longrightarrow> cred_frame account b c \<Longrightarrow> cred_frame account a c"
proof -
  assume 1: "cred_frame account a b" and 2: "cred_frame account b c"
  note b = 1 [unfolded cred_frame_def, THEN conjunct1]
  have "c = b\<lparr>t_account_state := (t_account_state b)(account := t_account_state c account),
      t_credential_bundles := t_credential_bundles c, t_incidents := t_incidents c\<rparr>"
    using 2 by (simp only: cred_frame_def)
  also have "\<dots> = a\<lparr>t_account_state := (t_account_state a)(account := t_account_state c account),
      t_credential_bundles := t_credential_bundles c, t_incidents := t_incidents c\<rparr>"
    by (subst (1 2) b) simp
  finally show ?thesis using 1 2 by (simp only: cred_frame_def)
qed

lemma cred_frame_on_state [simp]: "cred_frame account db (on_state f account db)"
  by (simp add: cred_frame_def other_bundles_def on_state_def update_row_def)

lemma cred_frame_incidents [simp]: "cred_frame account db (db\<lparr>t_incidents := rows\<rparr>)"
  by (simp add: cred_frame_def other_bundles_def)

lemma filter_update_where_other:
  "(\<And>row. Q row \<Longrightarrow> \<not> P row \<and> \<not> P (f row)) \<Longrightarrow> filter P (update_where Q f rows) = filter P rows"
  by (induction rows) (auto simp: update_where_def)

lemma cred_frame_replaceActive [simp]: "cred_frame account db (replaceActive i now account files db)"
  unfolding cred_frame_def other_bundles_def replaceActive_def add_bundle_def retire_active_def
  by (simp, rule filter_update_where_other) simp

lemma has_active_bundle_other:
  "cred_frame account db db' \<Longrightarrow> k \<noteq> account \<Longrightarrow> has_active_bundle db' k = has_active_bundle db k"
proof -
  assume f: "cred_frame account db db'" and k: "k \<noteq> account"
  have "has_active_bundle d k = list_ex (\<lambda>row. bu_account_id row = k \<and> bu_state row = ''ACTIVE'') (other_bundles account d)" for d
    using k by (simp add: has_active_bundle_def other_bundles_def list_ex_iff) blast
  then show ?thesis using f by (simp add: cred_frame_def)
qed

lemma cred_frame_fields:
  assumes "cred_frame account db db'"
  shows "t_accounts db' = t_accounts db" "t_usage_current db' = t_usage_current db"
    "t_window_pulse_state db' = t_window_pulse_state db"
    "t_account_quota_blocks db' = t_account_quota_blocks db"
    "t_account_exclusions db' = t_account_exclusions db"
    "t_usage_refresh_requests db' = t_usage_refresh_requests db"
    "t_usage_reset_polls db' = t_usage_reset_polls db"
    "t_relay_reservations db' = t_relay_reservations db" "t_operations db' = t_operations db"
    "t_client_api_keys db' = t_client_api_keys db" "t_client_key_labels db' = t_client_key_labels db"
    "t_labels db' = t_labels db" "t_account_labels db' = t_account_labels db"
    "t_usage_snapshots db' = t_usage_snapshots db" "t_usage_poll_state db' = t_usage_poll_state db"
    "t_weekly_cycle_state db' = t_weekly_cycle_state db" "t_relay_events db' = t_relay_events db"
    "k \<noteq> account \<Longrightarrow> t_account_state db' k = t_account_state db k"
  by (subst assms [unfolded cred_frame_def, THEN conjunct1]; simp)+

lemma start_use_Inr:
  "start_use account db = Inr ((), db') \<Longrightarrow>
   (\<exists>row. t_account_state db account = Some row \<and> as_worker_state row = ''STOPPED'')
   \<and> db' = on_state (\<lambda>r. bump_version (r\<lparr>as_worker_state := ''CREDENTIAL_IN_USE''\<rparr>)) account db"
  by (auto simp: start_use_def split: option.splits if_splits)

lemma use_credential_frame: "cred_frame account (br_db b) (br_db (snd (use_credential account started safe b)))"
  by (auto simp: use_credential_def setCredentialUse_def Write_def start_use_def
      split: option.split sum.split prod.split)

lemma OpenIncident_db:
  "\<exists>rows. br_db (snd (OpenIncident red i now account kind severity summary b)) = (br_db b)\<lparr>t_incidents := rows\<rparr>"
proof -
  have "\<exists>rows. snd (snd (note_incident i now account kind severity msg db)) = db\<lparr>t_incidents := rows\<rparr>" for msg db
    by (auto simp: note_incident_def Let_def split: option.split)
  moreover have "\<exists>rows. db = db\<lparr>t_incidents := rows\<rparr>" for db :: broker_db
    by (intro exI [of _ "t_incidents db"]) simp
  ultimately show ?thesis
    by (auto simp: OpenIncident_def Let_def Write_b_def Write_def split: prod.splits option.splits sum.splits)
      (metis snd_conv)+
qed

lemma OpenIncident_frame [simp]:
  "cred_frame account (br_db b) (br_db (snd (OpenIncident red i now account' kind severity summary b)))"
  using OpenIncident_db [of red i now account' kind severity summary b] by auto

lemma OpenIncident_keeps [simp]:
  "t_account_state (br_db (snd (OpenIncident red i now account kind severity summary b))) = t_account_state (br_db b)"
  "t_credential_bundles (br_db (snd (OpenIncident red i now account kind severity summary b)))
     = t_credential_bundles (br_db b)"
  using OpenIncident_db [of red i now account kind severity summary b] by auto

lemma checkpoint_frame: "cred_frame account (br_db b) (br_db (snd (checkpoint lib run fingerprint account b)))"
  by (auto simp: checkpoint_def split: option.split sum.split)

lemma finish_use_frame: "cred_frame account (br_db b) (br_db (snd (finish_use red lib run fp account primary b)))"
proof -
  obtain failed b1 where c: "checkpoint lib run fp account b = (failed, b1)"
    by (cases "checkpoint lib run fp account b") auto
  have "cred_frame account (br_db b) (br_db b1)" using checkpoint_frame [of account b lib run fp] c by simp
  moreover have "cred_frame account (br_db b1) (br_db (snd (use_credential account False safe b1)))" for safe
    by (rule use_credential_frame)
  ultimately show ?thesis
    by (auto simp: finish_use_def c Let_def intro: cred_frame_trans [OF _ cred_frame_trans [OF _ OpenIncident_frame]]
        cred_frame_trans)
qed

lemma managedLocked_frame:
  assumes "\<And>b. cred_frame account (br_db b) (br_db (snd (call b)))"
  shows "cred_frame account (br_db b) (br_db (snd (managedLocked red lib run account call b)))"
proof -
  obtain r b1 where u: "use_credential account True True b = (r, b1)"
    by (cases "use_credential account True True b") auto
  have 1: "cred_frame account (br_db b) (br_db b1)" using use_credential_frame [of account b True True] u by simp
  obtain p b2 where c: "call b1 = (p, b2)" by (cases "call b1") auto
  have 2: "cred_frame account (br_db b1) (br_db b2)" using assms [of b1] c by simp
  have 3: "cred_frame account (br_db b) (br_db (snd (finish_use red lib run fp account p b2)))" for fp
    by (rule cred_frame_trans [OF cred_frame_trans [OF 1 2] finish_use_frame])
  show ?thesis
    using 1 3 cred_frame_trans [OF 1 use_credential_frame [of account b1 False True]]
    by (simp add: managedLocked_def u c split: sum.split option.split)
qed

lemma service_Lease_frame: "cred_frame account (br_db b) (br_db (snd (service_Lease red lib run answer account now force b)))"
proof -
  obtain r b1 where m: "managedLocked red lib run account (\<lambda>b. (answer, b)) b = (r, b1)"
    by (cases "managedLocked red lib run account (\<lambda>b. (answer, b)) b") auto
  have "cred_frame account (br_db b) (br_db b1)"
    using managedLocked_frame [of account "\<lambda>b. (answer, b)" b red lib run] m by simp
  then show ?thesis by (simp add: service_Lease_def m split: option.split sum.split)
qed

subsection \<open>How a use ends\<close>

lemma find_append_none: "find P xs = None \<Longrightarrow> find P (xs @ ys) = find P ys"
  by (induction xs) auto

lemma find_after_update: "(\<And>row. P row \<Longrightarrow> \<not> P (f row)) \<Longrightarrow> find P (update_where P f rows) = None"
  by (auto simp: find_None_iff set_update_where)

lemma read_bundle_replaceActive [simp]: "read_bundle (replaceActive i now account files db) account ''ACTIVE'' = Inr files"
proof -
  have "find (\<lambda>row. bu_account_id row = account \<and> bu_state row = ''ACTIVE'')
      (update_where (\<lambda>row. bu_account_id row = account \<and> bu_state row = ''ACTIVE'')
          (\<lambda>row. row\<lparr>bu_state := ''RETIRED'', bu_retired_at_ms := Some now\<rparr>) (t_credential_bundles db)) = None"
    by (rule find_after_update) simp
  then show ?thesis
    by (simp add: read_bundle_def replaceActive_def add_bundle_def retire_active_def find_append_none)
qed

lemma read_bundle_cong:
  "t_credential_bundles db' = t_credential_bundles db \<Longrightarrow> read_bundle db' = read_bundle db"
  by (simp add: fun_eq_iff read_bundle_def)

lemma on_state_simps [simp]:
  "t_account_state (on_state f account db) account = map_option f (t_account_state db account)"
  "t_credential_bundles (on_state f account db) = t_credential_bundles db"
  by (simp_all add: on_state_def)

lemma read_bundle_on_state [simp]: "read_bundle (on_state f account db) = read_bundle db"
  by (rule read_bundle_cong) simp

lemma replaceActive_state [simp]: "t_account_state (replaceActive i now account files db) = t_account_state db"
  by (simp add: replaceActive_def add_bundle_def retire_active_def)

lemma end_use_simps [simp]:
  "as_worker_state (end_use safe row) = (if safe then ''STOPPED'' else ''CREDENTIAL_QUARANTINED'')"
  "as_auth_state (end_use safe row) = (if safe then as_auth_state row else ''AUTH_REQUIRED'')"
  by (simp_all add: end_use_def)

lemma release_credential:
  "br_db (snd (use_credential account False safe b)) = on_state (end_use safe) account (br_db b)"
  by (simp add: use_credential_def setCredentialUse_def Write_def)

lemma checkpoint_state [simp]: "t_account_state (br_db (snd (checkpoint lib run fp account b))) = t_account_state (br_db b)"
  by (auto simp: checkpoint_def split: option.split sum.split)

text \<open>A checkpoint without an error leaves the captured credential as the active one.\<close>

lemma checkpoint_ok:
  assumes "checkpoint lib run fp account b = (None, b')"
    and "read_bundle (br_db b) account ''ACTIVE'' = Inr source" and "AuthFingerprint lib source = Inr fp"
  shows "\<exists>captured fp' active. run_capture run = Inr captured \<and> AuthFingerprint lib captured = Inr fp'
     \<and> read_bundle (br_db b') account ''ACTIVE'' = Inr active \<and> AuthFingerprint lib active = Inr fp'"
  using assms by (auto simp: checkpoint_def split: option.splits sum.splits if_splits)

lemma finish_use_ends:
  assumes "finish_use red lib run fp account primary b = (r, b')"
    and "t_account_state (br_db b) account = Some row"
    and "read_bundle (br_db b) account ''ACTIVE'' = Inr source" and "AuthFingerprint lib source = Inr fp"
  shows "r = Inl checkpoint_failed
      \<and> (\<exists>row'. t_account_state (br_db b') account = Some row' \<and> as_worker_state row' = ''CREDENTIAL_QUARANTINED''
                \<and> as_auth_state row' = ''AUTH_REQUIRED'')
    \<or> r = primary
      \<and> (\<exists>row'. t_account_state (br_db b') account = Some row' \<and> as_worker_state row' = ''STOPPED''
                \<and> as_auth_state row' = as_auth_state row)
      \<and> (\<exists>captured fp' active. run_capture run = Inr captured \<and> AuthFingerprint lib captured = Inr fp'
           \<and> read_bundle (br_db b') account ''ACTIVE'' = Inr active \<and> AuthFingerprint lib active = Inr fp')"
proof -
  obtain failed b1 where c: "checkpoint lib run fp account b = (failed, b1)"
    by (cases "checkpoint lib run fp account b") auto
  have st: "t_account_state (br_db b1) account = Some row"
    using checkpoint_state [of lib run fp account b] c assms(2) by simp
  show ?thesis
  proof (cases failed)
    case None
    have "read_bundle (br_db b') account = read_bundle (br_db b1) account"
      using assms(1) None by (auto simp: finish_use_def c Let_def release_credential)
    moreover have "t_account_state (br_db b') account = Some (end_use True row)" and "r = primary"
      using assms(1) None st by (auto simp: finish_use_def c Let_def release_credential)
    ultimately show ?thesis
      using checkpoint_ok [of lib run fp account b b1, OF _ assms(3,4)] c None by auto
  next
    case (Some e)
    then have "r = Inl checkpoint_failed" "t_account_state (br_db b') account = Some (end_use False row)"
      using assms(1) st by (auto simp: finish_use_def c Let_def release_credential)
    then show ?thesis by simp
  qed
qed

lemma managedLocked_ends:
  assumes "managedLocked red lib run account (\<lambda>b. (answer, b)) b = (r, b')"
    and "t_account_state (br_db b) account = Some row" and "as_worker_state row = ''STOPPED''"
  shows "r = Inl checkpoint_failed
      \<and> (\<exists>row'. t_account_state (br_db b') account = Some row' \<and> as_worker_state row' = ''CREDENTIAL_QUARANTINED''
                \<and> as_auth_state row' = ''AUTH_REQUIRED'')
    \<or> (\<exists>row'. t_account_state (br_db b') account = Some row' \<and> as_worker_state row' = ''STOPPED''
                \<and> as_auth_state row' = as_auth_state row)
      \<and> ((\<exists>e. r = Inl e) \<or> r = answer \<and>
          (\<exists>captured fp active. run_capture run = Inr captured \<and> AuthFingerprint lib captured = Inr fp
             \<and> read_bundle (br_db b') account ''ACTIVE'' = Inr active \<and> AuthFingerprint lib active = Inr fp))"
proof (cases "read_bundle (br_db b) account ''ACTIVE''")
  case (Inl e)
  then show ?thesis using assms by (auto simp: managedLocked_def)
next
  case source: (Inr source)
  show ?thesis
  proof (cases "AuthFingerprint lib source")
    case (Inl e)
    then show ?thesis using assms source by (auto simp: managedLocked_def)
  next
    case fp: (Inr fp)
    let ?in_use = "\<lambda>r. bump_version (r\<lparr>as_worker_state := ''CREDENTIAL_IN_USE''\<rparr>)"
    obtain b1 where b1: "use_credential account True True b = (Inr (), b1)"
      "br_db b1 = on_state ?in_use account (br_db b)"
      using assms(2,3) by (simp add: use_credential_def setCredentialUse_def Write_def start_use_def)
    have st: "t_account_state (br_db b1) account = Some (?in_use row)"
      using assms(2) by (simp add: b1(2))
    have rb: "read_bundle (br_db b1) account ''ACTIVE'' = Inr source"
      using source by (simp add: b1(2) read_bundle_def)
    show ?thesis
    proof (cases "run_start run")
      case None
      have "finish_use red lib run fp account answer b1 = (r, b')"
        using assms(1) source fp b1(1) None by (simp add: managedLocked_def)
      from finish_use_ends [OF this st rb fp] show ?thesis by auto
    next
      case (Some e)
      have "r = Inl e \<and> b' = snd (use_credential account False True b1)"
        using assms(1) source fp b1(1) Some by (simp add: managedLocked_def)
      then show ?thesis using st by (simp add: release_credential)
    qed
  qed
qed


subsection \<open>Leases\<close>

lemma leaseFromPayload_fields:
  "leaseFromPayload lib files = Inr lease \<Longrightarrow> ce_AccessToken lease \<noteq> [] \<and> ce_ChatGPTAccountID lease \<noteq> []"
  by (auto simp: leaseFromPayload_def split: sum.splits option.splits if_splits list.splits)

lemma lease_of_bundle_Inr:
  "lease_of_bundle lib now files = Inr lease \<Longrightarrow> leaseFromPayload lib files = Inr lease \<and> now < ce_ExpiresAtMS lease"
  by (auto simp: lease_of_bundle_def split: sum.splits if_splits)

text \<open>What a caller may rely on: the lease is live, and the credential is at rest again.\<close>

definition lease_grounded :: "cred_lib \<Rightarrow> int \<Rightarrow> string \<Rightarrow> cred_lease \<Rightarrow> broker_db \<Rightarrow> bool" where
  "lease_grounded lib now account lease db \<longleftrightarrow>
     now < ce_ExpiresAtMS lease \<and> ce_AccessToken lease \<noteq> [] \<and> ce_ChatGPTAccountID lease \<noteq> []
     \<and> (\<exists>files. read_bundle db account ''ACTIVE'' = Inr files \<and> leaseFromPayload lib files = Inr lease)
     \<and> (\<exists>row. t_account_state db account = Some row \<and> as_worker_state row = ''STOPPED'')"

lemma service_Lease_grounded:
  assumes "service_Lease red lib run answer account now force b = (Inr lease, b')"
  shows "lease_grounded lib now account lease (br_db b')"
proof -
  obtain row payload where row: "t_account_state (br_db b) account = Some row" "as_worker_state row = ''STOPPED''"
    and payload: "read_bundle (br_db b) account ''ACTIVE'' = Inr payload"
    using assms by (auto simp: service_Lease_def split: option.splits if_splits sum.splits)
  show ?thesis
  proof (cases "needs_refresh now force (leaseFromPayload lib payload)")
    case False
    then have l: "lease_of_bundle lib now payload = Inr lease" and b': "b' = b"
      using assms row payload by (auto simp: service_Lease_def)
    show ?thesis
      using lease_of_bundle_Inr [OF l] leaseFromPayload_fields [of lib payload lease] row payload
      by (simp add: lease_grounded_def b')
  next
    case True
    then obtain x payload' where m: "managedLocked red lib run account (\<lambda>b. (answer, b)) b = (Inr x, b')"
      and payload': "read_bundle (br_db b') account ''ACTIVE'' = Inr payload'"
      and l: "lease_of_bundle lib now payload' = Inr lease"
      using assms row payload by (auto simp: service_Lease_def split: sum.splits prod.splits)
    from managedLocked_ends [OF m row] have "\<exists>row. t_account_state (br_db b') account = Some row \<and> as_worker_state row = ''STOPPED''"
      by auto
    then show ?thesis
      using lease_of_bundle_Inr [OF l] leaseFromPayload_fields [of lib payload' lease] payload'
      by (simp add: lease_grounded_def)
  qed
qed

text \<open>
  C38: a lease handed out has not expired, is read from the account's stored active bundle, and
  leaves the credential at rest; an account whose credential is in use or quarantined gets none.
\<close>

theorem Lease_is_live_and_stored:
  "fst (service_Lease red lib run answer account now force b) = Inr lease \<Longrightarrow>
   lease_grounded lib now account lease (br_db (snd (service_Lease red lib run answer account now force b)))"
  by (rule service_Lease_grounded [of red lib run answer account now force b]) (simp add: prod_eq_iff)

subsection \<open>A rotated credential\<close>

definition ex_lib :: cred_lib where
  "ex_lib = \<lparr>cl_std_base64 = Some, cl_url_base64 = Some, cl_sha256_hex = id, cl_json_object = (\<lambda>_. True),
     cl_access_token = Some, cl_claims = (\<lambda>body. if body = ''new'' then Some (2000, ''acct'') else Some (1, ''acct''))\<rparr>"

definition ex_files :: "string \<Rightarrow> credential_file list" where
  "ex_files token = [\<lparr>cf_relative_path = ''auth.json'', cf_sha256 = token, cf_content_base64 = token\<rparr>]"

definition ex_run :: runtime_run where
  "ex_run = \<lparr>run_start = None, run_close = None, run_capture = Inr (ex_files ''h.new.s''), run_discard = None,
     run_bundle_id = ''b2'', run_incident_id = ''i1'', run_now = 7\<rparr>"

definition ex_cred_state :: state_row where
  "ex_cred_state = \<lparr>as_auth_state = ''VERIFIED'', as_worker_state = ''STOPPED'', as_overall_state = ''HEALTHY'',
     as_usage_state = ''FRESH'', as_upstream_email = None, as_upstream_plan = None,
     as_last_auth_verified_at_ms = None, as_last_error_code = None, as_last_error_summary = None,
     as_last_routed_at_ms = None, as_state_version = 1\<rparr>"

definition ex_cred_broker :: broker where
  "ex_cred_broker = \<lparr>br_db = empty_db\<lparr>t_account_state := [''a'' \<mapsto> ex_cred_state],
      t_credential_bundles := [\<lparr>bu_bundle_id = ''b1'', bu_account_id = ''a'', bu_state = ''ACTIVE'',
        bu_files = ex_files ''h.old.s'', bu_created_at_ms = 1, bu_retired_at_ms = None\<rparr>]\<rparr>,
     br_published = [], br_webhooks = []\<rparr>"

definition ex_red :: redactor where
  "ex_red = \<lparr>red_tokens = id, red_urls = id\<rparr>"

lemmas ex_cred_simps = ex_lib_def ex_files_def ex_run_def ex_cred_state_def ex_cred_broker_def ex_red_def


theorem Lease_is_live_and_stored_witness:
  "\<exists>lease. fst (service_Lease ex_red ex_lib ex_run (Inr ()) ''a'' 1500 False ex_cred_broker) = Inr lease
     \<and> lease_grounded ex_lib 1500 ''a'' lease (br_db (snd (service_Lease ex_red ex_lib ex_run (Inr ()) ''a'' 1500 False ex_cred_broker)))"
proof -
  have "\<exists>lease. fst (service_Lease ex_red ex_lib ex_run (Inr ()) ''a'' 1500 False ex_cred_broker) = Inr lease"
    by (simp add: service_Lease_def managedLocked_def ex_cred_simps read_bundle_def AuthFingerprint_def use_credential_def
        setCredentialUse_def Write_def start_use_def finish_use_def checkpoint_def Let_def on_state_def replaceActive_def
        add_bundle_def retire_active_def update_where_def leaseFromPayload_def splitToken_def needs_refresh_def
        lease_of_bundle_def w64_def on_db_def update_row_def)
  then show ?thesis using Lease_is_live_and_stored by blast
qed

end
