(* ===== verification/Operations.thy ===== *)
theory Operations
  imports Credentials
begin

text \<open>
  internal/broker/operations.go: the durable record of the jobs that run for an account, and
  the invariant that an account has at most one open refresh or pulse.
\<close>

definition CreateOperation :: "string \<Rightarrow> int \<Rightarrow> string \<Rightarrow> string \<Rightarrow> string \<Rightarrow> broker_db \<Rightarrow> broker_db" where
  "CreateOperation newID now account kind trig =
     add_operation (queued_operation newID (if account = [] then None else Some account) kind trig now)"

definition terminal_states :: "string list" where
  "terminal_states = [''SUCCEEDED'', ''FAILED'', ''CANCELLED'']"

definition on_operation :: "string \<Rightarrow> (operation_row \<Rightarrow> operation_row) \<Rightarrow> broker_db \<Rightarrow> broker_db" where
  "on_operation i f db =
     db\<lparr>t_operations := update_where (\<lambda>row. op_operation_id row = i)
          (\<lambda>row. (f row)\<lparr>op_state_version := op_state_version row + 1\<rparr>) (t_operations db)\<rparr>"

definition progress_operation :: "int \<Rightarrow> string \<Rightarrow> string \<Rightarrow> string \<Rightarrow> operation_row \<Rightarrow> operation_row" where
  "progress_operation now state code summary row =
     row\<lparr>op_state := state, op_progress_code := Some code, op_progress_summary := Some summary,
         op_started_at_ms := (if op_started_at_ms row = None then Some now else op_started_at_ms row),
         op_completed_at_ms := (if state \<in> set terminal_states then Some now else op_completed_at_ms row)\<rparr>"

definition OperationState :: "int \<Rightarrow> string \<Rightarrow> string \<Rightarrow> string \<Rightarrow> string \<Rightarrow> broker \<Rightarrow> broker" where
  "OperationState now i state code summary b =
     publish ''operation.updated'' [(''operation_id'', AStr i), (''state'', AStr state)]
       (on_db (on_operation i (progress_operation now state code summary)) b)"

definition FailOperation :: "redactor \<Rightarrow> int \<Rightarrow> string \<Rightarrow> string \<Rightarrow> string \<Rightarrow> broker \<Rightarrow> broker" where
  "FailOperation red now i code summary b =
     publish ''operation.updated'' [(''operation_id'', AStr i), (''state'', AStr ''FAILED''), (''error_code'', AStr code)]
       (on_db (on_operation i (\<lambda>row. row\<lparr>op_state := ''FAILED'', op_error_code := Some code,
          op_error_summary := Some (safe_summary red summary), op_completed_at_ms := Some now\<rparr>)) b)"

definition Operation :: "broker_db \<Rightarrow> string \<Rightarrow> go_error + operation_row" where
  "Operation db i =
     (case find (\<lambda>row. op_operation_id row = i) (t_operations db) of
        None \<Rightarrow> Inl (NewError ''OPERATION_NOT_FOUND'' ''Operation not found'' 404)
      | Some row \<Rightarrow> Inr row)"

subsection \<open>One job per account\<close>

definition is_job :: "operation_row \<Rightarrow> bool" where
  "is_job row \<longleftrightarrow> is_open row \<and> (op_kind row = ''usage.refresh'' \<or> op_kind row = ''window.pulse'')"

definition jobs_of :: "string \<Rightarrow> operation_row list \<Rightarrow> operation_row list" where
  "jobs_of account rows = filter (\<lambda>row. op_account_id row = Some account \<and> is_job row) rows"

definition one_job :: "broker_db \<Rightarrow> bool" where
  "one_job db \<longleftrightarrow> (\<forall>account. length (jobs_of account (t_operations db)) \<le> 1)"

lemma one_job_cong: "t_operations db' = t_operations db \<Longrightarrow> one_job db' = one_job db"
  by (simp add: one_job_def)

lemma one_job_add:
  assumes "one_job db" and "\<And>account. op_account_id row = Some account \<Longrightarrow> \<not> has_open_operation db account"
  shows "one_job (add_operation row db)"
  unfolding one_job_def
proof
  fix account
  show "length (jobs_of account (t_operations (add_operation row db))) \<le> 1"
  proof (cases "op_account_id row = Some account")
    case True
    then have "jobs_of account (t_operations db) = []"
      using assms(2) by (auto simp: jobs_of_def filter_empty_conv is_job_def has_open_operation_def list_ex_iff)
    then show ?thesis by (simp add: add_operation_def jobs_of_def)
  next
    case False
    then show ?thesis using assms(1) by (simp add: one_job_def add_operation_def jobs_of_def)
  qed
qed

lemma one_job_login:
  "one_job db \<Longrightarrow> \<not> is_job row \<Longrightarrow> one_job (add_operation row db)"
  by (simp add: one_job_def add_operation_def jobs_of_def)

lemma filter_update_where_le:
  "(\<And>row. row \<in> set rows \<Longrightarrow> Q row \<Longrightarrow> P (f row) \<Longrightarrow> P row) \<Longrightarrow>
   length (filter P (update_where Q f rows)) \<le> length (filter P rows)"
  by (induction rows) (auto simp: update_where_def intro: le_SucI)

text \<open>An update that opens no job keeps the invariant.\<close>

lemma one_job_on_operation:
  assumes "one_job db"
    and "\<And>row. row \<in> set (t_operations db) \<Longrightarrow> op_operation_id row = i \<Longrightarrow>
           op_account_id (f row) = op_account_id row \<and> op_kind (f row) = op_kind row \<and> (is_open (f row) \<longrightarrow> is_open row)"
  shows "one_job (on_operation i f db)"
  unfolding one_job_def
proof
  fix account
  have "length (jobs_of account (t_operations (on_operation i f db))) \<le> length (jobs_of account (t_operations db))"
    unfolding jobs_of_def on_operation_def
    by (simp, rule filter_update_where_le) (use assms(2) in \<open>auto simp: is_job_def is_open_def\<close>)
  then show "length (jobs_of account (t_operations (on_operation i f db))) \<le> 1"
    using assms(1) le_trans unfolding one_job_def by blast
qed

lemma one_job_OperationState:
  assumes "one_job (br_db b)"
    and "\<forall>row\<in>set (t_operations (br_db b)). op_operation_id row = i \<longrightarrow> is_open row"
  shows "one_job (br_db (OperationState now i state code summary b))"
  using one_job_on_operation [OF assms(1), of i "progress_operation now state code summary"] assms(2)
  by (simp add: OperationState_def progress_operation_def)

lemma one_job_FailOperation:
  assumes "one_job (br_db b)"
  shows "one_job (br_db (FailOperation red now i code summary b))"
  unfolding FailOperation_def
  using one_job_on_operation [OF assms]
  by (simp add: is_open_def open_states_def)

end
