(* ===== verification/Cycle.thy ===== *)
theory Cycle
  imports Broker_Db
begin

text \<open>
  internal/broker/cycle.go: the weekly cycle of the accounts. An account is IN_CYCLE while its
  weekly window runs, HELD while it waits for its turn, RELEASING while a pulse that starts the
  window is under way. \<open>reconcileCycle\<close> derives these states from the usage last read, and
  keeps the anchor from which pulses are spaced out; \<open>cycleSnapshot\<close> orders the accounts.

  Times that come from the usage API are scaled with the wrap-around of an \<open>int64\<close>.
\<close>

definition weekMinutes :: int where "weekMinutes = 10080"

definition weeklyCycleMS :: int where "weeklyCycleMS = weekMinutes * 60 * 1000"

definition rollingWindowTolerance :: int where "rollingWindowTolerance = 90 * 1000"

record cycleMember =
  cm_id :: string
  cm_state :: string
  cm_createdAtMS :: int
  cm_shortUsed :: nullint
  cm_weeklyUsed :: nullint
  cm_weeklyResetS :: nullint
  cm_weeklyDurationMinutes :: nullint
  cm_usageReadAtMS :: nullint
  cm_weeklyStartedAtMS :: nullint
  cm_lastUsageObservedAtMS :: nullint
  cm_idleObservationCount :: int
  cm_hasActivePulseOperation :: bool

record cycleViewItem =
  cv_accountID :: string
  cv_state :: string
  cv_position :: nat
  cv_size :: nat
  cv_gapMS :: nullint

record CycleStatus =
  cs_MemberCount :: nat
  cs_ActiveCount :: nat
  cs_HeldCount :: nat
  cs_SpacingMS :: int
  cs_AnchorAtMS :: nullint
  cs_NextPulseAtMS :: nullint

definition cycleInterval :: "nat \<Rightarrow> int" where
  "cycleInterval n = (if n < 1 then weeklyCycleMS else go_div weeklyCycleMS (int n))"

text \<open>The second result of \<open>weeklyStart\<close> is whether there is one.\<close>

definition weeklyStart :: "nullint \<Rightarrow> nullint \<Rightarrow> int \<Rightarrow> int option" where
  "weeklyStart weeklyResetS weeklyDurationMinutes now =
     (case weeklyResetS of
        None \<Rightarrow> None
      | Some reset \<Rightarrow>
          if w64 (reset * 1000) \<le> now then None
          else let duration = (case weeklyDurationMinutes of
                                 Some d \<Rightarrow> if 0 < d then d else weekMinutes
                               | None \<Rightarrow> weekMinutes)
               in Some (w64 (reset * 1000 - duration * 60 * 1000)))"

text \<open>The start, whether the window runs, and whether it rolls along unused.\<close>

definition usageCycleEvidence :: "cycleMember \<Rightarrow> int \<Rightarrow> int \<times> bool \<times> bool" where
  "usageCycleEvidence member now =
     (case weeklyStart (cm_weeklyResetS member) (cm_weeklyDurationMinutes member) now of
        None \<Rightarrow> (0, False, False)
      | Some started \<Rightarrow>
          (let used = sql_gt (cm_shortUsed member) 0 \<or> sql_gt (cm_weeklyUsed member) 0;
               rolling = (case cm_usageReadAtMS member of
                            Some read \<Rightarrow>
                              \<not> used
                              \<and> (let delta = w64 (started - read); delta = (if delta < 0 then w64 (- delta) else delta)
                                 in delta \<le> rollingWindowTolerance)
                          | None \<Rightarrow> False)
           in (started, used \<or> cm_usageReadAtMS member \<noteq> None \<and> \<not> rolling, rolling)))"

subsection \<open>The members\<close>

definition cycle_member_state :: "state_row \<Rightarrow> bool" where
  "cycle_member_state s \<longleftrightarrow>
     as_auth_state s = ''VERIFIED'' \<and> (as_worker_state s = ''STOPPED'' \<or> as_worker_state s = ''CREDENTIAL_IN_USE'')"

definition is_cycle_member :: "broker_db \<Rightarrow> account_row \<Rightarrow> bool" where
  "is_cycle_member db a \<longleftrightarrow>
     ar_enabled a \<and> ar_deleted_at_ms a = None
     \<and> (case t_account_state db (ar_account_id a) of None \<Rightarrow> False | Some s \<Rightarrow> cycle_member_state s)"

definition has_open_pulse :: "broker_db \<Rightarrow> string \<Rightarrow> bool" where
  "has_open_pulse db account \<longleftrightarrow>
     list_ex (\<lambda>row. op_account_id row = Some account \<and> op_kind row = ''window.pulse'' \<and> is_open row)
       (t_operations db)"

definition cycle_member :: "broker_db \<Rightarrow> account_row \<Rightarrow> cycleMember" where
  "cycle_member db a =
     (let i = ar_account_id a; u = t_usage_current db i; p = t_window_pulse_state db i in
      \<lparr>cm_id = i,
       cm_state = (case p of None \<Rightarrow> [] | Some row \<Rightarrow> pw_cycle_state row),
       cm_createdAtMS = ar_created_at_ms a,
       cm_shortUsed = Option.bind u uc_short_used_percent_raw,
       cm_weeklyUsed = Option.bind u uc_weekly_used_percent_raw,
       cm_weeklyResetS = Option.bind u uc_weekly_resets_at_s,
       cm_weeklyDurationMinutes = Option.bind u uc_weekly_duration_minutes,
       cm_usageReadAtMS = Option.bind u uc_complete_read_at_ms,
       cm_weeklyStartedAtMS = Option.bind p pw_weekly_started_at_ms,
       cm_lastUsageObservedAtMS = Option.bind p pw_last_usage_observed_at_ms,
       cm_idleObservationCount = (case p of None \<Rightarrow> 0 | Some row \<Rightarrow> pw_idle_observation_count row),
       cm_hasActivePulseOperation = has_open_pulse db i\<rparr>)"

definition loadCycleMembers :: "broker_db \<Rightarrow> cycleMember list" where
  "loadCycleMembers db = map (cycle_member db) (filter (is_cycle_member db) (by_creation (t_accounts db)))"

subsection \<open>Reconciling\<close>

text \<open>A usage read that was not seen yet counts as idle or resets the count.\<close>

definition observe_usage :: "bool \<Rightarrow> cycleMember \<Rightarrow> cycleMember" where
  "observe_usage rolling member =
     (let fresh = (case cm_usageReadAtMS member of
                     None \<Rightarrow> False
                   | Some read \<Rightarrow> (case cm_lastUsageObservedAtMS member of None \<Rightarrow> True | Some seen \<Rightarrow> seen < read))
      in if fresh then member\<lparr>cm_lastUsageObservedAtMS := cm_usageReadAtMS member,
                              cm_idleObservationCount := (if rolling then cm_idleObservationCount member + 1 else 0)\<rparr>
         else member)"

definition week_over :: "cycleMember \<Rightarrow> int \<Rightarrow> bool" where
  "week_over member now \<longleftrightarrow>
     (case cm_weeklyStartedAtMS member of None \<Rightarrow> False | Some started \<Rightarrow> w64 (started + weeklyCycleMS) \<le> now)"

definition next_cycle_state :: "cycleMember \<Rightarrow> bool \<Rightarrow> bool \<Rightarrow> int \<Rightarrow> string" where
  "next_cycle_state member active rolling now =
     (let state = cm_state member in
      if active then ''IN_CYCLE''
      else if state = ''RELEASING'' \<and> cm_hasActivePulseOperation member then state
      else if state = ''RELEASING'' then ''HELD''
      else if state = ''IN_CYCLE'' \<and> week_over member now then ''HELD''
      else if state = ''IN_CYCLE'' \<and> rolling \<and> 2 \<le> cm_idleObservationCount member then ''HELD''
      else if state \<noteq> ''IN_CYCLE'' then ''HELD''
      else state)"

definition reconcile_member :: "int \<Rightarrow> cycleMember \<Rightarrow> cycleMember" where
  "reconcile_member now member =
     (case usageCycleEvidence member now of
        (started, active, rolling) \<Rightarrow>
          (let member = observe_usage rolling member;
               state = next_cycle_state member active rolling now
           in member\<lparr>cm_state := state,
                     cm_weeklyStartedAtMS := (if active then Some started else cm_weeklyStartedAtMS member)\<rparr>))"

definition active_start :: "int \<Rightarrow> cycleMember \<Rightarrow> int option" where
  "active_start now member =
     (case usageCycleEvidence member now of (started, active, _) \<Rightarrow> if active then Some started else None)"

definition save_member :: "cycleMember \<Rightarrow> (string \<Rightarrow> pulse_row option) \<Rightarrow> string \<Rightarrow> pulse_row option" where
  "save_member member t =
     t(cm_id member \<mapsto>
        (case t (cm_id member) of
           None \<Rightarrow> \<lparr>pw_last_attempt_at_ms = 0, pw_last_success_at_ms = None, pw_next_pulse_at_ms = None,
                    pw_last_error_code = None, pw_cycle_state = cm_state member,
                    pw_weekly_started_at_ms = cm_weeklyStartedAtMS member,
                    pw_last_usage_observed_at_ms = cm_lastUsageObservedAtMS member,
                    pw_idle_observation_count = cm_idleObservationCount member\<rparr>
         | Some row \<Rightarrow>
             row\<lparr>pw_cycle_state := cm_state member,
                 pw_weekly_started_at_ms := cm_weeklyStartedAtMS member,
                 pw_last_usage_observed_at_ms := cm_lastUsageObservedAtMS member,
                 pw_idle_observation_count := cm_idleObservationCount member\<rparr>))"

definition later :: "nullint \<Rightarrow> nullint \<Rightarrow> nullint" where
  "later latest candidate =
     (case candidate of
        None \<Rightarrow> latest
      | Some c \<Rightarrow> (case latest of None \<Rightarrow> Some c | Some l \<Rightarrow> if l < c then Some c else latest))"

definition set_anchor :: "nullint \<Rightarrow> nat \<Rightarrow> cycle_state_row \<Rightarrow> cycle_state_row" where
  "set_anchor anchor n row =
     (if cy_cadence_anchor_at_ms row \<noteq> anchor \<or> cy_member_count row \<noteq> n
      then \<lparr>cy_cadence_anchor_at_ms = anchor, cy_member_count = n, cy_state_version = cy_state_version row + 1\<rparr>
      else row)"

definition next_anchor :: "int \<Rightarrow> cycleMember list \<Rightarrow> nullint \<Rightarrow> nullint" where
  "next_anchor now members stored =
     (let anchor = later stored (fold (\<lambda>m latest. later latest (active_start now m)) members None)
      in if anchor = None \<and> members \<noteq> [] then Some (now - cycleInterval (length members)) else anchor)"

definition reconcileCycle :: "bool \<Rightarrow> int \<Rightarrow> broker_db \<Rightarrow> broker_db" where
  "reconcileCycle windowPulseEnabled now db =
     (if \<not> windowPulseEnabled then db
      else
        (let members = loadCycleMembers db in
         db\<lparr>t_window_pulse_state := fold (\<lambda>m. save_member (reconcile_member now m)) members (t_window_pulse_state db),
            t_weekly_cycle_state :=
              set_anchor (next_anchor now members (cy_cadence_anchor_at_ms (t_weekly_cycle_state db)))
                (length members) (t_weekly_cycle_state db)\<rparr>))"

subsection \<open>The view of the cycle\<close>

definition started_before :: "cycleMember \<Rightarrow> cycleMember \<Rightarrow> bool" where
  "started_before a b =
     (case (cm_weeklyStartedAtMS a, cm_weeklyStartedAtMS b) of
        (Some _, None) \<Rightarrow> True
      | (None, Some _) \<Rightarrow> False
      | (Some l, Some r) \<Rightarrow> if l \<noteq> r then l < r else cm_id a < cm_id b
      | (None, None) \<Rightarrow> cm_id a < cm_id b)"

definition gap_ms :: "cycleMember list \<Rightarrow> nat \<Rightarrow> nullint" where
  "gap_ms active index =
     (case (cm_weeklyStartedAtMS (active ! index), cm_weeklyStartedAtMS (last active)) of
        (Some started, Some final) \<Rightarrow>
          (let previous = (if 0 < index then coalesce (cm_weeklyStartedAtMS (active ! (index - 1))) 0 else final);
               gap = started - previous
           in Some (if index = 0 then gap + weeklyCycleMS else gap))
      | _ \<Rightarrow> None)"

definition view_items :: "cycleMember list \<Rightarrow> cycleViewItem list" where
  "view_items active =
     map (\<lambda>index. \<lparr>cv_accountID = cm_id (active ! index), cv_state = cm_state (active ! index),
                   cv_position = index + 1, cv_size = length active, cv_gapMS = gap_ms active index\<rparr>)
       [0..<length active]"

definition active_members :: "broker_db \<Rightarrow> cycleMember list" where
  "active_members db = sort_slice started_before (filter (\<lambda>m. cm_state m = ''IN_CYCLE'') (loadCycleMembers db))"

definition cycleSnapshot :: "broker_db \<Rightarrow> cycleViewItem list \<times> CycleStatus" where
  "cycleSnapshot db =
     (let members = loadCycleMembers db;
          spacing = cycleInterval (length members);
          anchor = cy_cadence_anchor_at_ms (t_weekly_cycle_state db);
          active = active_members db;
          positions = view_items active
      in (map (\<lambda>m. case find (\<lambda>item. cv_accountID item = cm_id m) positions of
                     Some item \<Rightarrow> item
                   | None \<Rightarrow> \<lparr>cv_accountID = cm_id m, cv_state = cm_state m, cv_position = 0, cv_size = 0,
                              cv_gapMS = None\<rparr>) members,
          \<lparr>cs_MemberCount = length members, cs_ActiveCount = length active,
           cs_HeldCount = length (filter (\<lambda>m. cm_state m = ''HELD'' \<or> cm_state m = ''RELEASING'') members),
           cs_SpacingMS = spacing, cs_AnchorAtMS = anchor,
           cs_NextPulseAtMS = map_option (\<lambda>a. a + spacing) anchor\<rparr>))"

definition service_CycleStatus :: "bool \<Rightarrow> broker_db \<Rightarrow> CycleStatus" where
  "service_CycleStatus windowPulseEnabled db =
     (if windowPulseEnabled then snd (cycleSnapshot db)
      else \<lparr>cs_MemberCount = 0, cs_ActiveCount = 0, cs_HeldCount = 0, cs_SpacingMS = 0,
            cs_AnchorAtMS = None, cs_NextPulseAtMS = None\<rparr>)"

end
