(* ===== verification/Usage_Polls.thy ===== *)
theory Usage_Polls
  imports Operations Cycle
begin

text \<open>
  internal/broker/usage_poll.go and reset_poll.go: which accounts' usage is read next. Reads
  are asked for by events (durable requests, one per account), by the resets of usage windows
  (one pending reset and one watermark per account and window) and by two timed lanes.
\<close>

definition usageResetGrace :: int where "usageResetGrace = 45 * 1000"
definition usageRefreshInterval :: int where "usageRefreshInterval = 90 * 1000"
definition usageRetryDelay :: int where "usageRetryDelay = 5 * 60 * 1000"

record resetRefresh =
  rr_account :: string
  rr_public :: string
  rr_operation :: string

subsection \<open>Requests\<close>

definition settling_reasons :: "string list" where
  "settling_reasons = [''WINDOW_RESET'', ''QUOTA_REJECTED'', ''RESET_UNCONFIRMED'']"

definition merge_request :: "int \<Rightarrow> string \<Rightarrow> refresh_request_row option \<Rightarrow> refresh_request_row" where
  "merge_request due reason old =
     (case old of
        None \<Rightarrow> \<lparr>rq_due_at_ms = due, rq_reason = reason, rq_next_attempt_at_ms = 0\<rparr>
      | Some row \<Rightarrow>
          if rq_reason row \<notin> set settling_reasons \<or> reason \<in> set settling_reasons
          then \<lparr>rq_due_at_ms = max (rq_due_at_ms row) due, rq_reason = reason, rq_next_attempt_at_ms = 0\<rparr>
          else row)"

definition requestUsageRefresh :: "string \<Rightarrow> string \<Rightarrow> int \<Rightarrow> broker_db \<Rightarrow> broker_db" where
  "requestUsageRefresh account reason due db =
     db\<lparr>t_usage_refresh_requests := (t_usage_refresh_requests db)
          (account \<mapsto> merge_request due reason (t_usage_refresh_requests db account))\<rparr>"

definition on_usage :: "(usage_row \<Rightarrow> usage_row) \<Rightarrow> string \<Rightarrow> broker_db \<Rightarrow> broker_db" where
  "on_usage f account db = db\<lparr>t_usage_current := update_row f account (t_usage_current db)\<rparr>"

definition claimUsageRefresh :: "string \<Rightarrow> account_row \<Rightarrow> string \<Rightarrow> int \<Rightarrow> broker_db \<Rightarrow> resetRefresh \<times> broker_db" where
  "claimUsageRefresh newID a reason now db =
     (\<lparr>rr_account = ar_account_id a, rr_public = ar_public_token a, rr_operation = newID\<rparr>,
      on_usage (\<lambda>u. u\<lparr>uc_last_attempt_at_ms := Some now\<rparr>) (ar_account_id a)
        (add_operation (queued_operation newID (Some (ar_account_id a)) ''usage.refresh'' reason now) db))"

subsection \<open>The timed lanes\<close>

definition healthy :: "broker_db \<Rightarrow> account_row \<Rightarrow> bool" where
  "healthy db a \<longleftrightarrow>
     ar_enabled a \<and> ar_deleted_at_ms a = None
     \<and> (case t_account_state db (ar_account_id a) of None \<Rightarrow> False | Some s \<Rightarrow> as_auth_state s = ''VERIFIED'')
     \<and> t_usage_current db (ar_account_id a) \<noteq> None \<and> has_active_bundle db (ar_account_id a)"

definition worker_stopped :: "broker_db \<Rightarrow> string \<Rightarrow> bool" where
  "worker_stopped db account \<longleftrightarrow>
     (case t_account_state db account of None \<Rightarrow> False | Some s \<Rightarrow> as_worker_state s = ''STOPPED'')"

definition cycle_of :: "broker_db \<Rightarrow> string \<Rightarrow> string option" where
  "cycle_of db account = map_option pw_cycle_state (t_window_pulse_state db account)"

definition in_rotation :: "bool \<Rightarrow> broker_db \<Rightarrow> account_row \<Rightarrow> bool" where
  "in_rotation windowPulseEnabled db a \<longleftrightarrow>
     (\<not> windowPulseEnabled \<or> cycle_of db (ar_account_id a) = Some ''IN_CYCLE'')
     \<and> (case t_usage_current db (ar_account_id a) of None \<Rightarrow> False | Some u \<Rightarrow> capacity_left u)
     \<and> t_account_quota_blocks db (ar_account_id a) = None"

definition may_read :: "broker_db \<Rightarrow> int \<Rightarrow> account_row \<Rightarrow> bool" where
  "may_read db now a \<longleftrightarrow>
     worker_stopped db (ar_account_id a)
     \<and> (case t_usage_current db (ar_account_id a) of
          None \<Rightarrow> False
        | Some u \<Rightarrow>
            (case uc_last_attempt_at_ms u of
               None \<Rightarrow> True
             | Some t \<Rightarrow> t \<le> coalesce (uc_complete_read_at_ms u) 0 \<or> t \<le> now - usageRetryDelay))
     \<and> \<not> has_open_operation db (ar_account_id a)"

definition by_start :: "broker_db \<Rightarrow> account_row list \<Rightarrow> account_row list" where
  "by_start db rows =
     sort_key (\<lambda>a. let started = Option.bind (t_window_pulse_state db (ar_account_id a)) pw_weekly_started_at_ms
                   in (started = None, coalesce started 0, ar_account_id a)) rows"

definition rotation_accounts :: "bool \<Rightarrow> int \<Rightarrow> broker_db \<Rightarrow> account_row list" where
  "rotation_accounts windowPulseEnabled now db =
     (let candidates = take 4 (by_start db (filter (\<lambda>a. healthy db a \<and> in_rotation windowPulseEnabled db a) (t_accounts db)))
      in take 4 (by_start db (filter (\<lambda>a. healthy db a \<and> ar_account_id a \<in> ar_account_id ` set candidates \<and> may_read db now a)
                               (t_accounts db))))"

definition oldest_read :: "int \<Rightarrow> broker_db \<Rightarrow> account_row list" where
  "oldest_read now db =
     take 1 (sort_key (\<lambda>a. (coalesce (Option.bind (t_usage_current db (ar_account_id a)) uc_complete_read_at_ms) 0,
                            ar_created_at_ms a, ar_account_id a))
               (filter (\<lambda>a. healthy db a \<and> may_read db now a) (t_accounts db)))"

text \<open>The member after the one read last.\<close>

definition next_index :: "string \<Rightarrow> account_row list \<Rightarrow> nat" where
  "next_index cursor accounts =
     (case find (\<lambda>i. ar_account_id (accounts ! i) = cursor) [0..<length accounts] of
        None \<Rightarrow> 0
      | Some i \<Rightarrow> (i + 1) mod length accounts)"

definition set_poll :: "bool \<Rightarrow> int \<Rightarrow> broker_db \<Rightarrow> broker_db" where
  "set_poll daily next db =
     db\<lparr>t_usage_poll_state := (if daily then (t_usage_poll_state db)\<lparr>pl_next_sweep_at_ms := next\<rparr>
                               else (t_usage_poll_state db)\<lparr>pl_next_regular_at_ms := next\<rparr>)\<rparr>"

definition day_ms :: int where "day_ms = 24 * 60 * 60 * 1000"

definition claimScheduledRefresh :: "bool \<Rightarrow> string \<Rightarrow> int \<Rightarrow> bool \<Rightarrow> broker_db \<Rightarrow> resetRefresh option \<times> broker_db" where
  "claimScheduledRefresh windowPulseEnabled newID now daily db =
     (let poll = t_usage_poll_state db;
          due = (if daily then pl_next_sweep_at_ms poll else pl_next_regular_at_ms poll);
          n = length (filter (healthy db) (t_accounts db))
      in if now < due \<or> daily \<and> n = 0 then (None, db)
         else
           (let interval = (if daily then max 1000 (go_div day_ms (int n)) else usageRefreshInterval);
                db = set_poll daily (now + interval) db;
                accounts = (if daily then oldest_read now db else rotation_accounts windowPulseEnabled now db)
            in if accounts = [] then (None, db)
               else
                 (let a = accounts ! (if daily then 0 else next_index (pl_regular_cursor poll) accounts) in
                  case claimUsageRefresh newID a (if daily then ''DAILY_SWEEP'' else ''SCHEDULED'') now db of
                    (refresh, db) \<Rightarrow>
                      (Some refresh,
                       if daily then db
                       else db\<lparr>t_usage_poll_state := (t_usage_poll_state db)\<lparr>pl_regular_cursor := ar_account_id a\<rparr>\<rparr>))))"

subsection \<open>Resets\<close>

definition window_reset :: "string \<Rightarrow> usage_row \<Rightarrow> nullint" where
  "window_reset kind u = (if kind = ''short'' then uc_short_resets_at_s u else uc_weekly_resets_at_s u)"

definition window_kinds :: "string list" where "window_kinds = [''short'', ''weekly'']"

definition merge_reset :: "int \<Rightarrow> int \<Rightarrow> reset_poll_row option \<Rightarrow> reset_poll_row" where
  "merge_reset now reset old =
     (case old of
        None \<Rightarrow> \<lparr>rp_reset_at_s = reset, rp_last_polled_reset_at_s = 0\<rparr>
      | Some row \<Rightarrow>
          if rp_last_polled_reset_at_s row < reset \<and> reset \<noteq> rp_reset_at_s row
             \<and> (rp_reset_at_s row \<le> rp_last_polled_reset_at_s row \<or> go_div now 1000 < rp_reset_at_s row)
          then row\<lparr>rp_reset_at_s := reset\<rparr> else row)"

text \<open>The empty account identifier stands for every account.\<close>

definition scheduleUsageResets :: "string \<Rightarrow> int \<Rightarrow> broker_db \<Rightarrow> broker_db" where
  "scheduleUsageResets account now db =
     db\<lparr>t_usage_reset_polls := (\<lambda>(a, kind).
          if kind \<in> set window_kinds \<and> (account = [] \<or> a = account)
          then (case Option.bind (t_usage_current db a) (window_reset kind) of
                  Some reset \<Rightarrow> if 0 < reset then Some (merge_reset now reset (t_usage_reset_polls db (a, kind)))
                               else t_usage_reset_polls db (a, kind)
                | None \<Rightarrow> t_usage_reset_polls db (a, kind))
          else t_usage_reset_polls db (a, kind))\<rparr>"

definition settle_row :: "int \<Rightarrow> reset_poll_row \<Rightarrow> reset_poll_row" where
  "settle_row limit row =
     (if rp_reset_at_s row \<le> limit \<and> rp_last_polled_reset_at_s row < rp_reset_at_s row
      then row\<lparr>rp_last_polled_reset_at_s := rp_reset_at_s row\<rparr> else row)"

definition settleUsageResets :: "string \<Rightarrow> int \<Rightarrow> broker_db \<Rightarrow> broker_db" where
  "settleUsageResets account readStartedAtMS db =
     db\<lparr>t_usage_reset_polls := (\<lambda>(a, kind).
          if a = account then map_option (settle_row (go_div (readStartedAtMS - usageResetGrace) 1000)) (t_usage_reset_polls db (a, kind))
          else t_usage_reset_polls db (a, kind))\<rparr>"

definition due_resets :: "int \<Rightarrow> broker_db \<Rightarrow> string \<Rightarrow> usage_row \<Rightarrow> int list" where
  "due_resets now db account u =
     List.map_filter (\<lambda>kind.
        case t_usage_reset_polls db (account, kind) of
          None \<Rightarrow> None
        | Some row \<Rightarrow>
            if rp_reset_at_s row \<le> go_div (now - usageResetGrace) 1000
               \<and> (rp_last_polled_reset_at_s row < rp_reset_at_s row
                  \<or> coalesce (uc_complete_read_at_ms u) 0 < rp_reset_at_s row * 1000 + usageResetGrace)
            then Some (rp_reset_at_s row) else None) window_kinds"

definition wants_reset_read :: "bool \<Rightarrow> broker_db \<Rightarrow> string \<Rightarrow> usage_row \<Rightarrow> bool" where
  "wants_reset_read windowPulseEnabled db account u \<longleftrightarrow>
     \<not> windowPulseEnabled \<or> cycle_of db account = Some ''IN_CYCLE''
     \<or> sql_gt (uc_short_used_percent_raw u) 0 \<or> sql_gt (uc_weekly_used_percent_raw u) 0
     \<or> t_account_quota_blocks db account \<noteq> None"

definition merge_reset_request :: "int \<Rightarrow> refresh_request_row option \<Rightarrow> refresh_request_row" where
  "merge_reset_request due old =
     (let new = \<lparr>rq_due_at_ms = due, rq_reason = ''WINDOW_RESET'', rq_next_attempt_at_ms = 0\<rparr> in
      case old of None \<Rightarrow> new | Some row \<Rightarrow> if rq_reason row \<notin> set settling_reasons then new else row)"

definition request_resets :: "bool \<Rightarrow> int \<Rightarrow> broker_db \<Rightarrow> broker_db" where
  "request_resets windowPulseEnabled now db =
     db\<lparr>t_usage_refresh_requests := (\<lambda>account.
          case t_usage_current db account of
            None \<Rightarrow> t_usage_refresh_requests db account
          | Some u \<Rightarrow>
              (let resets = due_resets now db account u in
               if resets \<noteq> [] \<and> wants_reset_read windowPulseEnabled db account u
               then Some (merge_reset_request (Min (set resets) * 1000 + usageResetGrace) (t_usage_refresh_requests db account))
               else t_usage_refresh_requests db account))\<rparr>"

definition refresh_candidate :: "int \<Rightarrow> broker_db \<Rightarrow> account_row \<Rightarrow> refresh_request_row option" where
  "refresh_candidate now db a =
     (case t_usage_refresh_requests db (ar_account_id a) of
        None \<Rightarrow> None
      | Some row \<Rightarrow>
          if rq_due_at_ms row \<le> now \<and> rq_next_attempt_at_ms row \<le> now \<and> ar_enabled a \<and> ar_deleted_at_ms a = None
             \<and> (case t_account_state db (ar_account_id a) of None \<Rightarrow> False
                | Some s \<Rightarrow> as_auth_state s = ''VERIFIED'' \<and> as_worker_state s = ''STOPPED'')
             \<and> has_active_bundle db (ar_account_id a) \<and> \<not> has_open_operation db (ar_account_id a)
          then Some row else None)"

definition postpone_request :: "int \<Rightarrow> string \<Rightarrow> broker_db \<Rightarrow> broker_db" where
  "postpone_request next account db =
     db\<lparr>t_usage_refresh_requests := update_row (\<lambda>row. row\<lparr>rq_next_attempt_at_ms := next\<rparr>) account (t_usage_refresh_requests db)\<rparr>"

text \<open>The candidates are read before the first claim; \<open>ids\<close> gives each claim a new identifier.\<close>

fun claim_all :: "int \<Rightarrow> (nat \<Rightarrow> string) \<Rightarrow> (account_row \<times> refresh_request_row) list \<Rightarrow> broker_db \<Rightarrow> resetRefresh list \<times> broker_db" where
  "claim_all now ids [] db = ([], db)"
| "claim_all now ids ((a, row) # rest) db =
     (case claimUsageRefresh (ids (length rest)) a (rq_reason row) now db of
        (refresh, db1) \<Rightarrow>
          (case claim_all now ids rest
                  (settleUsageResets (ar_account_id a) now
                     (postpone_request (now + usageRetryDelay) (ar_account_id a) db1)) of
             (refreshes, db2) \<Rightarrow> (refresh # refreshes, db2)))"

definition claimResetRefreshes :: "bool \<Rightarrow> (nat \<Rightarrow> string) \<Rightarrow> int \<Rightarrow> broker_db \<Rightarrow> resetRefresh list \<times> broker_db" where
  "claimResetRefreshes windowPulseEnabled ids now db =
     (let db = request_resets windowPulseEnabled now (scheduleUsageResets [] now db);
          candidates = List.map_filter (\<lambda>a. map_option (Pair a) (refresh_candidate now db a)) (t_accounts db)
      in claim_all now ids candidates db)"

end
