(* ===== verification/Cycle_Correct.thy ===== *)
theory Cycle_Correct
  imports Cycle
begin

text \<open>
  What \<open>reconcileCycle\<close> guarantees (it is idempotent, every member ends in a state its usage
  justifies, nothing else changes, the anchor only moves forward) and that the gaps the cycle
  view reports close to exactly one week.
\<close>

subsection \<open>Keyed writes of a list\<close>

lemma save_member_apply:
  "save_member m t k = (if k = cm_id m then Some (the (save_member m t (cm_id m))) else t k)"
  by (simp add: save_member_def split: option.splits)

lemma save_member_other: "k \<noteq> cm_id m \<Longrightarrow> save_member m t k = t k"
  by (simp add: save_member_def)

lemma save_member_row:
  "save_member m t (cm_id m) = Some row \<Longrightarrow>
   pw_cycle_state row = cm_state m \<and> pw_weekly_started_at_ms row = cm_weeklyStartedAtMS m
   \<and> pw_last_usage_observed_at_ms row = cm_lastUsageObservedAtMS m \<and> pw_idle_observation_count row = cm_idleObservationCount m"
  by (auto simp: save_member_def split: option.splits)

lemma save_members_other:
  "k \<notin> cm_id ` set ms \<Longrightarrow> (\<And>m. cm_id (f m) = cm_id m) \<Longrightarrow> fold (\<lambda>m. save_member (f m)) ms t k = t k"
  by (induction ms arbitrary: t) (auto simp: save_member_other)

lemma save_members_at:
  assumes "distinct (map cm_id ms)" and "\<And>m. cm_id (f m) = cm_id m" and "m \<in> set ms"
  shows "fold (\<lambda>m. save_member (f m)) ms t (cm_id m) = save_member (f m) t (cm_id m)"
  using assms
proof (induction ms arbitrary: t)
  case (Cons x xs)
  show ?case
  proof (cases "m = x")
    case True
    then show ?thesis using Cons.prems save_members_other [of "cm_id x" xs f] by auto
  next
    case False
    then have "m \<in> set xs" and "cm_id m \<noteq> cm_id x" using Cons.prems by (auto simp: image_iff)
    then show ?thesis using Cons by (simp add: save_member_def)
  qed
qed simp

subsection \<open>One member\<close>

lemma usageCycleEvidence_cong:
  "cm_weeklyResetS m = cm_weeklyResetS n \<Longrightarrow> cm_weeklyDurationMinutes m = cm_weeklyDurationMinutes n \<Longrightarrow>
   cm_shortUsed m = cm_shortUsed n \<Longrightarrow> cm_weeklyUsed m = cm_weeklyUsed n \<Longrightarrow>
   cm_usageReadAtMS m = cm_usageReadAtMS n \<Longrightarrow> usageCycleEvidence m now = usageCycleEvidence n now"
  by (simp add: usageCycleEvidence_def Let_def cong: option.case_cong)

lemma observe_usage_frame [simp]:
  "cm_id (observe_usage rolling m) = cm_id m"
  "cm_state (observe_usage rolling m) = cm_state m"
  "cm_createdAtMS (observe_usage rolling m) = cm_createdAtMS m"
  "cm_shortUsed (observe_usage rolling m) = cm_shortUsed m"
  "cm_weeklyUsed (observe_usage rolling m) = cm_weeklyUsed m"
  "cm_weeklyResetS (observe_usage rolling m) = cm_weeklyResetS m"
  "cm_weeklyDurationMinutes (observe_usage rolling m) = cm_weeklyDurationMinutes m"
  "cm_usageReadAtMS (observe_usage rolling m) = cm_usageReadAtMS m"
  "cm_weeklyStartedAtMS (observe_usage rolling m) = cm_weeklyStartedAtMS m"
  "cm_hasActivePulseOperation (observe_usage rolling m) = cm_hasActivePulseOperation m"
  by (simp_all add: observe_usage_def Let_def)

lemma reconcile_member_frame [simp]:
  "cm_id (reconcile_member now m) = cm_id m"
  "cm_createdAtMS (reconcile_member now m) = cm_createdAtMS m"
  "cm_shortUsed (reconcile_member now m) = cm_shortUsed m"
  "cm_weeklyUsed (reconcile_member now m) = cm_weeklyUsed m"
  "cm_weeklyResetS (reconcile_member now m) = cm_weeklyResetS m"
  "cm_weeklyDurationMinutes (reconcile_member now m) = cm_weeklyDurationMinutes m"
  "cm_usageReadAtMS (reconcile_member now m) = cm_usageReadAtMS m"
  "cm_hasActivePulseOperation (reconcile_member now m) = cm_hasActivePulseOperation m"
  by (simp_all add: reconcile_member_def Let_def split: prod.split)

lemma evidence_reconciled [simp]:
  "usageCycleEvidence (reconcile_member now m) now = usageCycleEvidence m now"
  by (rule usageCycleEvidence_cong) simp_all

lemma active_start_reconciled [simp]: "active_start now (reconcile_member now m) = active_start now m"
  by (simp add: active_start_def)

lemma observe_usage_seen:
  "cm_lastUsageObservedAtMS m = cm_lastUsageObservedAtMS (observe_usage r n) \<Longrightarrow>
   cm_usageReadAtMS m = cm_usageReadAtMS n \<Longrightarrow> observe_usage r' m = m"
  by (auto simp: observe_usage_def Let_def split: option.splits if_splits)

lemma reconcile_member_idem [simp]:
  "reconcile_member now (reconcile_member now m) = reconcile_member now m"
proof -
  obtain started active rolling where e: "usageCycleEvidence m now = (started, active, rolling)"
    by (cases "usageCycleEvidence m now") auto
  let ?m = "reconcile_member now m"
  have m: "?m = (observe_usage rolling m)\<lparr>cm_state := next_cycle_state (observe_usage rolling m) active rolling now,
      cm_weeklyStartedAtMS := (if active then Some started else cm_weeklyStartedAtMS m)\<rparr>"
    by (simp add: reconcile_member_def e Let_def)
  have seen: "observe_usage rolling ?m = ?m"
    by (rule observe_usage_seen [of ?m rolling m]) (simp_all add: m)
  have again: "next_cycle_state ?m active rolling now = cm_state ?m"
    by (auto simp: m next_cycle_state_def Let_def week_over_def)
  have "reconcile_member now ?m
      = ?m\<lparr>cm_state := cm_state ?m, cm_weeklyStartedAtMS := (if active then Some started else cm_weeklyStartedAtMS ?m)\<rparr>"
    by (subst reconcile_member_def) (simp add: e Let_def seen again del: if_split)
  also have "\<dots> = ?m" by (rule cycleMember.equality) (simp_all add: m)
  finally show ?thesis .
qed

lemma reconcile_member_state:
  "cm_state (reconcile_member now m) \<in> {''IN_CYCLE'', ''HELD'', ''RELEASING''}"
  "cm_state (reconcile_member now m) = ''RELEASING'' \<Longrightarrow> cm_hasActivePulseOperation m"
  "usageCycleEvidence m now = (started, True, rolling) \<Longrightarrow>
   cm_state (reconcile_member now m) = ''IN_CYCLE'' \<and> cm_weeklyStartedAtMS (reconcile_member now m) = Some started"
  by (cases "usageCycleEvidence m now"; auto simp: reconcile_member_def next_cycle_state_def Let_def split: if_splits)+

subsection \<open>All members\<close>

lemma cycle_member_id [simp]: "cm_id (cycle_member db a) = ar_account_id a"
  by (simp add: cycle_member_def Let_def)

lemma distinct_members:
  "distinct (map ar_account_id (t_accounts db)) \<Longrightarrow> distinct (map cm_id (loadCycleMembers db))"
  by (simp add: loadCycleMembers_def by_creation_def comp_def distinct_map inj_on_def)

lemma reconcileCycle_frame [simp]:
  "t_accounts (reconcileCycle e now db) = t_accounts db"
  "t_account_state (reconcileCycle e now db) = t_account_state db"
  "t_usage_current (reconcileCycle e now db) = t_usage_current db"
  "t_account_quota_blocks (reconcileCycle e now db) = t_account_quota_blocks db"
  "t_account_exclusions (reconcileCycle e now db) = t_account_exclusions db"
  "t_usage_refresh_requests (reconcileCycle e now db) = t_usage_refresh_requests db"
  "t_usage_reset_polls (reconcileCycle e now db) = t_usage_reset_polls db"
  "t_relay_reservations (reconcileCycle e now db) = t_relay_reservations db"
  "t_operations (reconcileCycle e now db) = t_operations db"
  "t_credential_bundles (reconcileCycle e now db) = t_credential_bundles db"
  "t_client_api_keys (reconcileCycle e now db) = t_client_api_keys db"
  "t_client_key_labels (reconcileCycle e now db) = t_client_key_labels db"
  "t_labels (reconcileCycle e now db) = t_labels db"
  "t_account_labels (reconcileCycle e now db) = t_account_labels db"
  "t_incidents (reconcileCycle e now db) = t_incidents db"
  "t_usage_snapshots (reconcileCycle e now db) = t_usage_snapshots db"
  "t_usage_poll_state (reconcileCycle e now db) = t_usage_poll_state db"
  "t_relay_events (reconcileCycle e now db) = t_relay_events db"
  "t_relay_heartbeats (reconcileCycle e now db) = t_relay_heartbeats db"
  "t_proxy_responses (reconcileCycle e now db) = t_proxy_responses db"
  "t_proxy_usage_totals (reconcileCycle e now db) = t_proxy_usage_totals db"
  "t_quota_intervals (reconcileCycle e now db) = t_quota_intervals db"
  "t_quota_lifetime (reconcileCycle e now db) = t_quota_lifetime db"
  "t_quota_model_lifetime (reconcileCycle e now db) = t_quota_model_lifetime db"
  "t_account_profiles (reconcileCycle e now db) = t_account_profiles db"
  "t_login_attempts (reconcileCycle e now db) = t_login_attempts db"
  "t_public_enrollments (reconcileCycle e now db) = t_public_enrollments db"
  "t_public_enrollment_open (reconcileCycle e now db) = t_public_enrollment_open db"
  by (simp_all add: reconcileCycle_def Let_def)

lemma is_cycle_member_cong:
  "t_account_state db' = t_account_state db \<Longrightarrow> is_cycle_member db' = is_cycle_member db"
  by (auto simp: is_cycle_member_def fun_eq_iff)

lemma pulse_after_reconcile:
  assumes "distinct (map ar_account_id (t_accounts db))" and "m \<in> set (loadCycleMembers db)"
  shows "t_window_pulse_state (reconcileCycle True now db) (cm_id m)
    = save_member (reconcile_member now m) (t_window_pulse_state db) (cm_id m)"
  using save_members_at [OF distinct_members [OF assms(1)] _ assms(2), of "reconcile_member now"]
  by (simp add: reconcileCycle_def Let_def)

lemma pulse_of_others:
  "k \<notin> cm_id ` set (loadCycleMembers db) \<Longrightarrow>
   t_window_pulse_state (reconcileCycle e now db) k = t_window_pulse_state db k"
  by (simp add: reconcileCycle_def Let_def save_members_other)

lemma cycle_member_reconciled:
  assumes "distinct (map ar_account_id (t_accounts db))" and "a \<in> set (t_accounts db)" and "is_cycle_member db a"
  shows "cycle_member (reconcileCycle True now db) a = reconcile_member now (cycle_member db a)"
proof -
  let ?m = "cycle_member db a"
  have m: "?m \<in> set (loadCycleMembers db)" using assms by (auto simp: loadCycleMembers_def)
  obtain row where row: "t_window_pulse_state (reconcileCycle True now db) (ar_account_id a) = Some row"
    "save_member (reconcile_member now ?m) (t_window_pulse_state db) (cm_id (reconcile_member now ?m)) = Some row"
    using pulse_after_reconcile [OF assms(1) m, of now] by (simp add: save_member_def)
  note fields = save_member_row [OF row(2)]
  show ?thesis
    by (rule cycleMember.equality)
      (use row(1) fields in \<open>simp_all add: cycle_member_def Let_def has_open_pulse_def\<close>)
qed

lemma loadCycleMembers_reconciled:
  assumes "distinct (map ar_account_id (t_accounts db))"
  shows "loadCycleMembers (reconcileCycle True now db) = map (reconcile_member now) (loadCycleMembers db)"
  unfolding loadCycleMembers_def
  by (simp add: is_cycle_member_cong [of "reconcileCycle True now db" db])
    (use assms in \<open>auto intro: cycle_member_reconciled\<close>)

lemma later_idem: "later (later stored latest) latest = later stored latest"
  by (auto simp: later_def split: option.splits)

lemma later_None [simp]: "later latest None = latest" "later None candidate = candidate"
  by (auto simp: later_def split: option.splits)

lemma fold_later_mono: "later x (fold (\<lambda>m latest. later latest (f m)) ms x) = fold (\<lambda>m latest. later latest (f m)) ms x"
proof (induction ms arbitrary: x)
  case Nil
  then show ?case by (auto simp: later_def split: option.splits)
next
  case (Cons m ms)
  let ?r = "fold (\<lambda>m latest. later latest (f m)) ms (later x (f m))"
  have "later (later x (f m)) ?r = ?r" by (rule Cons)
  then have "later x ?r = ?r"
    by (auto simp: later_def split: option.splits if_splits)
  then show ?case by simp
qed

lemma next_anchor_idem:
  "next_anchor now (map (reconcile_member now) ms) (next_anchor now ms stored) = next_anchor now ms stored"
proof -
  let ?latest = "fold (\<lambda>m latest. later latest (active_start now m)) ms None"
  have "fold (\<lambda>m latest. later latest (active_start now m)) (map (reconcile_member now) ms) None = ?latest"
    by (simp add: fold_map comp_def)
  then show ?thesis
    by (auto simp: next_anchor_def Let_def later_idem) (auto simp: later_def split: option.splits if_splits)
qed

lemma save_members_idem:
  assumes "distinct (map cm_id ms)"
  shows "fold (\<lambda>m. save_member (reconcile_member now m)) (map (reconcile_member now) ms)
      (fold (\<lambda>m. save_member (reconcile_member now m)) ms t)
    = fold (\<lambda>m. save_member (reconcile_member now m)) ms t"
proof
  fix k
  let ?t = "fold (\<lambda>m. save_member (reconcile_member now m)) ms t"
  have fold_again: "fold (\<lambda>m. save_member (reconcile_member now m)) (map (reconcile_member now) ms) ?t
      = fold (\<lambda>m. save_member (reconcile_member now m)) ms ?t"
    by (simp add: fold_map comp_def)
  show "fold (\<lambda>m. save_member (reconcile_member now m)) (map (reconcile_member now) ms) ?t k = ?t k"
  proof (cases "k \<in> cm_id ` set ms")
    case True
    then obtain m where m: "m \<in> set ms" "k = cm_id m" by blast
    have once: "?t k = save_member (reconcile_member now m) t k"
      using save_members_at [OF assms _ m(1), of "reconcile_member now" t] m(2) by simp
    have "fold (\<lambda>m. save_member (reconcile_member now m)) ms ?t k = save_member (reconcile_member now m) ?t k"
      using save_members_at [OF assms _ m(1), of "reconcile_member now" ?t] m(2) by simp
    also have "\<dots> = ?t k" using once m(2) by (auto simp: save_member_def split: option.splits)
    finally show ?thesis using fold_again by simp
  next
    case False
    then show ?thesis using fold_again save_members_other [of k ms "reconcile_member now"] by simp
  qed
qed

lemma set_anchor_idem [simp]: "set_anchor anchor n (set_anchor anchor n row) = set_anchor anchor n row"
  by (simp add: set_anchor_def)

lemma set_anchor_anchor [simp]: "cy_cadence_anchor_at_ms (set_anchor anchor n row) = anchor"
  by (simp add: set_anchor_def)

text \<open>
  C34: the router reconciles the cycle before every decision. Reconciling again at the same
  moment changes nothing, so the decision does not depend on how often it ran.
\<close>

theorem reconcileCycle_idempotent:
  assumes "distinct (map ar_account_id (t_accounts db))"
  shows "reconcileCycle enabled now (reconcileCycle enabled now db) = reconcileCycle enabled now db"
proof (cases enabled)
  case True
  let ?db = "reconcileCycle True now db"
  have members: "loadCycleMembers ?db = map (reconcile_member now) (loadCycleMembers db)"
    by (rule loadCycleMembers_reconciled [OF assms])
  have "t_window_pulse_state (reconcileCycle True now ?db) = t_window_pulse_state ?db"
    using save_members_idem [OF distinct_members [OF assms], of now "t_window_pulse_state db"]
    by (subst reconcileCycle_def) (simp add: Let_def members, simp add: reconcileCycle_def Let_def)
  moreover have "t_weekly_cycle_state (reconcileCycle True now ?db) = t_weekly_cycle_state ?db"
    by (subst reconcileCycle_def)
      (simp add: Let_def members, simp add: reconcileCycle_def Let_def next_anchor_idem)
  ultimately have "reconcileCycle True now ?db = ?db"
    by (intro broker_db.equality) simp_all
  then show ?thesis using True by simp
qed (simp add: reconcileCycle_def)

text \<open>An account whose weekly window runs although the database still says it is held.\<close>

definition ex_account :: "string \<Rightarrow> account_row" where
  "ex_account i = \<lparr>ar_account_id = i, ar_public_token = ''p'' @ i, ar_display_name = i,
     ar_workspace_constraint = None, ar_enabled = True, ar_created_at_ms = 1, ar_deleted_at_ms = None,
     ar_lifecycle_state = ''ACTIVE'', ar_preferred_login_method = ''CHATGPT_DEVICE_CODE'', ar_last_successful_login_method = None\<rparr>"

definition ex_state :: state_row where
  "ex_state = \<lparr>as_auth_state = ''VERIFIED'', as_worker_state = ''STOPPED'', as_overall_state = ''HEALTHY'',
     as_usage_state = ''FRESH'', as_upstream_email = None, as_upstream_plan = None,
     as_last_auth_verified_at_ms = None, as_last_error_code = None, as_last_error_summary = None,
     as_last_routed_at_ms = None, as_state_version = 1\<rparr>"

definition ex_usage :: "int \<Rightarrow> int \<Rightarrow> usage_row" where
  "ex_usage used reset = \<lparr>uc_snapshot_id = None, uc_selected_limit_id = None, uc_short_raw_slot = None,
     uc_short_used_percent_raw = Some used, uc_short_duration_minutes = Some 300,
     uc_short_resets_at_s = Some reset, uc_short_anomaly = False, uc_weekly_raw_slot = None,
     uc_weekly_used_percent_raw = Some used, uc_weekly_duration_minutes = Some 10080,
     uc_weekly_resets_at_s = Some reset, uc_weekly_anomaly = False,
     uc_complete_read_at_ms = Some 900000000, uc_last_attempt_at_ms = Some 900000000, uc_stale = False,
     uc_last_error_code = None, uc_last_error_summary = None, uc_source = ''APP_SERVER'', uc_state_version = 1\<rparr>"

definition ex_pulse :: "string \<Rightarrow> int option \<Rightarrow> pulse_row" where
  "ex_pulse state started = \<lparr>pw_last_attempt_at_ms = 0, pw_last_success_at_ms = None, pw_next_pulse_at_ms = None,
     pw_last_error_code = None, pw_cycle_state = state, pw_weekly_started_at_ms = started,
     pw_last_usage_observed_at_ms = None, pw_idle_observation_count = 0\<rparr>"

definition ex_db :: broker_db where
  "ex_db = empty_db\<lparr>t_accounts := [ex_account ''a'', ex_account ''b''],
     t_account_state := (\<lambda>_. Some ex_state),
     t_usage_current := [''a'' \<mapsto> ex_usage 7 1000000, ''b'' \<mapsto> ex_usage 0 1000000],
     t_window_pulse_state := [''a'' \<mapsto> ex_pulse ''HELD'' None]\<rparr>"

theorem reconcileCycle_idempotent_witness:
  "reconcileCycle True 900000000 (reconcileCycle True 900000000 ex_db) = reconcileCycle True 900000000 ex_db"
  by (rule reconcileCycle_idempotent) (simp add: ex_db_def ex_account_def)

subsection \<open>What the states mean\<close>



text \<open>The anchor never moves back, and a pool with a member has one.\<close>

lemma later_mono: "stored = Some x \<Longrightarrow> \<exists>y. later stored c = Some y \<and> x \<le> y"
  by (auto simp: later_def split: option.split)

lemma anchor_moves_forward:
  "cy_cadence_anchor_at_ms (t_weekly_cycle_state db) = Some x \<Longrightarrow>
   \<exists>y. cy_cadence_anchor_at_ms (t_weekly_cycle_state (reconcileCycle enabled now db)) = Some y \<and> x \<le> y"
  using later_mono [of "cy_cadence_anchor_at_ms (t_weekly_cycle_state db)" x
      "fold (\<lambda>m latest. later latest (active_start now m)) (loadCycleMembers db) None"]
  by (auto simp: reconcileCycle_def next_anchor_def Let_def)

lemma anchor_exists:
  "loadCycleMembers db \<noteq> [] \<Longrightarrow>
   cy_cadence_anchor_at_ms (t_weekly_cycle_state (reconcileCycle True now db)) \<noteq> None"
  by (simp add: reconcileCycle_def next_anchor_def Let_def)

subsection \<open>The gaps of the view\<close>

definition started_key :: "cycleMember \<Rightarrow> bool \<times> int \<times> string" where
  "started_key m = (cm_weeklyStartedAtMS m = None, coalesce (cm_weeklyStartedAtMS m) 0, cm_id m)"

interpretation started_order: keyed_ranking started_before started_key
  by unfold_locales
    (auto simp: started_before_def started_key_def coalesce_def less_prod_def split: option.split)

lemma telescope: "sum_list (map (\<lambda>i. f i - f (i - 1)) [1..<Suc n]) = f n - (f 0 :: int)"
  by (induction n) auto

lemma gap_values:
  assumes "\<forall>m\<in>set active. cm_weeklyStartedAtMS m \<noteq> None" and "i < length active"
  shows "gap_ms active i = Some
    (let started = (\<lambda>i. the (cm_weeklyStartedAtMS (active ! i)))
     in if i = 0 then started 0 - started (length active - 1) + weeklyCycleMS else started i - started (i - 1))"
proof -
  have some: "j < length active \<Longrightarrow> \<exists>x. cm_weeklyStartedAtMS (active ! j) = Some x" for j
    using assms(1) nth_mem by blast
  have "active \<noteq> []" using assms(2) by auto
  moreover obtain x y z where "cm_weeklyStartedAtMS (active ! i) = Some x"
    "cm_weeklyStartedAtMS (active ! (length active - 1)) = Some y"
    "cm_weeklyStartedAtMS (active ! (i - 1)) = Some z"
    using some [of i] some [of "length active - 1"] some [of "i - 1"] assms(2)
    by (metis diff_less less_imp_diff_less less_numeral_extra(1) not_less_zero neq0_conv)
  ultimately show ?thesis by (auto simp: gap_ms_def last_conv_nth coalesce_def Let_def)
qed

lemma gaps_close:
  assumes "\<forall>m\<in>set active. cm_weeklyStartedAtMS m \<noteq> None" and "active \<noteq> []"
  shows "sum_list (map (\<lambda>item. the (cv_gapMS item)) (view_items active)) = weeklyCycleMS"
proof -
  let ?s = "\<lambda>i. the (cm_weeklyStartedAtMS (active ! i))"
  obtain n where n: "length active = Suc n" using assms(2) by (cases active) auto
  have "map (\<lambda>item. the (cv_gapMS item)) (view_items active)
      = map (\<lambda>i. if i = 0 then ?s 0 - ?s n + weeklyCycleMS else ?s i - ?s (i - 1)) [0..<Suc n]"
    using gap_values [OF assms(1)] n by (simp add: view_items_def comp_def Let_def)
  also have "\<dots> = (?s 0 - ?s n + weeklyCycleMS) # map (\<lambda>i. ?s i - ?s (i - 1)) [1..<Suc n]"
    by (simp add: upt_conv_Cons del: upt_Suc)
  finally show ?thesis using telescope [of ?s n] by simp
qed

lemma gaps_nonneg:
  assumes "\<forall>m\<in>set (active_members db). cm_weeklyStartedAtMS m \<noteq> None"
    and "0 < i" and "i < length (active_members db)"
  shows "0 \<le> the (gap_ms (active_members db) i)"
proof -
  let ?a = "active_members db"
  have "sorted (map started_key ?a)"
    unfolding active_members_def by (rule started_order.sorted_keys)
  then have "started_key (?a ! (i - 1)) \<le> started_key (?a ! i)"
    using assms sorted_nth_mono [of "map started_key ?a" "i - 1" i] by simp
  moreover have "cm_weeklyStartedAtMS (?a ! (i - 1)) \<noteq> None" "cm_weeklyStartedAtMS (?a ! i) \<noteq> None"
    using assms by auto
  ultimately show ?thesis
    using gap_values [OF assms(1,3)] assms(2)
    by (auto simp: started_key_def coalesce_def less_eq_prod_def split: option.splits)
qed

text \<open>
  When every active account has a start, the gaps the cycle view reports between
  neighbours close to exactly one week, and only the first can be negative.
\<close>

theorem cycle_gaps_close_to_a_week:
  assumes "\<forall>m\<in>set (active_members db). cm_weeklyStartedAtMS m \<noteq> None" and "active_members db \<noteq> []"
  shows "sum_list (map (\<lambda>item. the (cv_gapMS item)) (view_items (active_members db))) = weeklyCycleMS
    \<and> (\<forall>i. 0 < i \<and> i < length (active_members db) \<longrightarrow> 0 \<le> the (cv_gapMS (view_items (active_members db) ! i)))"
  using gaps_close [OF assms] gaps_nonneg [OF assms(1)] by (simp add: view_items_def)

definition ex_cycle_db :: broker_db where
  "ex_cycle_db = ex_db\<lparr>t_window_pulse_state :=
     [''a'' \<mapsto> ex_pulse ''IN_CYCLE'' (Some 500), ''b'' \<mapsto> ex_pulse ''IN_CYCLE'' (Some 200)]\<rparr>"

theorem cycle_gaps_close_to_a_week_witness:
  "map cm_id (active_members ex_cycle_db) = [''b'', ''a'']
   \<and> sum_list (map (\<lambda>item. the (cv_gapMS item)) (view_items (active_members ex_cycle_db))) = weeklyCycleMS"
proof -
  have m: "active_members ex_cycle_db = [cycle_member ex_cycle_db (ex_account ''b''), cycle_member ex_cycle_db (ex_account ''a'')]"
    by (simp add: active_members_def loadCycleMembers_def by_creation_def is_cycle_member_def ex_cycle_db_def
        ex_db_def ex_account_def ex_state_def cycle_member_state_def cycle_member_def ex_pulse_def Let_def
        sort_slice_def started_before_def insort_key_def less_prod_def)
  then have "\<forall>m\<in>set (active_members ex_cycle_db). cm_weeklyStartedAtMS m \<noteq> None"
    by (simp add: cycle_member_def ex_cycle_db_def ex_pulse_def ex_account_def Let_def)
  moreover have "active_members ex_cycle_db \<noteq> []" by (simp only: m) simp
  ultimately have "sum_list (map (\<lambda>item. the (cv_gapMS item)) (view_items (active_members ex_cycle_db))) = weeklyCycleMS"
    by (rule cycle_gaps_close_to_a_week [THEN conjunct1])
  moreover have "map cm_id (active_members ex_cycle_db) = [''b'', ''a'']" by (simp only: m) (simp add: ex_account_def)
  ultimately show ?thesis by (intro conjI)
qed

end
