(* ===== verification/Router.thy ===== *)
theory Router
  imports Client_Keys Credentials_Correct Usage_Polls Cycle_Correct
begin

text \<open>
  internal/broker/router.go: choosing the account that serves a request. The candidates are
  the accounts of the key's scope with a usable credential; an account rejected for quota is
  blocked for every client, one that failed otherwise is excluded for the key. What the
  runtime answers when a credential has to be refreshed is an argument (one run for the
  forced refresh of a failed account, one for the lease of the selected account), as is the
  random choice among held accounts.
\<close>

record Account =
  ac_ID :: string
  ac_PublicID :: string
  ac_DisplayName :: string
  ac_Workspace :: string
  ac_AuthState :: string
  ac_WorkerState :: string
  ac_CycleState :: string
  ac_Enabled :: bool
  ac_CreatedAtMS :: int
  ac_Email :: "string option"
  ac_Plan :: "string option"
  ac_ShortUsed :: nullint
  ac_ShortReset :: nullint
  ac_WeeklyUsed :: nullint
  ac_WeeklyReset :: nullint
  ac_UsageReadAt :: nullint
  ac_ExcludedUntil :: nullint
  ac_QuotaBlockedUntil :: nullint
  ac_CycleStarted :: nullint
  ac_RelayReservedUntil :: nullint

record router_config =
  rc_WindowPulseEnabled :: bool
  rc_PaddingSeconds :: int

record router_env =
  re_red :: redactor
  re_lib :: cred_lib
  re_forced :: "runtime_run \<times> (go_error + unit)"
  re_lease :: "runtime_run \<times> (go_error + unit)"
  re_pick :: nat

subsection \<open>The candidates\<close>

definition prune_excluded :: "int \<Rightarrow> broker_db \<Rightarrow> broker_db" where
  "prune_excluded now db =
     db\<lparr>t_account_exclusions := delete_where (\<lambda>_ row. ex_expires_at_ms row \<le> now) (t_account_exclusions db)\<rparr>"

definition routable_account :: "broker_db \<Rightarrow> string \<Rightarrow> account_row \<Rightarrow> bool" where
  "routable_account db key a \<longleftrightarrow> is_cycle_member db a \<and> has_active_bundle db (ar_account_id a)
     \<and> account_scope db key (ar_account_id a)"

definition reserved_until :: "broker_db \<Rightarrow> int \<Rightarrow> string \<Rightarrow> nullint" where
  "reserved_until db now account =
     map_option rv_expires_at_ms
       (find (\<lambda>row. rv_account_id row = account \<and> now < rv_expires_at_ms row) (t_relay_reservations db))"

definition read_cycle_state :: "int \<Rightarrow> usage_row option \<Rightarrow> pulse_row option \<Rightarrow> string" where
  "read_cycle_state now u p =
     (case p of
        Some row \<Rightarrow> pw_cycle_state row
      | None \<Rightarrow>
          if sql_gt (Option.bind u uc_weekly_used_percent_raw) 0
             \<and> sql_gt (map_option (\<lambda>t. t * 1000) (Option.bind u uc_weekly_resets_at_s)) now
          then ''IN_CYCLE'' else ''HELD'')"

definition read_account :: "broker_db \<Rightarrow> string \<Rightarrow> int \<Rightarrow> account_row \<Rightarrow> state_row \<Rightarrow> Account" where
  "read_account db key now a s =
     (let i = ar_account_id a; u = t_usage_current db i; p = t_window_pulse_state db i in
      \<lparr>ac_ID = i, ac_PublicID = ar_public_token a, ac_DisplayName = ar_display_name a,
       ac_Workspace = (case ar_workspace_constraint a of None \<Rightarrow> [] | Some w \<Rightarrow> w),
       ac_AuthState = as_auth_state s, ac_WorkerState = as_worker_state s,
       ac_CycleState = read_cycle_state now u p, ac_Enabled = ar_enabled a, ac_CreatedAtMS = ar_created_at_ms a,
       ac_Email = as_upstream_email s, ac_Plan = as_upstream_plan s,
       ac_ShortUsed = Option.bind u uc_short_used_percent_raw, ac_ShortReset = Option.bind u uc_short_resets_at_s,
       ac_WeeklyUsed = Option.bind u uc_weekly_used_percent_raw, ac_WeeklyReset = Option.bind u uc_weekly_resets_at_s,
       ac_UsageReadAt = Option.bind u uc_complete_read_at_ms,
       ac_ExcludedUntil = map_option ex_expires_at_ms (t_account_exclusions db (key, i)),
       ac_QuotaBlockedUntil = map_option qb_retry_at_ms (t_account_quota_blocks db i),
       ac_CycleStarted = Option.bind p pw_weekly_started_at_ms,
       ac_RelayReservedUntil = reserved_until db now i\<rparr>)"

definition read_accounts :: "string \<Rightarrow> int \<Rightarrow> broker_db \<Rightarrow> Account list" where
  "read_accounts key now db =
     List.map_filter
       (\<lambda>a. if routable_account db key a
             then map_option (read_account db key now a) (t_account_state db (ar_account_id a)) else None)
       (by_creation (t_accounts db))"

definition accounts :: "string \<Rightarrow> int \<Rightarrow> broker_db \<Rightarrow> Account list \<times> broker_db" where
  "accounts key now db = (let db = prune_excluded now db in (read_accounts key now db, db))"

subsection \<open>Quota\<close>

definition spent :: "nullint \<Rightarrow> bool" where
  "spent used \<longleftrightarrow> (case used of None \<Rightarrow> False | Some p \<Rightarrow> 100 \<le> p)"

definition quotaBlocked :: "Account \<Rightarrow> bool" where
  "quotaBlocked a \<longleftrightarrow> ac_QuotaBlockedUntil a \<noteq> None"

definition exhausted :: "Account \<Rightarrow> bool" where
  "exhausted a \<longleftrightarrow> quotaBlocked a \<or> spent (ac_ShortUsed a) \<or> spent (ac_WeeklyUsed a)"

definition block_retry :: "Account \<Rightarrow> int \<Rightarrow> int" where
  "block_retry a now =
     fold (\<lambda>reset retry. case reset of
             None \<Rightarrow> retry
           | Some t \<Rightarrow> if go_div now 1000 < t \<and> w64 (t * 1000) < retry then w64 (t * 1000) else retry)
       [ac_ShortReset a, ac_WeeklyReset a] MaxInt64"

definition merge_block :: "int \<Rightarrow> int \<Rightarrow> quota_block_row option \<Rightarrow> quota_block_row" where
  "merge_block now retry old =
     (let new = \<lparr>qb_blocked_at_ms = now, qb_retry_at_ms = retry\<rparr> in
      case old of None \<Rightarrow> new | Some row \<Rightarrow> if qb_blocked_at_ms row \<le> now then new else row)"

definition block_quota_db :: "Account \<Rightarrow> int \<Rightarrow> broker_db \<Rightarrow> broker_db" where
  "block_quota_db a now db =
     requestUsageRefresh (ac_ID a) ''QUOTA_REJECTED'' (now + usageResetGrace)
       (db\<lparr>t_account_quota_blocks := (t_account_quota_blocks db)
            (ac_ID a \<mapsto> merge_block now (block_retry a now) (t_account_quota_blocks db (ac_ID a)))\<rparr>)"

definition blockQuota :: "Account \<Rightarrow> int \<Rightarrow> broker \<Rightarrow> broker" where
  "blockQuota a now b =
     publish ''account.updated'' [(''resource_id'', AStr (ac_PublicID a)), (''state'', AStr ''QUOTA_BLOCKED'')]
       (on_db (block_quota_db a now) b)"

subsection \<open>Ranking\<close>

definition futureReset :: "nullint \<Rightarrow> int \<Rightarrow> int" where
  "futureReset reset now = (case reset of Some t \<Rightarrow> if now < w64 (t * 1000) then t else MaxInt64 | None \<Rightarrow> MaxInt64)"

definition rankLess :: "string \<Rightarrow> int \<Rightarrow> Account \<Rightarrow> Account \<Rightarrow> bool" where
  "rankLess preferred now a b =
     (let aw = futureReset (ac_WeeklyReset a) now; bw = futureReset (ac_WeeklyReset b) now in
      if aw \<noteq> bw then aw < bw
      else let as = futureReset (ac_ShortReset a) now; bs = futureReset (ac_ShortReset b) now in
      if as \<noteq> bs then as < bs
      else let ap = ac_PublicID a \<noteq> preferred; bp = ac_PublicID b \<noteq> preferred in
      if ap \<noteq> bp then \<not> ap
      else if ac_CreatedAtMS a \<noteq> ac_CreatedAtMS b then ac_CreatedAtMS a < ac_CreatedAtMS b
      else ac_ID a < ac_ID b)"

subsection \<open>Leases\<close>

definition resetPointer :: "nullint \<Rightarrow> int \<Rightarrow> nullint" where
  "resetPointer reset now =
     (case reset of None \<Rightarrow> None | Some t \<Rightarrow> if w64 (t * 1000) \<le> now then None else Some (w64 (t * 1000)))"

definition remainingPointer :: "nullint \<Rightarrow> nullint" where
  "remainingPointer used =
     (case used of None \<Rightarrow> None
      | Some p \<Rightarrow> let r = w64 (100 - p) in Some (if r < 0 then 0 else if 100 < r then 100 else r))"

definition routeLease :: "Account \<Rightarrow> cred_lease \<Rightarrow> int \<Rightarrow> Lease" where
  "routeLease a lease now =
     \<lparr>AccountID = ac_PublicID a, AccountLabel = ac_DisplayName a, AccessToken = ce_AccessToken lease,
      ChatGPTAccountID = ce_ChatGPTAccountID lease, ExpiresAtMS = ce_ExpiresAtMS lease,
      UsageSnapshotAtMS = coalesce (ac_UsageReadAt a) 0,
      ShortRemainingPercent = remainingPointer (ac_ShortUsed a),
      WeeklyRemainingPercent = remainingPointer (ac_WeeklyUsed a),
      ShortResetsAtMS = resetPointer (ac_ShortReset a) now, WeeklyResetsAtMS = resetPointer (ac_WeeklyReset a) now,
      Reserve = False, PermitEpoch = [], PermitExpiresAtMS = 0\<rparr>"

subsection \<open>Waits\<close>

definition spent_until :: "nullint \<Rightarrow> nullint \<Rightarrow> int \<Rightarrow> int list" where
  "spent_until used reset now =
     (case reset of None \<Rightarrow> []
      | Some t \<Rightarrow> if spent used \<and> now < w64 (t * 1000) then [w64 (t * 1000)] else [])"

definition accountReset :: "Account \<Rightarrow> int \<Rightarrow> int" where
  "accountReset a now =
     fold (\<lambda>v result. if result < v then v else result)
       (spent_until (ac_ShortUsed a) (ac_ShortReset a) now @ spent_until (ac_WeeklyUsed a) (ac_WeeklyReset a) now) 0"

definition nextRetry :: "Account list \<Rightarrow> int \<Rightarrow> int" where
  "nextRetry candidates now =
     (let result = fold (\<lambda>c result. if now < c \<and> c < result then c else result)
            (concat (map (\<lambda>a. [accountReset a now, coalesce (ac_ExcludedUntil a) 0, coalesce (ac_QuotaBlockedUntil a) 0]) candidates))
            MaxInt64
      in if result = MaxInt64 then 0 else result)"

definition polls_for_capacity :: "int \<Rightarrow> Account \<Rightarrow> bool" where
  "polls_for_capacity now a \<longleftrightarrow>
     quotaBlocked a
     \<or> exhausted a \<and> accountReset a now = 0 \<and> (ac_ShortReset a \<noteq> None \<or> ac_WeeklyReset a \<noteq> None)"

definition poll_retry :: "Account list \<Rightarrow> int \<Rightarrow> int \<Rightarrow> int" where
  "poll_retry candidates now retry =
     fold (\<lambda>a retry. if polls_for_capacity now a \<and> (retry = 0 \<or> now + usageResetGrace < retry)
                      then now + usageResetGrace else retry) candidates retry"

definition pool_wait :: "router_config \<Rightarrow> Account list \<Rightarrow> int \<Rightarrow> route_answer" where
  "pool_wait cfg candidates now =
     (let retry = poll_retry candidates now (nextRetry candidates now) in
      if retry = 0 then Inl (NewError ''POOL_RESET_UNKNOWN'' ''No routable account has a reliable retry time'' 503)
      else let retry = w64 (retry + rc_PaddingSeconds cfg * 1000)
           in Inr (None, Some \<lparr>NextRetryAtMS = retry, RetryAfterSeconds = ceil_seconds (w64 (retry - now))\<rparr>))"

subsection \<open>Recording\<close>

text \<open>The table admits three kinds of failure, and keys that exist.\<close>

definition exclusion_expiry :: "Account \<Rightarrow> string \<Rightarrow> int \<Rightarrow> int" where
  "exclusion_expiry a failure now =
     (let reset = accountReset a now in
      if reset = 0 then (if failure = ''rate_limit'' then now + 60000 else now + 300000) else reset)"

definition exclude :: "string \<Rightarrow> Account \<Rightarrow> string \<Rightarrow> int \<Rightarrow> broker_db \<Rightarrow> go_error + unit \<times> broker_db" where
  "exclude key a failure now db =
     (if failure \<notin> {''auth'', ''quota'', ''rate_limit''} \<or> key \<notin> ck_key_id ` set (t_client_api_keys db)
      then Inl constraint_failed
      else Inr ((), db\<lparr>t_account_exclusions := (t_account_exclusions db)
             ((key, ac_ID a) \<mapsto> \<lparr>ex_failure_kind = failure, ex_expires_at_ms = exclusion_expiry a failure now,
                                 ex_created_at_ms = now\<rparr>)\<rparr>))"

definition markAuth :: "string \<Rightarrow> broker_db \<Rightarrow> broker_db" where
  "markAuth account =
     on_state (\<lambda>s. bump_version (s\<lparr>as_auth_state := ''AUTH_REQUIRED'', as_overall_state := ''ACTION_REQUIRED'',
        as_last_error_code := Some ''CODEX_AUTH_REQUIRED'',
        as_last_error_summary := Some ''Client request authentication failed''\<rparr>)) account"

definition markLeaseAuthFailure :: "string \<Rightarrow> go_error \<Rightarrow> broker_db \<Rightarrow> broker_db" where
  "markLeaseAuthFailure account failure db =
     (case failure of
        CoreError code _ _ \<Rightarrow> if code = ''CODEX_AUTH_REQUIRED'' then markAuth account db else db
      | _ \<Rightarrow> db)"

definition release_held :: "string \<Rightarrow> int \<Rightarrow> broker_db \<Rightarrow> broker_db" where
  "release_held account now db =
     (case t_window_pulse_state db account of
        Some p \<Rightarrow>
          if pw_cycle_state p = ''HELD''
          then (let db = db\<lparr>t_window_pulse_state := (t_window_pulse_state db)(account \<mapsto>
                    p\<lparr>pw_cycle_state := ''IN_CYCLE'', pw_weekly_started_at_ms := Some now,
                      pw_next_pulse_at_ms := Some (now + weeklyCycleMS), pw_last_error_code := None,
                      pw_idle_observation_count := 0,
                      pw_last_usage_observed_at_ms := Option.bind (t_usage_current db account) uc_complete_read_at_ms\<rparr>)\<rparr>;
                    db = requestUsageRefresh account ''ROTATION'' (now + usageResetGrace) db
                in db\<lparr>t_weekly_cycle_state := (t_weekly_cycle_state db)\<lparr>cy_cadence_anchor_at_ms := Some now,
                        cy_state_version := cy_state_version (t_weekly_cycle_state db) + 1\<rparr>\<rparr>)
          else db
      | None \<Rightarrow> db)"

definition markRouted :: "router_config \<Rightarrow> string \<Rightarrow> int \<Rightarrow> broker_db \<Rightarrow> broker_db" where
  "markRouted cfg account now db =
     on_state (\<lambda>s. bump_version (s\<lparr>as_last_routed_at_ms := Some now\<rparr>)) account
       (if rc_WindowPulseEnabled cfg then release_held account now db else db)"

subsection \<open>Routing\<close>

definition excluded :: "int \<Rightarrow> Account \<Rightarrow> bool" where
  "excluded now a \<longleftrightarrow> sql_gt (ac_ExcludedUntil a) now"

definition open_to_route :: "int \<Rightarrow> Account \<Rightarrow> bool" where
  "open_to_route now a \<longleftrightarrow> \<not> (exhausted a \<or> excluded now a)"

definition usable_now :: "router_config \<Rightarrow> int \<Rightarrow> Account \<Rightarrow> bool" where
  "usable_now cfg now a \<longleftrightarrow> open_to_route now a
     \<and> \<not> (rc_WindowPulseEnabled cfg \<and> (ac_CycleState a = ''HELD'' \<or> ac_CycleState a = ''RELEASING''))"

definition held_account :: "router_config \<Rightarrow> int \<Rightarrow> Account \<Rightarrow> bool" where
  "held_account cfg now a \<longleftrightarrow> open_to_route now a \<and> rc_WindowPulseEnabled cfg \<and> ac_CycleState a = ''HELD''
     \<and> \<not> sql_gt (ac_RelayReservedUntil a) now"

definition releasing_account :: "router_config \<Rightarrow> int \<Rightarrow> Account \<Rightarrow> bool" where
  "releasing_account cfg now a \<longleftrightarrow> open_to_route now a \<and> rc_WindowPulseEnabled cfg \<and> ac_CycleState a = ''RELEASING''"

definition pick_usable :: "router_config \<Rightarrow> nat \<Rightarrow> int \<Rightarrow> Account list \<Rightarrow> Account list" where
  "pick_usable cfg pick now candidates =
     (let usable = filter (usable_now cfg now) candidates; held = filter (held_account cfg now) candidates in
      if usable = [] \<and> held \<noteq> [] then [held ! (pick mod length held)] else usable)"

definition grant :: "router_config \<Rightarrow> Account \<Rightarrow> int \<Rightarrow> (go_error + cred_lease) \<times> broker \<Rightarrow> route_answer \<times> broker" where
  "grant cfg a now outcome =
     (case outcome of
        (Inl e, b) \<Rightarrow> (Inl e, b)
      | (Inr lease, b) \<Rightarrow> (Inr (Some (routeLease a lease now), None), on_db (markRouted cfg (ac_ID a) now) b))"

definition choose_account :: "router_config \<Rightarrow> router_env \<Rightarrow> string \<Rightarrow> int \<Rightarrow> Account list \<Rightarrow> broker \<Rightarrow> route_answer \<times> broker" where
  "choose_account cfg env preferred now candidates b =
     (let usable = pick_usable cfg (re_pick env) now candidates in
      if usable \<noteq> []
      then (let selected = hd (sort_slice (rankLess preferred now) usable) in
            grant cfg selected now
              (service_Lease (re_red env) (re_lib env) (fst (re_lease env)) (snd (re_lease env)) (ac_ID selected) now False b))
      else if list_ex (releasing_account cfg now) candidates
      then (Inr (None, Some \<lparr>NextRetryAtMS = now + 10000, RetryAfterSeconds = 10\<rparr>), b)
      else (pool_wait cfg candidates now, b))"

definition may_retry_auth :: "router_config \<Rightarrow> Account \<Rightarrow> bool" where
  "may_retry_auth cfg a \<longleftrightarrow>
     \<not> quotaBlocked a \<and> (\<not> rc_WindowPulseEnabled cfg \<or> ac_CycleState a = ''IN_CYCLE'')"

definition record_failed :: "string \<Rightarrow> Account \<Rightarrow> string \<Rightarrow> int \<Rightarrow> broker \<Rightarrow> (go_error + unit) \<times> broker" where
  "record_failed key a kind now b = (if kind = ''quota'' then (Inr (), b) else Write_b (exclude key a kind now) b)"

definition choose_again :: "router_config \<Rightarrow> router_env \<Rightarrow> string \<Rightarrow> RouteRequest \<Rightarrow> Account \<Rightarrow> int \<Rightarrow> broker
    \<Rightarrow> route_answer \<times> broker" where
  "choose_again cfg env key request a now b =
     (case record_failed key a (FailureKind request) now b of
        (Inl e, b) \<Rightarrow> (Inl e, b)
      | (Inr _, b) \<Rightarrow>
          (case accounts key now (br_db b) of
             (candidates, db) \<Rightarrow>
               choose_account cfg env (PreferredAccountID request) now candidates (b\<lparr>br_db := db\<rparr>)))"

definition route_failed :: "router_config \<Rightarrow> router_env \<Rightarrow> int \<Rightarrow> string \<Rightarrow> RouteRequest \<Rightarrow> Account \<Rightarrow> broker
    \<Rightarrow> route_answer \<times> broker" where
  "route_failed cfg env now key request a b =
     (let b = (if FailureKind request = ''quota'' then blockQuota a now b else b) in
      if FailureKind request = ''auth'' \<and> may_retry_auth cfg a
      then (case service_Lease (re_red env) (re_lib env) (fst (re_forced env)) (snd (re_forced env)) (ac_ID a) now True b of
              (Inr lease, b) \<Rightarrow> grant cfg a now (Inr lease, b)
            | (Inl e, b) \<Rightarrow> choose_again cfg env key request a now (on_db (markLeaseAuthFailure (ac_ID a) e) b))
      else choose_again cfg env key request a now b)"

definition Route :: "router_config \<Rightarrow> router_env \<Rightarrow> int \<Rightarrow> string \<Rightarrow> RouteRequest \<Rightarrow> broker \<Rightarrow> route_answer \<times> broker" where
  "Route cfg env now key request b =
     (let b = on_db (reconcileCycle (rc_WindowPulseEnabled cfg) now) b;
          (candidates, db) = accounts key now (br_db b);
          b = b\<lparr>br_db := db\<rparr>;
          failed = fold (\<lambda>a found. if ac_PublicID a = FailedAccountID request then Some a else found) candidates None
      in case failed of
           Some a \<Rightarrow>
             if FailureKind request \<noteq> [] then route_failed cfg env now key request a b
             else choose_account cfg env (PreferredAccountID request) now candidates b
         | None \<Rightarrow>
             if FailedAccountID request \<noteq> []
             then (Inl (NewError ''FAILED_ACCOUNT_INVALID'' ''Failed account is not routable'' 422), b)
             else choose_account cfg env (PreferredAccountID request) now candidates b)"

end
