(* ===== verification/Router_Correct.thy ===== *)
theory Router_Correct
  imports Router
begin

text \<open>
  What the router guarantees: the lease it grants belongs to an account of the key's scope
  that is enabled, verified, not blocked and not excluded, and ranks first among the usable
  ones; a quota rejection takes the account from every client; a wait lies in the future.
\<close>

subsection \<open>The ranking\<close>

definition rank_key :: "string \<Rightarrow> int \<Rightarrow> Account \<Rightarrow> int \<times> int \<times> bool \<times> int \<times> string" where
  "rank_key preferred now a =
     (futureReset (ac_WeeklyReset a) now, futureReset (ac_ShortReset a) now,
      ac_PublicID a \<noteq> preferred, ac_CreatedAtMS a, ac_ID a)"

interpretation account_rank: keyed_ranking "rankLess preferred now" "rank_key preferred now" for preferred now
  by unfold_locales (auto simp: rankLess_def rank_key_def Let_def less_prod_def)

subsection \<open>Frames\<close>

text \<open>
  Apart from the state and the bundles of one account, routing leaves alone what makes an
  account routable, and it never lifts a quota block.
\<close>

definition route_frame :: "string \<Rightarrow> broker_db \<Rightarrow> broker_db \<Rightarrow> bool" where
  "route_frame account db db' \<longleftrightarrow>
     t_accounts db' = t_accounts db \<and> t_client_key_labels db' = t_client_key_labels db
     \<and> t_account_labels db' = t_account_labels db
     \<and> (\<forall>k. k \<noteq> account \<longrightarrow> t_account_state db' k = t_account_state db k \<and> has_active_bundle db' k = has_active_bundle db k)
     \<and> (\<forall>k. t_account_quota_blocks db k \<noteq> None \<longrightarrow> t_account_quota_blocks db' k \<noteq> None)"

lemma route_frame_refl [simp]: "route_frame account db db"
  by (simp add: route_frame_def)

lemma route_frame_trans: "route_frame account a b \<Longrightarrow> route_frame account b c \<Longrightarrow> route_frame account a c"
  by (simp add: route_frame_def)

lemma route_frame_cred: "cred_frame account db db' \<Longrightarrow> route_frame account db db'"
  using cred_frame_fields [of account db db'] has_active_bundle_other [of account db db']
  by (simp add: route_frame_def)

lemma route_frame_on_state [simp]: "route_frame account db (on_state f account db)"
  by (rule route_frame_cred) simp

lemma has_active_bundle_cong:
  "t_credential_bundles db' = t_credential_bundles db \<Longrightarrow> has_active_bundle db' = has_active_bundle db"
  by (simp add: fun_eq_iff has_active_bundle_def)

lemma route_frame_prune [simp]: "route_frame account db (prune_excluded now db)"
  by (simp add: route_frame_def prune_excluded_def has_active_bundle_def)

lemma route_frame_block [simp]: "route_frame account db (block_quota_db a now db)"
  by (simp add: route_frame_def block_quota_db_def requestUsageRefresh_def has_active_bundle_def)

lemma route_frame_reconcile [simp]: "route_frame account db (reconcileCycle enabled now db)"
  by (simp add: route_frame_def has_active_bundle_def)

lemma route_frame_exclude: "exclude key a kind now db = Inr (u, db') \<Longrightarrow> route_frame account db db'"
  by (auto simp: exclude_def route_frame_def has_active_bundle_def split: if_splits)

lemma route_frame_markLease [simp]: "route_frame account db (markLeaseAuthFailure account e db)"
  by (simp add: markLeaseAuthFailure_def markAuth_def split: go_error.split)

text \<open>An account that is routable afterwards was routable before, if the one that may have changed was.\<close>

lemma routable_before:
  assumes "route_frame account db db'" and "routable_account db' key a"
    and "routable_account db key a0" and "ar_account_id a0 = account"
  shows "routable_account db key a"
proof (cases "ar_account_id a = account")
  case True
  then show ?thesis using assms by (simp add: routable_account_def is_cycle_member_def)
next
  case False
  then have "t_account_state db' (ar_account_id a) = t_account_state db (ar_account_id a)"
    "has_active_bundle db' (ar_account_id a) = has_active_bundle db (ar_account_id a)"
    "account_scope db' key (ar_account_id a) = account_scope db key (ar_account_id a)"
    using assms(1) by (auto simp: route_frame_def account_scope_def key_rule_covers_def)
  then show ?thesis using assms(2) by (simp add: routable_account_def is_cycle_member_def)
qed

subsection \<open>The candidates\<close>

lemma accounts_eq: "accounts key now db = (read_accounts key now (prune_excluded now db), prune_excluded now db)"
  by (simp add: accounts_def Let_def)

lemma read_accounts_mem:
  assumes "x \<in> set (read_accounts key now db)"
  obtains a s where "a \<in> set (t_accounts db)" "routable_account db key a"
    "t_account_state db (ar_account_id a) = Some s" "x = read_account db key now a s"
  using assms by (auto simp: read_accounts_def map_filter_def split: if_splits)

lemma read_account_simps [simp]:
  "ac_ID (read_account db key now a s) = ar_account_id a"
  "ac_PublicID (read_account db key now a s) = ar_public_token a"
  "ac_QuotaBlockedUntil (read_account db key now a s) = map_option qb_retry_at_ms (t_account_quota_blocks db (ar_account_id a))"
  "ac_ExcludedUntil (read_account db key now a s) = map_option ex_expires_at_ms (t_account_exclusions db (key, ar_account_id a))"
  by (simp_all add: read_account_def Let_def)

lemma routeLease_simps [simp]:
  "AccountID (routeLease a lease now) = ac_PublicID a"
  "ExpiresAtMS (routeLease a lease now) = ce_ExpiresAtMS lease"
  "AccessToken (routeLease a lease now) = ce_AccessToken lease"
  "Reserve (routeLease a lease now) = False"
  by (simp_all add: routeLease_def)

subsection \<open>Choosing\<close>

text \<open>A held account is started only when nothing is usable.\<close>

definition picked :: "router_config \<Rightarrow> int \<Rightarrow> Account list \<Rightarrow> Account \<Rightarrow> bool" where
  "picked cfg now candidates x \<longleftrightarrow>
     (if list_ex (usable_now cfg now) candidates then usable_now cfg now x else held_account cfg now x)"

lemma set_pick_usable: "x \<in> set (pick_usable cfg pick now candidates) \<Longrightarrow>
   x \<in> set candidates \<and> open_to_route now x \<and> picked cfg now candidates x"
proof -
  assume x: "x \<in> set (pick_usable cfg pick now candidates)"
  let ?held = "filter (held_account cfg now) candidates"
  have nth: "?held ! (pick mod length ?held) \<in> set ?held" if "?held \<noteq> []"
    using that by (intro nth_mem mod_less_divisor) simp
  show ?thesis
  proof (cases "filter (usable_now cfg now) candidates = []")
    case True
    then have "\<not> list_ex (usable_now cfg now) candidates" by (auto simp: filter_empty_conv list_ex_iff)
    moreover have "x \<in> set ?held" using x True nth by (auto simp: pick_usable_def Let_def split: if_splits)
    ultimately show ?thesis by (auto simp: picked_def held_account_def)
  next
    case False
    then have "list_ex (usable_now cfg now) candidates" by (auto simp: filter_empty_conv list_ex_iff)
    moreover have "x \<in> set (filter (usable_now cfg now) candidates)"
      using x False by (simp add: pick_usable_def Let_def)
    ultimately show ?thesis by (auto simp: picked_def usable_now_def)
  qed
qed

lemma pool_wait_no_lease: "pool_wait cfg candidates now \<noteq> Inr (Some lease, w)"
  by (simp add: pool_wait_def Let_def)

lemma grant_lease:
  "grant cfg x now outcome = (Inr (Some lease, w), b') \<longleftrightarrow>
   (\<exists>cl b1. outcome = (Inr cl, b1) \<and> lease = routeLease x cl now \<and> w = None
      \<and> b' = on_db (markRouted cfg (ac_ID x) now) b1)"
  by (auto simp: grant_def split: prod.splits sum.splits)

text \<open>The account a granted lease belongs to, and the state it was granted in.\<close>

definition granted_to :: "router_config \<Rightarrow> cred_lib \<Rightarrow> int \<Rightarrow> Account \<Rightarrow> Lease \<Rightarrow> broker \<Rightarrow> bool" where
  "granted_to cfg lib now x lease b' \<longleftrightarrow>
     (\<exists>cl b1. lease = routeLease x cl now \<and> lease_grounded lib now (ac_ID x) cl (br_db b1)
        \<and> b' = on_db (markRouted cfg (ac_ID x) now) b1)"

lemma granted_toI:
  "service_Lease red lib run answer (ac_ID x) now force b = (Inr cl, b1) \<Longrightarrow>
   granted_to cfg lib now x (routeLease x cl now) (on_db (markRouted cfg (ac_ID x) now) b1)"
  unfolding granted_to_def by (blast intro: service_Lease_grounded)

lemma choose_account_lease:
  assumes "choose_account cfg env preferred now candidates b = (Inr (Some lease, w), b')"
  obtains x where "x \<in> set candidates" "open_to_route now x" "picked cfg now candidates x"
    "granted_to cfg (re_lib env) now x lease b'"
    "\<And>y. y \<in> set candidates \<Longrightarrow> usable_now cfg now y \<Longrightarrow> rank_key preferred now x \<le> rank_key preferred now y"
proof -
  let ?usable = "pick_usable cfg (re_pick env) now candidates"
  have ne: "?usable \<noteq> []"
    using assms pool_wait_no_lease by (auto simp: choose_account_def Let_def split: if_splits)
  let ?x = "hd (sort_slice (rankLess preferred now) ?usable)"
  have "?x \<in> set ?usable" using ne by (rule hd_sort_slice_in)
  note x = set_pick_usable [OF this]
  have g: "granted_to cfg (re_lib env) now ?x lease b'"
    using assms ne by (auto simp: choose_account_def Let_def grant_lease intro: granted_toI)
  show thesis
  proof (rule that [of ?x])
    fix y
    assume y: "y \<in> set candidates" "usable_now cfg now y"
    then have "filter (usable_now cfg now) candidates \<noteq> []" by (auto simp: filter_empty_conv)
    then have "y \<in> set ?usable" using y by (simp add: pick_usable_def Let_def)
    then show "rank_key preferred now ?x \<le> rank_key preferred now y" by (rule account_rank.hd_key_le)
  qed (use x g in auto)
qed

subsection \<open>Routing\<close>

definition first_read :: "router_config \<Rightarrow> int \<Rightarrow> broker \<Rightarrow> broker_db" where
  "first_read cfg now b = prune_excluded now (reconcileCycle (rc_WindowPulseEnabled cfg) now (br_db b))"

lemma route_frame_first [simp]: "route_frame account (br_db b) (first_read cfg now b)"
  unfolding first_read_def by (rule route_frame_trans [OF route_frame_reconcile route_frame_prune])

text \<open>Reconciling and pruning change nothing that makes an account routable.\<close>

lemma routable_first [simp]: "routable_account (first_read cfg now b) key a = routable_account (br_db b) key a"
  by (simp add: first_read_def prune_excluded_def routable_account_def is_cycle_member_def has_active_bundle_def
      account_scope_def key_rule_covers_def)

lemma blocks_first [simp]: "t_account_quota_blocks (first_read cfg now b) = t_account_quota_blocks (br_db b)"
  by (simp add: first_read_def prune_excluded_def)

lemma accounts_first [simp]: "t_accounts (first_read cfg now b) = t_accounts (br_db b)"
  by (simp add: first_read_def prune_excluded_def)

definition failed_candidate :: "string \<Rightarrow> Account list \<Rightarrow> Account option" where
  "failed_candidate public candidates =
     fold (\<lambda>a found. if ac_PublicID a = public then Some a else found) candidates None"

lemma fold_last_match:
  "fold (\<lambda>a found. if P a then Some a else found) xs d = Some x \<Longrightarrow> x \<in> set xs \<and> P x \<or> d = Some x"
  by (induction xs arbitrary: d) (auto split: if_splits)

lemma fold_last_match_None:
  "fold (\<lambda>a found. if P a then Some a else found) xs d = None \<longleftrightarrow> d = None \<and> (\<forall>x\<in>set xs. \<not> P x)"
  by (induction xs arbitrary: d) auto

lemma failed_candidate_Some:
  "failed_candidate public xs = Some x \<Longrightarrow> x \<in> set xs \<and> ac_PublicID x = public"
  unfolding failed_candidate_def by (drule fold_last_match) simp

lemma failed_candidate_None: "failed_candidate public xs = None \<longleftrightarrow> (\<forall>x\<in>set xs. ac_PublicID x \<noteq> public)"
  by (simp add: failed_candidate_def fold_last_match_None)

lemma Route_unfold:
  "Route cfg env now key request b =
     (let db = first_read cfg now b; candidates = read_accounts key now db; b = b\<lparr>br_db := db\<rparr> in
      case failed_candidate (FailedAccountID request) candidates of
        Some a \<Rightarrow>
          if FailureKind request \<noteq> [] then route_failed cfg env now key request a b
          else choose_account cfg env (PreferredAccountID request) now candidates b
      | None \<Rightarrow>
          if FailedAccountID request \<noteq> []
          then (Inl (NewError ''FAILED_ACCOUNT_INVALID'' ''Failed account is not routable'' 422), b)
          else choose_account cfg env (PreferredAccountID request) now candidates b)"
  by (simp add: Route_def accounts_eq first_read_def failed_candidate_def on_db_def Let_def cong: option.case_cong if_cong)

lemma br_db_blockQuota [simp]: "br_db (blockQuota a now b) = block_quota_db a now (br_db b)"
  by (simp add: blockQuota_def)

lemma blocked_by_quota: "t_account_quota_blocks (block_quota_db a now db) (ac_ID a) \<noteq> None"
  by (simp add: block_quota_db_def requestUsageRefresh_def)

lemma record_failed_frame: "record_failed key a kind now b = (Inr u, b') \<Longrightarrow> route_frame account (br_db b) (br_db b')"
  by (auto simp: record_failed_def Write_b_def Write_def split: if_splits sum.splits prod.splits intro: route_frame_exclude)

lemma open_not_blocked:
  "open_to_route now (read_account db key now a s) \<Longrightarrow> t_account_quota_blocks db (ar_account_id a) = None"
  by (simp add: open_to_route_def exhausted_def quotaBlocked_def)

text \<open>
  A lease is granted either on the first read, or to the failed account after its credential
  was refreshed, or on the read that follows the recording of the failure.
\<close>

definition chosen :: "router_config \<Rightarrow> router_env \<Rightarrow> string \<Rightarrow> int \<Rightarrow> string \<Rightarrow> Lease \<Rightarrow> broker_db \<Rightarrow> broker \<Rightarrow> bool" where
  "chosen cfg env key now preferred lease db b' \<longleftrightarrow>
     (\<exists>x. x \<in> set (read_accounts key now db) \<and> open_to_route now x
        \<and> picked cfg now (read_accounts key now db) x \<and> granted_to cfg (re_lib env) now x lease b'
        \<and> (\<forall>y\<in>set (read_accounts key now db). usable_now cfg now y \<longrightarrow> rank_key preferred now x \<le> rank_key preferred now y))"

lemma choose_account_chosen:
  "choose_account cfg env preferred now (read_accounts key now db) b = (Inr (Some lease, w), b') \<Longrightarrow>
   chosen cfg env key now preferred lease db b'"
  unfolding chosen_def by (erule choose_account_lease) blast

lemma choose_again_lease:
  assumes "choose_again cfg env key request a now b = (Inr (Some lease, w), b')"
  obtains db where "route_frame (ac_ID a) (br_db b) db" "chosen cfg env key now (PreferredAccountID request) lease db b'"
proof -
  obtain r b1 where rf: "record_failed key a (FailureKind request) now b = (r, b1)"
    by (cases "record_failed key a (FailureKind request) now b") auto
  then obtain u where r: "r = Inr u" using assms by (cases r) (auto simp: choose_again_def)
  let ?db = "prune_excluded now (br_db b1)"
  have "choose_account cfg env (PreferredAccountID request) now (read_accounts key now ?db) (b1\<lparr>br_db := ?db\<rparr>)
      = (Inr (Some lease, w), b')"
    using assms rf r by (simp add: choose_again_def accounts_eq)
  then have "chosen cfg env key now (PreferredAccountID request) lease ?db b'"
    by (rule choose_account_chosen)
  moreover have "route_frame (ac_ID a) (br_db b) ?db"
    by (rule route_frame_trans [OF record_failed_frame [OF rf [unfolded r]] route_frame_prune])
  ultimately show thesis using that by blast
qed

lemma route_failed_lease:
  assumes "route_failed cfg env now key request a b = (Inr (Some lease, w), b')"
  shows "\<not> quotaBlocked a \<and> FailureKind request = ''auth'' \<and> granted_to cfg (re_lib env) now a lease b'
    \<or> (\<exists>db. route_frame (ac_ID a) (br_db b) db \<and> chosen cfg env key now (PreferredAccountID request) lease db b'
         \<and> (FailureKind request = ''quota'' \<longrightarrow> t_account_quota_blocks db (ac_ID a) \<noteq> None))"
proof (cases "FailureKind request = ''auth'' \<and> may_retry_auth cfg a")
  case True
  then have kind: "FailureKind request = ''auth''" and retry: "may_retry_auth cfg a" by auto
  obtain r b1 where l: "service_Lease (re_red env) (re_lib env) (fst (re_forced env)) (snd (re_forced env)) (ac_ID a) now True b = (r, b1)"
    by (cases "service_Lease (re_red env) (re_lib env) (fst (re_forced env)) (snd (re_forced env)) (ac_ID a) now True b") auto
  have frame: "route_frame (ac_ID a) (br_db b) (br_db b1)"
    using service_Lease_frame [of "ac_ID a" b "re_red env" "re_lib env" "fst (re_forced env)" "snd (re_forced env)" now True] l
    by (simp add: route_frame_cred)
  show ?thesis
  proof (cases r)
    case (Inr cl)
    then have "granted_to cfg (re_lib env) now a lease b'"
      using assms kind retry l by (auto simp: route_failed_def grant_lease intro: granted_toI)
    then show ?thesis using kind retry by (simp add: may_retry_auth_def)
  next
    case (Inl e)
    then have "choose_again cfg env key request a now (on_db (markLeaseAuthFailure (ac_ID a) e) b1) = (Inr (Some lease, w), b')"
      using assms kind retry l by (simp add: route_failed_def)
    then show ?thesis
      using frame kind by (elim choose_again_lease) (auto intro: route_frame_trans [OF route_frame_trans [OF _ route_frame_markLease]])
  qed
next
  case False
  let ?b = "if FailureKind request = ''quota'' then blockQuota a now b else b"
  have "choose_again cfg env key request a now ?b = (Inr (Some lease, w), b')"
    using assms False by (auto simp: route_failed_def Let_def)
  then obtain db where db: "route_frame (ac_ID a) (br_db ?b) db"
    "chosen cfg env key now (PreferredAccountID request) lease db b'"
    by (rule choose_again_lease)
  have "route_frame (ac_ID a) (br_db b) db"
    using db(1) by (cases "FailureKind request = ''quota''") (auto intro: route_frame_trans [OF route_frame_block])
  moreover have "t_account_quota_blocks db (ac_ID a) \<noteq> None" if "FailureKind request = ''quota''"
  proof -
    have "route_frame (ac_ID a) (block_quota_db a now (br_db b)) db" using db(1) that by simp
    then show ?thesis using blocked_by_quota [of a now "br_db b"] unfolding route_frame_def by blast
  qed
  ultimately show ?thesis using db(2) by blast
qed

text \<open>What a lease granted to a key is worth: the account behind it, read from the database.\<close>

definition grant_justified :: "broker_db \<Rightarrow> string \<Rightarrow> int \<Rightarrow> Lease \<Rightarrow> bool" where
  "grant_justified db key now lease \<longleftrightarrow>
     now < ExpiresAtMS lease \<and> AccessToken lease \<noteq> [] \<and> \<not> Reserve lease
     \<and> (\<exists>a\<in>set (t_accounts db). ar_public_token a = AccountID lease \<and> routable_account db key a
          \<and> t_account_quota_blocks db (ar_account_id a) = None)"

lemma granted_to_fields:
  "granted_to cfg lib now x lease b' \<Longrightarrow>
   now < ExpiresAtMS lease \<and> AccessToken lease \<noteq> [] \<and> \<not> Reserve lease \<and> AccountID lease = ac_PublicID x"
  by (auto simp: granted_to_def lease_grounded_def)

text \<open>An open candidate of a later read is one of the first: its blocks were never lifted.\<close>

lemma candidate_before:
  assumes "x \<in> set (read_accounts key now db)" "open_to_route now x" "route_frame account (br_db b) db"
    and "routable_account (br_db b) key a0" and "ar_account_id a0 = account"
  shows "\<exists>a\<in>set (t_accounts (br_db b)). ar_public_token a = ac_PublicID x \<and> ar_account_id a = ac_ID x
     \<and> routable_account (br_db b) key a
     \<and> t_account_quota_blocks (br_db b) (ar_account_id a) = None \<and> t_account_quota_blocks db (ar_account_id a) = None"
  using assms(1)
proof (rule read_accounts_mem)
  fix a s
  assume a: "a \<in> set (t_accounts db)" "routable_account db key a" "x = read_account db key now a s"
  have in_before: "a \<in> set (t_accounts (br_db b))" using a(1) assms(3) by (simp add: route_frame_def)
  have "routable_account (br_db b) key a"
    by (rule routable_before [OF assms(3) a(2) assms(4,5)])
  moreover have "t_account_quota_blocks db (ar_account_id a) = None"
    using assms(2) a(3) by (simp add: open_not_blocked)
  moreover from this have "t_account_quota_blocks (br_db b) (ar_account_id a) = None"
    using assms(3) unfolding route_frame_def by metis
  ultimately show ?thesis using in_before a(3) by auto
qed

lemma candidate_account:
  assumes "x \<in> set (read_accounts key now (first_read cfg now b))"
  obtains a where "a \<in> set (t_accounts (br_db b))" "ar_account_id a = ac_ID x" "ar_public_token a = ac_PublicID x"
    "routable_account (br_db b) key a" "quotaBlocked x \<longleftrightarrow> t_account_quota_blocks (br_db b) (ar_account_id a) \<noteq> None"
  using assms by (rule read_accounts_mem) (auto simp: quotaBlocked_def intro: that)

lemma Route_lease:
  assumes "Route cfg env now key request b = (Inr (Some lease, w), b')"
  obtains x a where "granted_to cfg (re_lib env) now x lease b'"
    "a \<in> set (t_accounts (br_db b))" "ar_public_token a = ac_PublicID x" "ar_account_id a = ac_ID x"
    "routable_account (br_db b) key a" "t_account_quota_blocks (br_db b) (ar_account_id a) = None"
    "\<And>f. FailureKind request = ''quota'' \<Longrightarrow>
       failed_candidate (FailedAccountID request) (read_accounts key now (first_read cfg now b)) = Some f \<Longrightarrow> ac_ID x \<noteq> ac_ID f"
proof -
  let ?db = "first_read cfg now b" and ?public = "FailedAccountID request"
  let ?candidates = "read_accounts key now ?db"
  let ?b = "b\<lparr>br_db := ?db\<rparr>" and ?failed = "failed_candidate ?public ?candidates"
  note granted = that
  have chosen_first: thesis if c: "chosen cfg env key now (PreferredAccountID request) lease ?db b'"
    and n: "FailureKind request = ''quota'' \<Longrightarrow> ?failed = None"
  proof -
    obtain x where x: "x \<in> set ?candidates" "open_to_route now x" "granted_to cfg (re_lib env) now x lease b'"
      using c by (auto simp: chosen_def)
    obtain a0 where "routable_account (br_db b) key a0" "ar_account_id a0 = ac_ID x"
      using x(1) by (rule candidate_account)
    from candidate_before [OF x(1,2) route_frame_first this] obtain a where
      "a \<in> set (t_accounts (br_db b))" "ar_public_token a = ac_PublicID x" "ar_account_id a = ac_ID x"
      "routable_account (br_db b) key a" "t_account_quota_blocks (br_db b) (ar_account_id a) = None" by blast
    then show thesis using x(3) n by (intro granted [of x a]) auto
  qed
  show thesis
  proof (cases ?failed)
    case None
    then have "choose_account cfg env (PreferredAccountID request) now ?candidates ?b = (Inr (Some lease, w), b')"
      using assms by (auto simp: Route_unfold Let_def split: if_splits)
    then show thesis using None by (blast intro: chosen_first choose_account_chosen)
  next
    case (Some f)
    have f: "f \<in> set ?candidates" using failed_candidate_Some [OF Some] by simp
    then obtain a0 where a0: "a0 \<in> set (t_accounts (br_db b))" "ar_account_id a0 = ac_ID f" "ar_public_token a0 = ac_PublicID f"
      "routable_account (br_db b) key a0" "quotaBlocked f \<longleftrightarrow> t_account_quota_blocks (br_db b) (ar_account_id a0) \<noteq> None"
      by (rule candidate_account)
    show thesis
    proof (cases "FailureKind request = []")
      case True
      then have "choose_account cfg env (PreferredAccountID request) now ?candidates ?b = (Inr (Some lease, w), b')"
        using assms Some by (simp add: Route_unfold Let_def)
      then show thesis using True by (auto intro: chosen_first choose_account_chosen)
    next
      case False
      then have "route_failed cfg env now key request f ?b = (Inr (Some lease, w), b')"
        using assms Some by (simp add: Route_unfold Let_def)
      from route_failed_lease [OF this] show thesis
      proof
        assume "\<not> quotaBlocked f \<and> FailureKind request = ''auth'' \<and> granted_to cfg (re_lib env) now f lease b'"
        then show thesis using a0 by (intro that [of f a0]) auto
      next
        assume "\<exists>db. route_frame (ac_ID f) (br_db ?b) db \<and> chosen cfg env key now (PreferredAccountID request) lease db b'
          \<and> (FailureKind request = ''quota'' \<longrightarrow> t_account_quota_blocks db (ac_ID f) \<noteq> None)"
        then obtain db x where db: "route_frame (ac_ID f) ?db db"
          and q: "FailureKind request = ''quota'' \<longrightarrow> t_account_quota_blocks db (ac_ID f) \<noteq> None"
          and x: "x \<in> set (read_accounts key now db)" "open_to_route now x" "granted_to cfg (re_lib env) now x lease b'"
          by (auto simp: chosen_def)
        have "route_frame (ac_ID f) (br_db b) db" by (rule route_frame_trans [OF route_frame_first db])
        from candidate_before [OF x(1,2) this a0(4,2)] obtain a where
          "a \<in> set (t_accounts (br_db b))" "ar_public_token a = ac_PublicID x" "ar_account_id a = ac_ID x"
          "routable_account (br_db b) key a" "t_account_quota_blocks (br_db b) (ar_account_id a) = None"
          "t_account_quota_blocks db (ar_account_id a) = None" by blast
        then show thesis using x(3) q Some by (intro that [of x a]) auto
      qed
    qed
  qed
qed

lemma Route_justified:
  "Route cfg env now key request b = (Inr (Some lease, w), b') \<Longrightarrow> grant_justified (br_db b) key now lease"
  by (erule Route_lease) (use granted_to_fields in \<open>fastforce simp: grant_justified_def\<close>)

text \<open>
  C2: whatever failure a client reports and whatever the runtime answers when a credential has to
  be refreshed, a lease that the router grants to a key is live and not a reserve, and belongs to
  an account that is enabled, verified, has an active credential, lies in the key's scope and is
  not blocked for quota.
\<close>

theorem Route_grants_justified_leases:
  "Route cfg env now key request b = (Inr (Some lease, w), b') \<Longrightarrow> grant_justified (br_db b) key now lease"
  by (rule Route_justified)

subsection \<open>Quota failures\<close>

text \<open>No answer of the router removes an account or lifts a quota block.\<close>

definition pool_frame :: "broker_db \<Rightarrow> broker_db \<Rightarrow> bool" where
  "pool_frame db db' \<longleftrightarrow> t_accounts db' = t_accounts db
     \<and> (\<forall>k. t_account_quota_blocks db k \<noteq> None \<longrightarrow> t_account_quota_blocks db' k \<noteq> None)"

lemma pool_frame_refl [simp]: "pool_frame db db"
  by (simp add: pool_frame_def)

lemma pool_frame_trans: "pool_frame a b \<Longrightarrow> pool_frame b c \<Longrightarrow> pool_frame a c"
  by (simp add: pool_frame_def)

lemma pool_frame_route: "route_frame account db db' \<Longrightarrow> pool_frame db db'"
  by (simp add: pool_frame_def route_frame_def)

lemma pool_frame_markRouted [simp]: "pool_frame db (markRouted cfg account now db)"
  by (simp add: pool_frame_def markRouted_def release_held_def requestUsageRefresh_def on_state_def Let_def
      split: option.split)

lemma pool_frame_Lease [simp]: "pool_frame (br_db b) (br_db (snd (service_Lease red lib run answer account now force b)))"
  by (rule pool_frame_route [OF route_frame_cred [OF service_Lease_frame]])

lemma pool_frame_grant [simp]: "pool_frame db (br_db (snd outcome)) \<Longrightarrow> pool_frame db (br_db (snd (grant cfg x now outcome)))"
  by (auto simp: grant_def split: prod.split sum.split intro: pool_frame_trans [OF _ pool_frame_markRouted])

lemma choose_account_pool: "pool_frame (br_db b) (br_db (snd (choose_account cfg env preferred now candidates b)))"
  by (simp add: choose_account_def Let_def)

lemma choose_again_pool: "pool_frame (br_db b) (br_db (snd (choose_again cfg env key request a now b)))"
proof -
  obtain r b1 where rf: "record_failed key a (FailureKind request) now b = (r, b1)"
    by (cases "record_failed key a (FailureKind request) now b") auto
  show ?thesis
  proof (cases r)
    case (Inl e)
    then have "br_db b1 = br_db b"
      using rf by (auto simp: record_failed_def Write_b_def Write_def split: if_splits sum.splits)
    then show ?thesis using rf Inl by (simp add: choose_again_def)
  next
    case (Inr u)
    have "pool_frame (br_db b) (prune_excluded now (br_db b1))"
      by (rule pool_frame_route [OF route_frame_trans [OF record_failed_frame [OF rf [unfolded Inr]] route_frame_prune]])
    then show ?thesis
      using rf Inr choose_account_pool [of "b1\<lparr>br_db := prune_excluded now (br_db b1)\<rparr>"]
      by (auto simp: choose_again_def accounts_eq intro: pool_frame_trans)
  qed
qed

lemma route_failed_pool: "pool_frame (br_db b) (br_db (snd (route_failed cfg env now key request a b)))"
proof -
  let ?b = "if FailureKind request = ''quota'' then blockQuota a now b else b"
  have 1: "pool_frame (br_db b) (br_db ?b)" by (simp add: pool_frame_route [OF route_frame_block])
  obtain r b1 where l: "service_Lease (re_red env) (re_lib env) (fst (re_forced env)) (snd (re_forced env)) (ac_ID a) now True ?b = (r, b1)"
    by (cases "service_Lease (re_red env) (re_lib env) (fst (re_forced env)) (snd (re_forced env)) (ac_ID a) now True ?b") auto
  have 2: "pool_frame (br_db b) (br_db b1)"
    using pool_frame_trans [OF 1 pool_frame_Lease] l by (metis snd_conv)
  have 3: "pool_frame (br_db b) (br_db (on_db (markLeaseAuthFailure (ac_ID a) e) b1))" for e
    using pool_frame_trans [OF 2 pool_frame_route [OF route_frame_markLease]] by simp
  show ?thesis
    using 2 pool_frame_trans [OF 3 choose_again_pool] pool_frame_trans [OF 1 choose_again_pool] l
    by (auto simp: route_failed_def Let_def split: sum.split)
qed

lemma Route_pool: "pool_frame (br_db b) (br_db (snd (Route cfg env now key request b)))"
proof -
  let ?b = "b\<lparr>br_db := first_read cfg now b\<rparr>"
  have 1: "pool_frame (br_db b) (br_db ?b)" by (simp add: pool_frame_route [OF route_frame_first])
  show ?thesis
    using 1 pool_frame_trans [OF 1 route_failed_pool] pool_frame_trans [OF 1 choose_account_pool]
    by (auto simp: Route_unfold Let_def split: option.split)
qed

lemma route_failed_blocks:
  assumes "FailureKind request = ''quota''"
  shows "t_account_quota_blocks (br_db (snd (route_failed cfg env now key request a b))) (ac_ID a) \<noteq> None"
proof -
  have "pool_frame (br_db (blockQuota a now b)) (br_db (snd (route_failed cfg env now key request a b)))"
    using assms by (simp add: route_failed_def Let_def choose_again_pool del: br_db_blockQuota)
  then show ?thesis using blocked_by_quota [of a now "br_db b"] by (simp add: pool_frame_def)
qed

lemma quota_failure_blocks:
  assumes "FailureKind request = ''quota''" and "FailedAccountID request = ac_PublicID x"
    and "x \<in> set (read_accounts key now (first_read cfg now b))"
    and "distinct (map ar_public_token (t_accounts (br_db b)))"
  obtains f where "failed_candidate (FailedAccountID request) (read_accounts key now (first_read cfg now b)) = Some f"
    "ac_ID f = ac_ID x" "t_account_quota_blocks (br_db (snd (Route cfg env now key request b))) (ac_ID x) \<noteq> None"
proof -
  let ?candidates = "read_accounts key now (first_read cfg now b)"
  obtain f where f: "failed_candidate (FailedAccountID request) ?candidates = Some f"
    using assms(2,3) failed_candidate_None [of "FailedAccountID request" ?candidates] by (cases "failed_candidate (FailedAccountID request) ?candidates") auto
  then have fx: "f \<in> set ?candidates" "ac_PublicID f = ac_PublicID x" using failed_candidate_Some [OF f] assms(2) by auto
  obtain a where a: "a \<in> set (t_accounts (br_db b))" "ar_account_id a = ac_ID f" "ar_public_token a = ac_PublicID f"
    using fx(1) by (rule candidate_account)
  obtain a' where a': "a' \<in> set (t_accounts (br_db b))" "ar_account_id a' = ac_ID x" "ar_public_token a' = ac_PublicID x"
    using assms(3) by (rule candidate_account)
  have "a = a'" using assms(4) a a' fx(2) by (metis distinct_map inj_onD)
  then have same: "ac_ID f = ac_ID x" using a a' by simp
  have "Route cfg env now key request b = route_failed cfg env now key request f (b\<lparr>br_db := first_read cfg now b\<rparr>)"
    using f assms(1) by (simp add: Route_unfold Let_def)
  then have "t_account_quota_blocks (br_db (snd (Route cfg env now key request b))) (ac_ID x) \<noteq> None"
    using route_failed_blocks [OF assms(1)] same by metis
  then show thesis using f same by (rule that [rotated 2])
qed

text \<open>
  C5: a quota failure is authoritative for every client. Once a key reports it for an account
  it may use, the account is blocked in the database, and neither this answer nor any later
  answer to any key, whatever its configuration and request, lends that account until the
  block is lifted.
\<close>

theorem quota_failure_takes_account_from_every_client:
  assumes "FailureKind request = ''quota''" and "FailedAccountID request = ac_PublicID x"
    and "x \<in> set (read_accounts key now (first_read cfg now b))"
    and "distinct (map ar_public_token (t_accounts (br_db b)))"
    and "Route cfg env now key request b = (answer, b')"
  shows "t_account_quota_blocks (br_db b') (ac_ID x) \<noteq> None
     \<and> (\<forall>lease w. answer = Inr (Some lease, w) \<longrightarrow> AccountID lease \<noteq> ac_PublicID x)
     \<and> (\<forall>cfg2 env2 later key2 request2 lease w b2.
          Route cfg2 env2 later key2 request2 b' = (Inr (Some lease, w), b2) \<longrightarrow> AccountID lease \<noteq> ac_PublicID x)"
proof -
  let ?accounts = "t_accounts (br_db b)"
  obtain f where f: "failed_candidate (FailedAccountID request) (read_accounts key now (first_read cfg now b)) = Some f"
    "ac_ID f = ac_ID x" and blocked: "t_account_quota_blocks (br_db b') (ac_ID x) \<noteq> None"
    using quota_failure_blocks [OF assms(1-4), of env] assms(5) by auto
  obtain a0 where a0: "a0 \<in> set ?accounts" "ar_account_id a0 = ac_ID x" "ar_public_token a0 = ac_PublicID x"
    using assms(3) by (rule candidate_account)
  have unique: "ar_account_id a = ac_ID x" if "a \<in> set ?accounts" "ar_public_token a = ac_PublicID x" for a
    using assms(4) that a0 by (metis distinct_map inj_onD)
  have now: "AccountID lease \<noteq> ac_PublicID x" if "Route cfg env now key request b = (Inr (Some lease, w), b')" for lease w
    using that by (rule Route_lease) (use unique f assms(1) granted_to_fields in metis)
  have "t_accounts (br_db b') = ?accounts"
    using Route_pool [of b cfg env now key request] assms(5) by (simp add: pool_frame_def)
  then have later: "AccountID lease \<noteq> ac_PublicID x"
    if "Route cfg2 env2 later key2 request2 b' = (Inr (Some lease, w), b2)" for cfg2 env2 later key2 request2 lease w b2
    using that by (elim Route_lease) (use unique blocked granted_to_fields in metis)
  show ?thesis using blocked now later assms(5) by blast
qed

text \<open>
  C13: a fresh request is answered with the best account. If a lease is granted, its account is a
  candidate of the key, and no usable candidate ranks before it (the earlier weekly reset, then
  the earlier short reset, then the account the client prefers, then the oldest); a held
  account is taken only when no candidate is usable.
\<close>

theorem fresh_request_gets_the_best_account:
  assumes "FailedAccountID request = []" and "FailureKind request = []"
    and "Route cfg env now key request b = (Inr (Some lease, w), b')"
  shows "\<exists>x\<in>set (read_accounts key now (first_read cfg now b)). AccountID lease = ac_PublicID x
     \<and> picked cfg now (read_accounts key now (first_read cfg now b)) x
     \<and> (\<forall>y\<in>set (read_accounts key now (first_read cfg now b)). usable_now cfg now y \<longrightarrow>
          \<not> rankLess (PreferredAccountID request) now y x)"
proof -
  let ?candidates = "read_accounts key now (first_read cfg now b)"
  have "choose_account cfg env (PreferredAccountID request) now ?candidates (b\<lparr>br_db := first_read cfg now b\<rparr>)
      = (Inr (Some lease, w), b')"
    using assms by (auto simp: Route_unfold Let_def split: option.splits)
  then have "chosen cfg env key now (PreferredAccountID request) lease (first_read cfg now b) b'"
    by (rule choose_account_chosen)
  then obtain x where x: "x \<in> set ?candidates" "picked cfg now ?candidates x"
    "granted_to cfg (re_lib env) now x lease b'"
    "\<forall>y\<in>set ?candidates. usable_now cfg now y \<longrightarrow>
       rank_key (PreferredAccountID request) now x \<le> rank_key (PreferredAccountID request) now y"
    by (auto simp: chosen_def)
  have "\<not> rankLess (PreferredAccountID request) now y x" if "y \<in> set ?candidates" "usable_now cfg now y" for y
    using x(4) that by (simp add: account_rank.lt_key not_less)
  then show ?thesis using x granted_to_fields [OF x(3)] by (intro bexI [of _ x]) auto
qed

subsection \<open>A pool of two accounts\<close>

definition ex_cfg :: router_config where
  "ex_cfg = \<lparr>rc_WindowPulseEnabled = False, rc_PaddingSeconds = 5\<rparr>"

definition ex_route_env :: router_env where
  "ex_route_env = \<lparr>re_red = ex_red, re_lib = ex_lib, re_forced = (ex_run, Inr ()), re_lease = (ex_run, Inr ()), re_pick = 0\<rparr>"

definition ex_bundle :: "string \<Rightarrow> bundle_row" where
  "ex_bundle i = \<lparr>bu_bundle_id = i, bu_account_id = i, bu_state = ''ACTIVE'', bu_files = ex_files ''h.new.s'',
     bu_created_at_ms = 1, bu_retired_at_ms = None\<rparr>"

definition ex_pool :: broker where
  "ex_pool = \<lparr>br_db = empty_db\<lparr>t_accounts := [ex_account ''a'', ex_account ''b''],
      t_account_state := [''a'' \<mapsto> ex_cred_state, ''b'' \<mapsto> ex_cred_state],
      t_usage_current := [''a'' \<mapsto> ex_usage 7 1000000, ''b'' \<mapsto> ex_usage 9 2000000],
      t_credential_bundles := [ex_bundle ''a'', ex_bundle ''b'']\<rparr>, br_published = [], br_webhooks = []\<rparr>"

definition ex_fresh :: RouteRequest where
  "ex_fresh = \<lparr>SessionID = ''s'', TurnID = ''t'', PreferredAccountID = [], FailedAccountID = [], FailureKind = []\<rparr>"

definition ex_quota :: RouteRequest where
  "ex_quota = ex_fresh\<lparr>FailedAccountID := ''pa'', FailureKind := ''quota''\<rparr>"

lemma delete_where_empty [simp]: "delete_where P Map.empty = Map.empty"
  by (simp add: fun_eq_iff delete_where_def)

lemmas ex_pool_simps = ex_pool_def empty_db_def ex_account_def ex_cred_state_def ex_bundle_def ex_usage_def
  ex_files_def ex_cfg_def ex_route_env_def ex_fresh_def ex_quota_def ex_lib_def

lemma ex_first [simp]: "first_read ex_cfg 1500 ex_pool = br_db ex_pool"
  by (simp add: first_read_def reconcileCycle_def prune_excluded_def ex_pool_simps)

lemma ex_candidates:
  "t_accounts db = t_accounts (br_db ex_pool) \<Longrightarrow> t_account_state db = t_account_state (br_db ex_pool) \<Longrightarrow>
   t_credential_bundles db = t_credential_bundles (br_db ex_pool) \<Longrightarrow> t_client_key_labels db = [] \<Longrightarrow>
   read_accounts key 1500 db =
     [read_account db key 1500 (ex_account ''a'') ex_cred_state, read_account db key 1500 (ex_account ''b'') ex_cred_state]"
  by (simp add: read_accounts_def ex_pool_simps by_creation_def insort_key_def less_prod_def map_filter_def
      routable_account_def is_cycle_member_def cycle_member_state_def has_active_bundle_def account_scope_def
      key_rule_covers_def)

lemmas ex_choose_simps = choose_account_def pick_usable_def usable_now_def open_to_route_def exhausted_def
  quotaBlocked_def excluded_def read_account_def spent_def sql_gt_def sort_slice_def rankLess_def futureReset_def
  w64_def service_Lease_def read_bundle_def leaseFromPayload_def splitToken_def needs_refresh_def
  lease_of_bundle_def grant_def routeLease_def

abbreviation ex_read :: "broker_db \<Rightarrow> string \<Rightarrow> Account" where
  "ex_read db i \<equiv> read_account db ''k'' 1500 (ex_account i) ex_cred_state"

lemma ex_pool_candidates: "read_accounts ''k'' 1500 (br_db ex_pool) = [ex_read (br_db ex_pool) ''a'', ex_read (br_db ex_pool) ''b'']"
  by (rule ex_candidates) (simp_all add: ex_pool_simps)

lemma ex_fresh_answer:
  "\<exists>lease b'. Route ex_cfg ex_route_env 1500 ''k'' ex_fresh ex_pool = (Inr (Some lease, None), b') \<and> AccountID lease = ''pa''"
proof -
  have "Route ex_cfg ex_route_env 1500 ''k'' ex_fresh ex_pool =
      choose_account ex_cfg ex_route_env [] 1500 [ex_read (br_db ex_pool) ''a'', ex_read (br_db ex_pool) ''b''] ex_pool"
    by (simp add: Route_unfold Let_def ex_pool_candidates failed_candidate_def) (simp add: ex_fresh_def)
  then show ?thesis by (simp add: ex_choose_simps Let_def ex_pool_simps)
qed

lemma ex_quota_answer:
  "\<exists>lease b'. Route ex_cfg ex_route_env 1500 ''k'' ex_quota ex_pool = (Inr (Some lease, None), b') \<and> AccountID lease = ''pb''"
proof -
  let ?a = "ex_read (br_db ex_pool) ''a''"
  let ?db = "prune_excluded 1500 (block_quota_db ?a 1500 (br_db ex_pool))"
  have c: "read_accounts ''k'' 1500 ?db = [ex_read ?db ''a'', ex_read ?db ''b'']"
    by (rule ex_candidates) (simp_all add: prune_excluded_def block_quota_db_def requestUsageRefresh_def ex_pool_simps)
  have "Route ex_cfg ex_route_env 1500 ''k'' ex_quota ex_pool =
      choose_account ex_cfg ex_route_env [] 1500 (read_accounts ''k'' 1500 ?db) ((blockQuota ?a 1500 ex_pool)\<lparr>br_db := ?db\<rparr>)"
    by (simp add: Route_unfold Let_def ex_pool_candidates failed_candidate_def route_failed_def choose_again_def
        record_failed_def accounts_eq) (simp add: ex_pool_simps)
  then show ?thesis
    by (simp only: c) (simp add: ex_choose_simps Let_def ex_pool_simps prune_excluded_def block_quota_db_def
        requestUsageRefresh_def)
qed

theorem Route_grants_justified_leases_witness:
  "\<exists>lease b'. Route ex_cfg ex_route_env 1500 ''k'' ex_quota ex_pool = (Inr (Some lease, None), b')
     \<and> grant_justified (br_db ex_pool) ''k'' 1500 lease"
  using ex_quota_answer Route_grants_justified_leases by blast

theorem fresh_request_gets_the_best_account_witness:
  "\<exists>lease b' x. Route ex_cfg ex_route_env 1500 ''k'' ex_fresh ex_pool = (Inr (Some lease, None), b') \<and> AccountID lease = ''pa''
     \<and> ac_PublicID x = ''pa'' \<and> picked ex_cfg 1500 (read_accounts ''k'' 1500 (br_db ex_pool)) x"
proof -
  obtain lease b' where r: "Route ex_cfg ex_route_env 1500 ''k'' ex_fresh ex_pool = (Inr (Some lease, None), b')"
    and a: "AccountID lease = ''pa''" using ex_fresh_answer by blast
  have "FailedAccountID ex_fresh = []" "FailureKind ex_fresh = []" by (simp_all add: ex_fresh_def)
  from fresh_request_gets_the_best_account [OF this r] show ?thesis using r a by auto
qed

theorem quota_failure_takes_account_from_every_client_witness:
  "\<exists>lease b'. Route ex_cfg ex_route_env 1500 ''k'' ex_quota ex_pool = (Inr (Some lease, None), b')
     \<and> t_account_quota_blocks (br_db b') ''a'' \<noteq> None
     \<and> (\<forall>env2 later key2 request2 lease w b2.
          Route ex_cfg env2 later key2 request2 b' = (Inr (Some lease, w), b2) \<longrightarrow> AccountID lease \<noteq> ''pa'')"
proof -
  obtain lease b' where r: "Route ex_cfg ex_route_env 1500 ''k'' ex_quota ex_pool = (Inr (Some lease, None), b')"
    using ex_quota_answer by blast
  let ?x = "ex_read (br_db ex_pool) ''a''"
  have x: "ac_ID ?x = ''a''" "ac_PublicID ?x = ''pa''" by (simp_all add: ex_account_def)
  have "FailureKind ex_quota = ''quota''" "FailedAccountID ex_quota = ac_PublicID ?x"
    by (simp_all add: ex_quota_def ex_fresh_def ex_account_def)
  moreover have "?x \<in> set (read_accounts ''k'' 1500 (first_read ex_cfg 1500 ex_pool))"
    by (simp add: ex_pool_candidates)
  moreover have "distinct (map ar_public_token (t_accounts (br_db ex_pool)))"
    by (simp add: ex_pool_simps)
  ultimately have q: "t_account_quota_blocks (br_db b') (ac_ID ?x) \<noteq> None
     \<and> (\<forall>cfg2 env2 later key2 request2 lease w b2.
          Route cfg2 env2 later key2 request2 b' = (Inr (Some lease, w), b2) \<longrightarrow> AccountID lease \<noteq> ac_PublicID ?x)"
    using quota_failure_takes_account_from_every_client [OF _ _ _ _ r] by blast
  have "AccountID l \<noteq> ''pa''" if "Route ex_cfg env2 later key2 request2 b' = (Inr (Some l, w), b2)"
    for env2 later key2 request2 l w b2 using q that unfolding x by blast
  then show ?thesis using q unfolding x by (intro exI [of _ lease] exI [of _ b'] conjI r) auto
qed

end
