(* ===== verification/Telemetry.thy ===== *)
theory Telemetry
  imports Client_Keys Credentials
begin

text \<open>
  internal/proxytelemetry: what a response used. \<open>Record\<close> stores a response once and adds it to
  the totals of its model; \<open>RecordUsage\<close> opens an interval between two usage reads of an account
  with the spans in which requests were running; a response that arrives late corrects the
  intervals it overlaps (\<open>recordQuotaActivity\<close>, \<open>saveActivity\<close>); \<open>Prune\<close> forgets what is older
  than a week and keeps the lifetime sums. A violated CHECK of a table fails the statement,
  except in an INSERT OR IGNORE, which then adds nothing. The tables are read in the order of
  their rows; the totals are only read for display.
\<close>

definition QuotaRetention :: int where "QuotaRetention = 7 * 24 * 60 * 60 * 1000"

record QuotaSnapshot =
  qs_ID :: string
  qs_AtMS :: int
  qs_ShortUsed :: nullint
  qs_ShortReset :: nullint
  qs_WeeklyUsed :: nullint
  qs_WeeklyReset :: nullint

subsection \<open>Spans\<close>

definition merge_step :: "(int \<times> int) list \<Rightarrow> int \<times> int \<Rightarrow> (int \<times> int) list" where
  "merge_step merged act =
     (if merged \<noteq> [] \<and> fst act \<le> snd (last merged)
      then butlast merged @ [(fst (last merged), max (snd (last merged)) (snd act))]
      else merged @ [act])"

definition mergeSpans :: "(int \<times> int) list \<Rightarrow> (int \<times> int) list" where
  "mergeSpans spans = foldl merge_step [] (sort_slice (\<lambda>a b. fst a < fst b) spans)"

definition active_time :: "(int \<times> int) list \<Rightarrow> int" where
  "active_time spans = sum_list (map (\<lambda>(from, to). to - from) spans)"

text \<open>The part of an activity that lies in an interval, if any.\<close>

definition clip :: "int \<Rightarrow> int \<Rightarrow> int \<Rightarrow> int \<Rightarrow> (int \<times> int) option" where
  "clip from to start until =
     (let from = max from start; to = min to until in if from < to then Some (from, to) else None)"

subsection \<open>Models\<close>

definition quotaModel :: "string option \<Rightarrow> string \<Rightarrow> string option" where
  "quotaModel current model =
     (case current of
        None \<Rightarrow> None
      | Some c \<Rightarrow> if model = [] \<or> model = ''unknown'' \<or> c \<noteq> [] \<and> c \<noteq> model then None else Some model)"

definition statsModel :: "string \<Rightarrow> string \<Rightarrow> string" where
  "statsModel response request =
     (if TrimSpace response \<noteq> [] then TrimSpace response
      else if TrimSpace request \<noteq> [] then TrimSpace request else ''unknown'')"

subsection \<open>Lifetime sums\<close>

definition lifetime_ok :: "lifetime_row \<Rightarrow> bool" where
  "lifetime_ok row \<longleftrightarrow> 0 \<le> ql_samples row \<and> 0 \<le> ql_used_percent row \<and> 0 \<le> ql_active_ms row"

definition add_lifetime :: "int \<Rightarrow> int \<Rightarrow> int \<Rightarrow> lifetime_row option \<Rightarrow> lifetime_row" where
  "add_lifetime samples used active old =
     (case old of
        None \<Rightarrow> \<lparr>ql_samples = samples, ql_used_percent = used, ql_active_ms = active\<rparr>
      | Some row \<Rightarrow> \<lparr>ql_samples = ql_samples row + samples, ql_used_percent = ql_used_percent row + used,
                     ql_active_ms = ql_active_ms row + active\<rparr>)"

definition checked :: "('k \<Rightarrow> lifetime_row option) \<Rightarrow> 'k \<Rightarrow> lifetime_row \<Rightarrow> go_error + ('k \<Rightarrow> lifetime_row option)" where
  "checked t k row = (if lifetime_ok row then Inr (t(k \<mapsto> row)) else Inl constraint_failed)"

definition adjustModelLifetime :: "interval_row \<Rightarrow> string option \<Rightarrow> int \<Rightarrow> bool \<Rightarrow> broker_db \<Rightarrow> go_error + broker_db" where
  "adjustModelLifetime interval model active positive db =
     (case model of
        None \<Rightarrow> Inr db
      | Some m \<Rightarrow>
          if m = [] \<or> active = 0 then Inr db
          else
            (let k = (qi_account_id interval, m, qi_window_kind interval); t = t_quota_model_lifetime db in
             if positive
             then if m = ''unknown'' then Inl constraint_failed
                  else map_sum id (\<lambda>t. db\<lparr>t_quota_model_lifetime := t\<rparr>)
                         (checked t k (add_lifetime 1 (qi_used_percent interval) active (t k)))
             else if t k = None then Inr db
             else map_sum id (\<lambda>t. db\<lparr>t_quota_model_lifetime := t\<rparr>)
                    (checked t k (add_lifetime (- 1) (- qi_used_percent interval) (- active) (t k)))))"

definition same_interval :: "interval_row \<Rightarrow> interval_row \<Rightarrow> bool" where
  "same_interval a b \<longleftrightarrow> qi_snapshot_id a = qi_snapshot_id b \<and> qi_window_kind a = qi_window_kind b"

text \<open>\<open>interval\<close> holds the new spans and model, and the active time stored before.\<close>

definition saveActivity :: "interval_row \<Rightarrow> broker_db \<Rightarrow> go_error + broker_db" where
  "saveActivity interval db =
     (let active = active_time (qi_spans interval) in
      case find (same_interval interval) (t_quota_intervals db) of
        None \<Rightarrow> Inl no_rows
      | Some previous \<Rightarrow>
          if active = qi_active_ms interval \<and> qi_model previous = qi_model interval then Inr db
          else
            (case adjustModelLifetime interval (qi_model previous) (qi_active_ms interval) False db of
               Inl e \<Rightarrow> Inl e
             | Inr db \<Rightarrow>
                 (case adjustModelLifetime interval (qi_model interval) active True db of
                    Inl e \<Rightarrow> Inl e
                  | Inr db \<Rightarrow>
                      (let db = db\<lparr>t_quota_intervals := update_where (same_interval interval)
                             (\<lambda>row. row\<lparr>qi_active_ms := active, qi_spans := qi_spans interval, qi_model := qi_model interval\<rparr>)
                             (t_quota_intervals db)\<rparr>;
                           (samples, used) = (if qi_active_ms interval = 0 \<and> 0 < active then (1, qi_used_percent interval) else (0, 0));
                           k = (qi_account_id interval, qi_window_kind interval); t = t_quota_lifetime db
                       in map_sum id (\<lambda>t. db\<lparr>t_quota_lifetime := t\<rparr>)
                            (checked t k (add_lifetime samples used (active - qi_active_ms interval) (t k)))))))"

fun saveActivities :: "interval_row list \<Rightarrow> broker_db \<Rightarrow> go_error + broker_db" where
  "saveActivities [] db = Inr db"
| "saveActivities (interval # intervals) db =
     (case saveActivity interval db of Inl e \<Rightarrow> Inl e | Inr db \<Rightarrow> saveActivities intervals db)"

subsection \<open>Late activity\<close>

definition add_activity :: "string \<Rightarrow> int \<Rightarrow> int \<Rightarrow> interval_row \<Rightarrow> interval_row" where
  "add_activity model start until interval =
     (case clip start until (qi_started_at_ms interval) (qi_ended_at_ms interval) of
        None \<Rightarrow> interval
      | Some act \<Rightarrow> interval\<lparr>qi_spans := mergeSpans (qi_spans interval @ [act]),
                              qi_model := quotaModel (qi_model interval) model\<rparr>)"

definition recordQuotaActivity :: "string \<Rightarrow> string \<Rightarrow> int \<Rightarrow> int \<Rightarrow> broker_db \<Rightarrow> go_error + broker_db" where
  "recordQuotaActivity account model start until db =
     (if start \<le> 0 \<or> until \<le> start then Inr db
      else saveActivities
             (map (add_activity model start until)
                (filter (\<lambda>i. qi_account_id i = account \<and> qi_started_at_ms i < until \<and> start < qi_ended_at_ms i)
                   (t_quota_intervals db))) db)"

subsection \<open>Intervals between usage reads\<close>

definition overlapping :: "string \<Rightarrow> int \<Rightarrow> int \<Rightarrow> broker_db \<Rightarrow> ((int \<times> int) \<times> string) list" where
  "overlapping account start moment db =
     List.map_filter
       (\<lambda>row. if pr_account_id row = account \<and> 0 < pr_upstream_started_at_ms row \<and> pr_upstream_started_at_ms row < moment
                  \<and> start < pr_terminal_event_at_ms row
               then map_option (\<lambda>act. (act, pr_stats_model row))
                      (clip (pr_upstream_started_at_ms row) (pr_terminal_event_at_ms row) start moment)
               else None)
       (t_proxy_responses db)"

definition measured :: "int \<Rightarrow> nullint \<Rightarrow> nullint \<Rightarrow> nullint \<Rightarrow> nullint \<Rightarrow> int option" where
  "measured moment used reset next_used next_reset =
     (case (used, reset, next_used, next_reset) of
        (Some u, Some r, Some u', Some r') \<Rightarrow>
          if u < 0 \<or> u' < u \<or> 100 < u' \<or> r' \<noteq> r \<or> r' \<le> go_div moment 1000 then None else Some (u' - u)
      | _ \<Rightarrow> None)"

definition open_interval :: "interval_row \<Rightarrow> broker_db \<Rightarrow> go_error + broker_db" where
  "open_interval interval db =
     (if list_ex (same_interval interval) (t_quota_intervals db) then Inr db
      else saveActivity interval
             (db\<lparr>t_quota_intervals := t_quota_intervals db @ [interval\<lparr>qi_spans := []\<rparr>]\<rparr>))"

definition open_measured :: "string \<Rightarrow> QuotaSnapshot \<Rightarrow> int \<Rightarrow> (int \<times> int) list \<Rightarrow> string option \<Rightarrow> string \<Rightarrow> int option
    \<Rightarrow> broker_db \<Rightarrow> go_error + broker_db" where
  "open_measured account snapshot start spans model kind used db =
     (case used of
        None \<Rightarrow> Inr db
      | Some u \<Rightarrow> open_interval
          \<lparr>qi_snapshot_id = qs_ID snapshot, qi_account_id = account, qi_window_kind = kind, qi_started_at_ms = start,
           qi_ended_at_ms = qs_AtMS snapshot, qi_used_percent = u, qi_active_ms = 0, qi_spans = spans, qi_model = model\<rparr> db)"

definition RecordUsage :: "string \<Rightarrow> QuotaSnapshot \<Rightarrow> broker_db \<Rightarrow> go_error + broker_db" where
  "RecordUsage account snapshot db =
     (case t_usage_current db account of
        None \<Rightarrow> Inl no_rows
      | Some u \<Rightarrow>
          (let start = coalesce (uc_complete_read_at_ms u) 0; moment = qs_AtMS snapshot in
           if start \<le> 0 \<or> moment \<le> start \<or> QuotaRetention < moment - start then Inr db
           else
             (let activity = overlapping account start moment db;
                  spans = mergeSpans (map fst activity);
                  model = fold (\<lambda>(_, m) model. quotaModel model m) activity (Some [])
              in case open_measured account snapshot start spans model ''short''
                        (measured moment (uc_short_used_percent_raw u) (uc_short_resets_at_s u) (qs_ShortUsed snapshot) (qs_ShortReset snapshot)) db of
                   Inl e \<Rightarrow> Inl e
                 | Inr db \<Rightarrow>
                     open_measured account snapshot start spans model ''weekly''
                       (measured moment (uc_weekly_used_percent_raw u) (uc_weekly_resets_at_s u) (qs_WeeklyUsed snapshot) (qs_WeeklyReset snapshot)) db)))"

subsection \<open>Responses\<close>

definition totals_ok :: "totals_row \<Rightarrow> bool" where
  "totals_ok t \<longleftrightarrow> 0 \<le> pt_response_count t \<and> 0 \<le> pt_active_duration_ms t \<and> 0 \<le> pt_input_tokens t
     \<and> 0 \<le> pt_cached_input_tokens t \<and> 0 \<le> pt_output_tokens t \<and> 0 \<le> pt_reasoning_output_tokens t \<and> 0 \<le> pt_total_tokens t"

definition zero_totals :: totals_row where
  "zero_totals = \<lparr>pt_response_count = 0, pt_active_duration_ms = 0, pt_input_tokens = 0, pt_cached_input_tokens = 0,
     pt_output_tokens = 0, pt_reasoning_output_tokens = 0, pt_total_tokens = 0\<rparr>"

definition add_totals :: "totals_row \<Rightarrow> totals_row \<Rightarrow> totals_row" where
  "add_totals a b = \<lparr>pt_response_count = pt_response_count a + pt_response_count b,
     pt_active_duration_ms = pt_active_duration_ms a + pt_active_duration_ms b,
     pt_input_tokens = pt_input_tokens a + pt_input_tokens b,
     pt_cached_input_tokens = pt_cached_input_tokens a + pt_cached_input_tokens b,
     pt_output_tokens = pt_output_tokens a + pt_output_tokens b,
     pt_reasoning_output_tokens = pt_reasoning_output_tokens a + pt_reasoning_output_tokens b,
     pt_total_tokens = pt_total_tokens a + pt_total_tokens b\<rparr>"

definition sub_totals :: "totals_row \<Rightarrow> totals_row \<Rightarrow> totals_row" where
  "sub_totals a b = \<lparr>pt_response_count = pt_response_count a - pt_response_count b,
     pt_active_duration_ms = pt_active_duration_ms a - pt_active_duration_ms b,
     pt_input_tokens = pt_input_tokens a - pt_input_tokens b,
     pt_cached_input_tokens = pt_cached_input_tokens a - pt_cached_input_tokens b,
     pt_output_tokens = pt_output_tokens a - pt_output_tokens b,
     pt_reasoning_output_tokens = pt_reasoning_output_tokens a - pt_reasoning_output_tokens b,
     pt_total_tokens = pt_total_tokens a - pt_total_tokens b\<rparr>"

text \<open>What one response adds to the totals of its model.\<close>

definition response_totals :: "response_row \<Rightarrow> totals_row" where
  "response_totals row = \<lparr>pt_response_count = 1, pt_active_duration_ms = pr_active_duration_ms row,
     pt_input_tokens = coalesce (pr_input_tokens row) 0, pt_cached_input_tokens = coalesce (pr_cached_input_tokens row) 0,
     pt_output_tokens = coalesce (pr_output_tokens row) 0,
     pt_reasoning_output_tokens = coalesce (pr_reasoning_output_tokens row) 0,
     pt_total_tokens = coalesce (pr_total_tokens row) 0\<rparr>"

definition write_totals :: "string \<times> string \<Rightarrow> totals_row \<Rightarrow> broker_db \<Rightarrow> go_error + broker_db" where
  "write_totals k t db =
     (if totals_ok t then Inr (db\<lparr>t_proxy_usage_totals := (t_proxy_usage_totals db)(k \<mapsto> t)\<rparr>) else Inl constraint_failed)"

definition addResponse :: "string \<Rightarrow> response_row \<Rightarrow> broker_db \<Rightarrow> go_error + broker_db" where
  "addResponse period row db =
     (let k = (period, pr_stats_model row) in
      write_totals k (case t_proxy_usage_totals db k of None \<Rightarrow> response_totals row
                      | Some t \<Rightarrow> add_totals t (response_totals row)) db)"

definition subtractResponse :: "response_row \<Rightarrow> broker_db \<Rightarrow> go_error + broker_db" where
  "subtractResponse row db =
     (let k = (''ROLLING_7D'', pr_stats_model row) in
      case t_proxy_usage_totals db k of
        None \<Rightarrow> Inr db
      | Some t \<Rightarrow> write_totals k (sub_totals t (response_totals row)) db)"

text \<open>The CHECKs of proxy_responses.\<close>

definition nonneg :: "nullint \<Rightarrow> bool" where
  "nonneg v \<longleftrightarrow> (case v of None \<Rightarrow> True | Some n \<Rightarrow> 0 \<le> n)"

definition response_ok :: "(string \<Rightarrow> bool) \<Rightarrow> Observation \<Rightarrow> bool" where
  "response_ok json_valid v \<longleftrightarrow>
     ob_TerminalStatus v \<in> {''completed'', ''incomplete'', ''failed''} \<and> 0 < ob_UpstreamAttempts v
     \<and> nonneg (ob_InputTokens v) \<and> nonneg (ob_CachedInputTokens v) \<and> nonneg (ob_OutputTokens v)
     \<and> nonneg (ob_ReasoningTokens v) \<and> nonneg (ob_TotalTokens v)
     \<and> (ob_UsageJSON v = [] \<or> json_valid (ob_UsageJSON v))"

definition response_of :: "string \<Rightarrow> string option \<Rightarrow> Observation \<Rightarrow> response_row" where
  "response_of account client v =
     \<lparr>pr_request_id = ob_RequestID v, pr_account_id = account, pr_client_key_id = client,
      pr_upstream_started_at_ms = ob_UpstreamStartedAtMS v, pr_terminal_event_at_ms = ob_TerminalEventAtMS v,
      pr_input_tokens = ob_InputTokens v, pr_cached_input_tokens = ob_CachedInputTokens v,
      pr_output_tokens = ob_OutputTokens v, pr_reasoning_output_tokens = ob_ReasoningTokens v,
      pr_total_tokens = ob_TotalTokens v, pr_stats_model = statsModel (ob_ResponseModel v) (ob_RequestModel v),
      pr_active_duration_ms = max 0 (w64 (ob_TerminalEventAtMS v - ob_UpstreamStartedAtMS v))\<rparr>"

definition insert_response :: "response_row \<Rightarrow> broker_db \<Rightarrow> go_error + broker_db" where
  "insert_response row db =
     (case addResponse ''ROLLING_7D'' row (db\<lparr>t_proxy_responses := t_proxy_responses db @ [row]\<rparr>) of
        Inl e \<Rightarrow> Inl e
      | Inr db \<Rightarrow>
          (case addResponse ''LIFETIME'' row db of
             Inl e \<Rightarrow> Inl e
           | Inr db \<Rightarrow> recordQuotaActivity (pr_account_id row) (pr_stats_model row) (pr_upstream_started_at_ms row)
                        (pr_terminal_event_at_ms row) db))"

definition Record :: "(string \<Rightarrow> bool) \<Rightarrow> Observation \<Rightarrow> broker_db \<Rightarrow> (go_error + bool) \<times> broker_db" where
  "Record json_valid v =
     Write (\<lambda>db.
       case account_by_public db (ob_AccountID v) of
         None \<Rightarrow> Inr (False, db)
       | Some a \<Rightarrow>
           (let exists = (ob_ClientID v \<noteq> [] \<and> list_ex (\<lambda>row. ck_key_id row = ob_ClientID v) (t_client_api_keys db));
                db = (if exists then touch_key (ob_TerminalEventAtMS v) (ob_ClientID v) db else db)
            in if list_ex (\<lambda>row. pr_request_id row = ob_RequestID v) (t_proxy_responses db) \<or> \<not> response_ok json_valid v
               then Inr (False, db)
               else map_sum id (Pair True)
                      (insert_response (response_of (ar_account_id a) (if exists then Some (ob_ClientID v) else None) v) db)))"

subsection \<open>Pruning\<close>

fun prune_responses :: "response_row list \<Rightarrow> broker_db \<Rightarrow> go_error + broker_db" where
  "prune_responses [] db = Inr db"
| "prune_responses (row # rows) db =
     (case subtractResponse row db of
        Inl e \<Rightarrow> Inl e
      | Inr db \<Rightarrow> prune_responses rows
          (db\<lparr>t_proxy_responses := filter (\<lambda>r. pr_request_id r \<noteq> pr_request_id row) (t_proxy_responses db)\<rparr>))"

definition Prune :: "int \<Rightarrow> nat \<Rightarrow> broker_db \<Rightarrow> (go_error + unit) \<times> broker_db" where
  "Prune cutoff limit =
     Write (\<lambda>db.
       map_sum id (\<lambda>db. ((), db\<lparr>t_quota_intervals := filter (\<lambda>i. \<not> qi_ended_at_ms i < cutoff) (t_quota_intervals db)\<rparr>))
         (prune_responses
            (take limit (sort_key pr_terminal_event_at_ms (filter (\<lambda>r. pr_terminal_event_at_ms r < cutoff) (t_proxy_responses db))))
            db))"

end
