(* ===== verification/Telemetry_Correct.thy ===== *)
theory Telemetry_Correct
  imports Telemetry
begin

text \<open>
  What the telemetry tables mean: merged spans are disjoint and cover what was merged, so the
  active time of an interval counts every millisecond once; the rolling totals are the sums
  over the responses kept; and the lifetime sums cover the intervals kept, whatever order
  responses, usage reads and prunings come in, so that no CHECK ever fails and no correction of
  a late response takes away added than was attributed.
\<close>

subsection \<open>Merged spans\<close>

definition proper :: "(int \<times> int) list \<Rightarrow> bool" where
  "proper spans \<longleftrightarrow> (\<forall>s\<in>set spans. fst s < snd s)"

definition separated :: "(int \<times> int) list \<Rightarrow> bool" where
  "separated spans \<longleftrightarrow> sorted_wrt (\<lambda>a b. snd a < fst b) spans"

definition covered :: "(int \<times> int) list \<Rightarrow> int set" where
  "covered spans = (\<Union>s\<in>set spans. {fst s..<snd s})"

lemma covered_simps [simp]:
  "covered [] = {}" "covered (s # ss) = {fst s..<snd s} \<union> covered ss" "covered (ss @ ts) = covered ss \<union> covered ts"
  by (auto simp: covered_def)

lemma finite_covered [simp]: "finite (covered spans)"
  by (simp add: covered_def)

lemma merge_step_snoc:
  "merge_step (front @ [p]) s =
     (if fst s \<le> snd p then front @ [(fst p, max (snd p) (snd s))] else front @ [p, s])"
  by (simp add: merge_step_def)

text \<open>Merging the next span by start keeps the merged spans apart.\<close>

lemma merge_step_correct:
  assumes "separated merged" "proper merged" "\<forall>p\<in>set merged. fst p \<le> fst s" "fst s < snd s"
  shows "separated (merge_step merged s) \<and> proper (merge_step merged s)
     \<and> (\<forall>p\<in>set (merge_step merged s). fst p \<le> fst s)
     \<and> covered (merge_step merged s) = covered merged \<union> {fst s..<snd s}"
proof (cases merged rule: rev_cases)
  case Nil
  then show ?thesis using assms(4) by (simp add: merge_step_def separated_def proper_def)
next
  case (snoc front p)
  have p: "fst p \<le> fst s" "fst p < snd p" using assms(2,3) snoc by (auto simp: proper_def)
  have front: "\<forall>q\<in>set front. snd q < fst p" "sorted_wrt (\<lambda>a b. snd a < fst b) front" "proper front"
    "\<forall>q\<in>set front. fst q \<le> fst s"
    using assms(1-3) snoc by (auto simp: separated_def sorted_wrt_append proper_def)
  show ?thesis
  proof (cases "fst s \<le> snd p")
    case True
    then have "{fst p..<max (snd p) (snd s)} = {fst p..<snd p} \<union> {fst s..<snd s}" using p assms(4) by auto
    then show ?thesis
      using True p front assms(4) by (auto simp: snoc merge_step_snoc separated_def proper_def sorted_wrt_append)
  next
    case False
    moreover have "snd q < fst s" if "q \<in> set front" for q
      using front(1) that p(1) by fastforce
    ultimately show ?thesis
      using p front assms(4) by (auto simp: snoc merge_step_snoc separated_def proper_def sorted_wrt_append)
  qed
qed

lemma foldl_merge_step:
  assumes "sorted (map fst spans)" "proper spans" "separated merged" "proper merged"
    "\<forall>p\<in>set merged. \<forall>s\<in>set spans. fst p \<le> fst s"
  shows "separated (foldl merge_step merged spans) \<and> proper (foldl merge_step merged spans)
     \<and> covered (foldl merge_step merged spans) = covered merged \<union> covered spans"
  using assms
proof (induction spans arbitrary: merged)
  case Nil
  then show ?case by simp
next
  case (Cons s spans)
  have before: "fst s < snd s" "proper spans" "sorted (map fst spans)" "\<forall>p\<in>set merged. fst p \<le> fst s"
    "\<forall>t\<in>set spans. fst s \<le> fst t"
    using Cons.prems by (simp_all add: proper_def)
  have s: "separated (merge_step merged s)" "proper (merge_step merged s)"
    "\<forall>p\<in>set (merge_step merged s). fst p \<le> fst s"
    "covered (merge_step merged s) = covered merged \<union> {fst s..<snd s}"
    using merge_step_correct [OF Cons.prems(3,4) before(4,1)] by simp_all
  have "\<forall>p\<in>set (merge_step merged s). \<forall>t\<in>set spans. fst p \<le> fst t"
    using s(3) before(5) order_trans by blast
  from Cons.IH [OF before(3,2) s(1,2) this] show ?case by (simp only: foldl_Cons covered_simps s(4) Un_assoc simp_thms)
qed

interpretation span_order: keyed_ranking "\<lambda>a b. fst a < (fst b :: int)" fst
  by unfold_locales simp

lemma mergeSpans_sound:
  assumes "proper spans"
  shows "separated (mergeSpans spans)" "proper (mergeSpans spans)" "covered (mergeSpans spans) = covered spans"
  using foldl_merge_step [of "sort_slice (\<lambda>a b. fst a < fst b) spans" "[]"] assms
  by (auto simp: mergeSpans_def span_order.sorted_keys proper_def separated_def covered_def)

lemma active_time_card:
  assumes "separated spans" "proper spans"
  shows "active_time spans = int (card (covered spans))"
  using assms
proof (induction spans)
  case Nil
  then show ?case by (simp add: active_time_def)
next
  case (Cons s spans)
  have disjoint: "{fst s..<snd s} \<inter> covered spans = {}"
    using Cons.prems by (force simp: separated_def covered_def proper_def)
  have "card (covered (s # spans)) = card {fst s..<snd s} + card (covered spans)"
    unfolding covered_simps by (rule card_Un_disjoint) (use disjoint in simp_all)
  then show ?case
    using Cons by (simp add: active_time_def separated_def proper_def split: prod.splits)
qed

text \<open>
  C39: merging spans keeps exactly the milliseconds they cover, in disjoint spans in order, so
  the active time it yields counts each of them once, however the spans overlap.
\<close>

theorem mergeSpans_counts_each_moment_once:
  assumes "\<forall>(from, to)\<in>set spans. from < to"
  shows "sorted_wrt (\<lambda>a b. snd a < fst b) (mergeSpans spans) \<and> (\<forall>(from, to)\<in>set (mergeSpans spans). from < to)
     \<and> (\<forall>t. (\<exists>(from, to)\<in>set (mergeSpans spans). from \<le> t \<and> t < to) \<longleftrightarrow> (\<exists>(from, to)\<in>set spans. from \<le> t \<and> t < to))
     \<and> active_time (mergeSpans spans) = int (card {t. \<exists>(from, to)\<in>set spans. from \<le> t \<and> t < to})"
proof -
  have p: "proper spans" using assms by (auto simp: proper_def)
  note m = mergeSpans_sound [OF p]
  have cov: "covered xs = {t. \<exists>(from, to)\<in>set xs. from \<le> t \<and> t < to}" for xs
    by (force simp: covered_def)
  have eq: "{t. \<exists>(from, to)\<in>set (mergeSpans spans). from \<le> t \<and> t < to} = {t. \<exists>(from, to)\<in>set spans. from \<le> t \<and> t < to}"
    using m(3) by (simp only: cov)
  show ?thesis
    using m active_time_card [OF m(1,2)] eq
    by (auto simp: separated_def proper_def cov [of spans] split: prod.splits)
qed

theorem mergeSpans_counts_each_moment_once_witness:
  "active_time (mergeSpans [(5, 9), (1, 4), (3, 6)]) = int (card {t. \<exists>(from, to)\<in>set [(5, 9), (1, 4), (3, 6)]. from \<le> t \<and> t < (to :: int)})"
  by (rule mergeSpans_counts_each_moment_once [THEN conjunct2, THEN conjunct2, THEN conjunct2]) simp

lemma active_time_grows:
  assumes "separated spans" "proper spans" "proper added"
  shows "active_time spans \<le> active_time (mergeSpans (spans @ added))"
proof -
  have "proper (spans @ added)" using assms by (auto simp: proper_def)
  note m = mergeSpans_sound [OF this]
  have "card (covered spans) \<le> card (covered (spans @ added))" by (intro card_mono) auto
  then show ?thesis using active_time_card [OF assms(1,2)] active_time_card [OF m(1,2)] m(3) by simp
qed

lemma active_time_nonneg: "proper spans \<Longrightarrow> 0 \<le> active_time spans"
  by (induction spans) (auto simp: active_time_def proper_def)

lemma clip_proper: "clip from to start until = Some s \<Longrightarrow> fst s < snd s"
  by (auto simp: clip_def Let_def split: if_splits)

subsection \<open>Sums over rows\<close>

lemma sum_list_update_where:
  fixes f :: "'r \<Rightarrow> int"
  assumes "distinct (map k rows)" "x \<in> set rows" "\<And>row. P row \<longleftrightarrow> k row = k x"
  shows "sum_list (map f (update_where P g rows)) = sum_list (map f rows) - f x + f (g x)"
  using assms
proof (induction rows)
  case Nil
  then show ?case by simp
next
  case (Cons row rows)
  show ?case
  proof (cases "row = x")
    case True
    have "k x \<notin> k ` set rows" using Cons.prems(1) True by simp
    then have "\<not> P r" if "r \<in> set rows" for r using Cons.prems(3) [of r] that by (metis imageI)
    then have "update_where P g rows = rows" by (simp add: update_where_def map_idI)
    moreover have "P x" using Cons.prems(3) [of x] by simp
    ultimately show ?thesis using True by (simp add: update_where_def)
  next
    case False
    then have x: "x \<in> set rows" using Cons.prems(2) by simp
    then have "k row \<noteq> k x" using Cons.prems(1) by (metis distinct.simps(2) imageI list.simps(9) list.set_map)
    then have "\<not> P row" using Cons.prems(3) [of row] by simp
    moreover have "distinct (map k rows)" using Cons.prems(1) by simp
    ultimately show ?thesis using Cons.IH [OF _ x Cons.prems(3)] by (simp add: update_where_def)
  qed
qed

lemma find_distinct:
  assumes "distinct (map k rows)" "x \<in> set rows" "\<And>row. P row \<longleftrightarrow> k row = k x"
  shows "find P rows = Some x"
  using assms
proof (induction rows)
  case (Cons row rows)
  show ?case
  proof (cases "row = x")
    case False
    then have x: "x \<in> set rows" using Cons.prems(2) by simp
    then have "k row \<noteq> k x" using Cons.prems(1) by (metis distinct.simps(2) imageI list.simps(9) list.set_map)
    then show ?thesis using Cons.IH [OF _ x Cons.prems(3)] Cons.prems(1) Cons.prems(3) [of row] by simp
  qed (use Cons.prems(3) [of x] in simp)
qed simp

definition interval_key :: "interval_row \<Rightarrow> string \<times> string" where
  "interval_key i = (qi_snapshot_id i, qi_window_kind i)"

lemma same_interval_key: "same_interval a b \<longleftrightarrow> interval_key b = interval_key a"
  by (auto simp: same_interval_def interval_key_def)

text \<open>What the intervals of a group attribute to it: one sample each, with usage and activity.\<close>

definition attributed :: "(interval_row \<Rightarrow> bool) \<Rightarrow> (interval_row \<Rightarrow> int) \<Rightarrow> interval_row list \<Rightarrow> int" where
  "attributed P w rows = sum_list (map (\<lambda>i. if P i \<and> 0 < qi_active_ms i then w i else 0) rows)"

definition zero_lifetime :: lifetime_row where
  "zero_lifetime = \<lparr>ql_samples = 0, ql_used_percent = 0, ql_active_ms = 0\<rparr>"

definition lifetime_of :: "lifetime_row option \<Rightarrow> lifetime_row" where
  "lifetime_of row = (case row of None \<Rightarrow> zero_lifetime | Some r \<Rightarrow> r)"

text \<open>A lifetime row covers a group: it is at least the sum over the intervals kept.\<close>

definition covers :: "lifetime_row option \<Rightarrow> (interval_row \<Rightarrow> bool) \<Rightarrow> interval_row list \<Rightarrow> bool" where
  "covers row P rows \<longleftrightarrow>
     attributed P (\<lambda>_. 1) rows \<le> ql_samples (lifetime_of row)
     \<and> attributed P qi_used_percent rows \<le> ql_used_percent (lifetime_of row)
     \<and> attributed P qi_active_ms rows \<le> ql_active_ms (lifetime_of row)"

definition interval_ok :: "interval_row \<Rightarrow> bool" where
  "interval_ok i \<longleftrightarrow> proper (qi_spans i) \<and> separated (qi_spans i) \<and> qi_active_ms i = active_time (qi_spans i)
     \<and> 0 \<le> qi_used_percent i \<and> qi_model i \<noteq> Some ''unknown''"

definition of_account :: "string \<times> string \<Rightarrow> interval_row \<Rightarrow> bool" where
  "of_account k i \<longleftrightarrow> (qi_account_id i, qi_window_kind i) = k"

definition of_model :: "string \<times> string \<times> string \<Rightarrow> interval_row \<Rightarrow> bool" where
  "of_model k i \<longleftrightarrow> (\<exists>m. qi_model i = Some m \<and> m \<noteq> [] \<and> (qi_account_id i, m, qi_window_kind i) = k)"

definition intervals_inv :: "broker_db \<Rightarrow> bool" where
  "intervals_inv db \<longleftrightarrow>
     distinct (map interval_key (t_quota_intervals db)) \<and> (\<forall>i\<in>set (t_quota_intervals db). interval_ok i)
     \<and> (\<forall>k. covers (t_quota_lifetime db k) (of_account k) (t_quota_intervals db))
     \<and> (\<forall>k. covers (t_quota_model_lifetime db k) (of_model k) (t_quota_intervals db))"

lemma interval_active_nonneg: "interval_ok i \<Longrightarrow> 0 \<le> qi_active_ms i"
  by (simp add: interval_ok_def active_time_nonneg)

text \<open>A sum of shares that are not negative is at least each of them.\<close>

lemma attributed_ge:
  assumes "x \<in> set rows" "P x" "0 < qi_active_ms x" "\<forall>i\<in>set rows. 0 \<le> w i"
  shows "w x \<le> attributed P w rows"
proof -
  have "(if P x \<and> 0 < qi_active_ms x then w x else 0) \<le> attributed P w rows"
    unfolding attributed_def by (rule member_le_sum_list) (use assms in auto)
  then show ?thesis using assms by simp
qed

lemma attributed_nonneg: "\<forall>i\<in>set rows. 0 \<le> w i \<Longrightarrow> 0 \<le> attributed P w rows"
  unfolding attributed_def by (intro sum_list_nonneg) auto

lemma attributed_filter_le: "\<forall>i\<in>set rows. 0 \<le> w i \<Longrightarrow> attributed P w (filter Q rows) \<le> attributed P w rows"
  unfolding attributed_def by (induction rows) auto

text \<open>The change of one interval moves its share.\<close>

definition share :: "(interval_row \<Rightarrow> bool) \<Rightarrow> (interval_row \<Rightarrow> int) \<Rightarrow> interval_row \<Rightarrow> int" where
  "share P w i = (if P i \<and> 0 < qi_active_ms i then w i else 0)"

lemma attributed_update:
  assumes "distinct (map interval_key rows)" "x \<in> set rows" "interval_key i = interval_key x"
  shows "attributed P w (update_where (same_interval i) g rows) = attributed P w rows - share P w x + share P w (g x)"
  unfolding attributed_def share_def
  using sum_list_update_where [of interval_key rows x "same_interval i" "\<lambda>i. if P i \<and> 0 < qi_active_ms i then w i else 0" g] assms
  by (simp add: same_interval_key)

text \<open>A lifetime row that moved by the share of an interval.\<close>

definition moved :: "lifetime_row option \<Rightarrow> lifetime_row option \<Rightarrow> int \<Rightarrow> (interval_row \<Rightarrow> bool) \<Rightarrow> interval_row \<Rightarrow> bool" where
  "moved new old c P x \<longleftrightarrow>
     ql_samples (lifetime_of new) = ql_samples (lifetime_of old) + c * share P (\<lambda>_. 1) x
     \<and> ql_used_percent (lifetime_of new) = ql_used_percent (lifetime_of old) + c * share P qi_used_percent x
     \<and> ql_active_ms (lifetime_of new) = ql_active_ms (lifetime_of old) + c * share P qi_active_ms x"

lemma lifetime_of_simps [simp]:
  "lifetime_of (Some row) = row" "ql_samples (lifetime_of None) = 0" "ql_used_percent (lifetime_of None) = 0"
  "ql_active_ms (lifetime_of None) = 0"
  by (simp_all add: lifetime_of_def zero_lifetime_def)

lemma add_lifetime_simps [simp]:
  "ql_samples (add_lifetime s u a old) = ql_samples (lifetime_of old) + s"
  "ql_used_percent (add_lifetime s u a old) = ql_used_percent (lifetime_of old) + u"
  "ql_active_ms (add_lifetime s u a old) = ql_active_ms (lifetime_of old) + a"
  by (cases old; simp add: add_lifetime_def)+

lemma moved_none: "\<not> (P x \<and> 0 < qi_active_ms x) \<Longrightarrow> moved t t c P x"
  by (auto simp: moved_def share_def)

lemma of_model_key: "of_model k x \<Longrightarrow> of_model k' x \<Longrightarrow> k = k'"
  by (auto simp: of_model_def)

text \<open>The shares of an interval in a row that covers its group can be taken away again.\<close>

lemma covers_share:
  assumes "covers row P rows" "x \<in> set rows" "\<forall>i\<in>set rows. interval_ok i" "P x" "0 < qi_active_ms x"
  shows "1 \<le> ql_samples (lifetime_of row)" "qi_used_percent x \<le> ql_used_percent (lifetime_of row)"
    "qi_active_ms x \<le> ql_active_ms (lifetime_of row)"
  using attributed_ge [of x rows P "\<lambda>_. 1"] attributed_ge [of x rows P qi_used_percent] attributed_ge [of x rows P qi_active_ms]
    assms interval_active_nonneg
  by (auto simp: covers_def interval_ok_def)

lemma adjust_down:
  assumes "\<forall>k. covers (t_quota_model_lifetime db k) (of_model k) rows" "x \<in> set rows" "\<forall>i\<in>set rows. interval_ok i"
    and "qi_account_id i = qi_account_id x" "qi_window_kind i = qi_window_kind x" "qi_used_percent i = qi_used_percent x"
  shows "\<exists>t. adjustModelLifetime i (qi_model x) (qi_active_ms x) False db = Inr (db\<lparr>t_quota_model_lifetime := t\<rparr>)
     \<and> (\<forall>k. moved (t k) (t_quota_model_lifetime db k) (- 1) (of_model k) x)"
proof (cases "\<exists>m. qi_model x = Some m \<and> m \<noteq> [] \<and> 0 < qi_active_ms x")
  case False
  have "0 \<le> qi_active_ms x" using assms(2,3) interval_active_nonneg by auto
  then have "adjustModelLifetime i (qi_model x) (qi_active_ms x) False db = Inr (db\<lparr>t_quota_model_lifetime := t_quota_model_lifetime db\<rparr>)"
    using False by (auto simp: adjustModelLifetime_def split: option.split)
  moreover have "moved (t_quota_model_lifetime db k) (t_quota_model_lifetime db k) (- 1) (of_model k) x" for k
    using False by (intro moved_none) (auto simp: of_model_def)
  ultimately show ?thesis by blast
next
  case True
  then obtain m where m: "qi_model x = Some m" "m \<noteq> []" and active: "0 < qi_active_ms x" by blast
  let ?k = "(qi_account_id x, m, qi_window_kind x)" and ?t = "t_quota_model_lifetime db"
  have k: "of_model ?k x" using m by (simp add: of_model_def)
  note share = covers_share [OF assms(1) [rule_format, of ?k] assms(2,3) k active]
  then obtain row where row: "?t ?k = Some row" by (cases "?t ?k") auto
  let ?new = "add_lifetime (- 1) (- qi_used_percent x) (- qi_active_ms x) (?t ?k)"
  have "lifetime_ok ?new" using share by (simp add: lifetime_ok_def)
  then have "adjustModelLifetime i (qi_model x) (qi_active_ms x) False db = Inr (db\<lparr>t_quota_model_lifetime := ?t(?k \<mapsto> ?new)\<rparr>)"
    using m active row assms(4-6) by (simp add: adjustModelLifetime_def checked_def Let_def)
  moreover have "moved ((?t(?k \<mapsto> ?new)) k) (?t k) (- 1) (of_model k) x" for k
  proof (cases "k = ?k")
    case True
    then show ?thesis using k active by (simp add: moved_def share_def)
  next
    case False
    then have "\<not> of_model k x" using k of_model_key by blast
    then show ?thesis using False by (simp add: moved_none)
  qed
  ultimately show ?thesis by blast
qed

lemma adjust_up:
  assumes "\<forall>k. lifetime_ok (lifetime_of (t_quota_model_lifetime db k))" "0 \<le> qi_active_ms x" "0 \<le> qi_used_percent x"
    "qi_model x \<noteq> Some ''unknown''"
    and "qi_account_id i = qi_account_id x" "qi_window_kind i = qi_window_kind x" "qi_used_percent i = qi_used_percent x"
  shows "\<exists>t. adjustModelLifetime i (qi_model x) (qi_active_ms x) True db = Inr (db\<lparr>t_quota_model_lifetime := t\<rparr>)
     \<and> (\<forall>k. moved (t k) (t_quota_model_lifetime db k) 1 (of_model k) x)"
proof (cases "\<exists>m. qi_model x = Some m \<and> m \<noteq> [] \<and> 0 < qi_active_ms x")
  case False
  then have "adjustModelLifetime i (qi_model x) (qi_active_ms x) True db = Inr (db\<lparr>t_quota_model_lifetime := t_quota_model_lifetime db\<rparr>)"
    using assms(2) by (auto simp: adjustModelLifetime_def split: option.split)
  moreover have "moved (t_quota_model_lifetime db k) (t_quota_model_lifetime db k) 1 (of_model k) x" for k
    using False by (intro moved_none) (auto simp: of_model_def)
  ultimately show ?thesis by blast
next
  case True
  then obtain m where m: "qi_model x = Some m" "m \<noteq> []" and active: "0 < qi_active_ms x" by blast
  let ?k = "(qi_account_id x, m, qi_window_kind x)" and ?t = "t_quota_model_lifetime db"
  have k: "of_model ?k x" using m by (simp add: of_model_def)
  let ?new = "add_lifetime 1 (qi_used_percent x) (qi_active_ms x) (?t ?k)"
  have "lifetime_ok ?new" using assms(1) [rule_format, of ?k] assms(2,3) by (simp add: lifetime_ok_def)
  then have "adjustModelLifetime i (qi_model x) (qi_active_ms x) True db = Inr (db\<lparr>t_quota_model_lifetime := ?t(?k \<mapsto> ?new)\<rparr>)"
    using m active assms(4-7) by (simp add: adjustModelLifetime_def checked_def Let_def)
  moreover have "moved ((?t(?k \<mapsto> ?new)) k) (?t k) 1 (of_model k) x" for k
  proof (cases "k = ?k")
    case True
    then show ?thesis using k active by (simp add: moved_def share_def)
  next
    case False
    then have "\<not> of_model k x" using k of_model_key by blast
    then show ?thesis using False by (simp add: moved_none)
  qed
  ultimately show ?thesis by blast
qed

text \<open>Replacing one interval, with the lifetime row moved along, keeps the row covering.\<close>

lemma covers_update:
  assumes "covers t P rows" "moved t1 t (- 1) P x" "moved t2 t1 1 P x'"
    and "distinct (map interval_key rows)" "x \<in> set rows" "interval_key i = interval_key x" "g x = x'"
  shows "covers t2 P (update_where (same_interval i) g rows)"
  using assms(1-3) attributed_update [OF assms(4-6), where g = g and P = P] assms(7)
  by (simp add: covers_def moved_def)

definition quota_frame :: "broker_db \<Rightarrow> broker_db \<Rightarrow> bool" where
  "quota_frame db db' \<longleftrightarrow>
     db' = db\<lparr>t_quota_intervals := t_quota_intervals db', t_quota_lifetime := t_quota_lifetime db',
              t_quota_model_lifetime := t_quota_model_lifetime db'\<rparr>"

lemma quota_frame_refl [simp]: "quota_frame db db"
  by (simp add: quota_frame_def)

lemma quota_frame_trans: "quota_frame a b \<Longrightarrow> quota_frame b c \<Longrightarrow> quota_frame a c"
proof -
  assume 1: "quota_frame a b" and 2: "quota_frame b c"
  show ?thesis unfolding quota_frame_def
    by (subst 2 [unfolded quota_frame_def], subst 1 [unfolded quota_frame_def]) simp
qed

lemma quota_frame_fields:
  assumes "quota_frame db db'"
  shows "t_proxy_responses db' = t_proxy_responses db" "t_proxy_usage_totals db' = t_proxy_usage_totals db"
    "t_usage_current db' = t_usage_current db" "t_accounts db' = t_accounts db"
  by (subst assms [unfolded quota_frame_def]; simp)+

lemma saveActivity_steps:
  assumes "find (same_interval i) (t_quota_intervals db) = Some p"
    and "\<not> (active_time (qi_spans i) = qi_active_ms i \<and> qi_model p = qi_model i)"
    and "adjustModelLifetime i (qi_model p) (qi_active_ms i) False db = Inr db1"
    and "adjustModelLifetime i (qi_model i) (active_time (qi_spans i)) True db1 = Inr db2"
    and "(if qi_active_ms i = 0 \<and> 0 < active_time (qi_spans i) then (1, qi_used_percent i) else (0, 0)) = (samples, used)"
    and "lifetime_ok (add_lifetime samples used (active_time (qi_spans i) - qi_active_ms i) (t_quota_lifetime db2 (qi_account_id i, qi_window_kind i)))"
  shows "saveActivity i db = Inr (db2\<lparr>t_quota_intervals := update_where (same_interval i)
        (\<lambda>row. row\<lparr>qi_active_ms := active_time (qi_spans i), qi_spans := qi_spans i, qi_model := qi_model i\<rparr>) (t_quota_intervals db2),
      t_quota_lifetime := (t_quota_lifetime db2)((qi_account_id i, qi_window_kind i) \<mapsto>
        add_lifetime samples used (active_time (qi_spans i) - qi_active_ms i) (t_quota_lifetime db2 (qi_account_id i, qi_window_kind i)))\<rparr>)"
  unfolding saveActivity_def Let_def assms(1) option.case
  by (simp only: assms(2-6) if_False sum.case Let_def prod.case checked_def if_True map_sum.simps
      broker_db.select_convs broker_db.update_convs id_apply) (simp add: assms(6) checked_def)

lemma saveActivity_ok:
  assumes inv: "intervals_inv db" and x: "x \<in> set (t_quota_intervals db)"
    and ss: "proper ss" "separated ss" "qi_active_ms x \<le> active_time ss" and m: "m \<noteq> Some ''unknown''"
  shows "\<exists>db'. saveActivity (x\<lparr>qi_spans := ss, qi_model := m\<rparr>) db = Inr db' \<and> intervals_inv db' \<and> quota_frame db db'
     \<and> (\<forall>j\<in>set (t_quota_intervals db). interval_key j \<noteq> interval_key x \<longrightarrow> j \<in> set (t_quota_intervals db'))
     \<and> map interval_key (t_quota_intervals db') = map interval_key (t_quota_intervals db)"
proof -
  let ?rows = "t_quota_intervals db" and ?i = "x\<lparr>qi_spans := ss, qi_model := m\<rparr>" and ?hi = "active_time ss"
  let ?x' = "x\<lparr>qi_active_ms := ?hi, qi_spans := ss, qi_model := m\<rparr>"
  let ?g = "\<lambda>row. row\<lparr>qi_active_ms := ?hi, qi_spans := ss, qi_model := m\<rparr>"
  let ?rows' = "update_where (same_interval ?i) ?g ?rows"
  have d: "distinct (map interval_key ?rows)" and ok: "\<forall>i\<in>set ?rows. interval_ok i"
    and cl: "\<forall>k. covers (t_quota_lifetime db k) (of_account k) ?rows"
    and cm: "\<forall>k. covers (t_quota_model_lifetime db k) (of_model k) ?rows"
    using inv by (simp_all add: intervals_inv_def)
  have key: "interval_key ?i = interval_key x" by (simp add: interval_key_def)
  have found: "find (same_interval ?i) ?rows = Some x"
    by (rule find_distinct [OF d x]) (simp add: same_interval_key key)
  have xok: "interval_ok x" using ok x by blast
  then have lo: "0 \<le> qi_active_ms x" "0 \<le> qi_used_percent x"
    using interval_active_nonneg by (auto simp: interval_ok_def)
  show ?thesis
  proof (cases "?hi = qi_active_ms x \<and> qi_model x = m")
    case True
    then have "saveActivity ?i db = Inr db" using found by (simp add: saveActivity_def Let_def)
    then show ?thesis using inv by auto
  next
    case False
    obtain t1 where t1: "adjustModelLifetime ?i (qi_model x) (qi_active_ms x) False db = Inr (db\<lparr>t_quota_model_lifetime := t1\<rparr>)"
      "\<forall>k. moved (t1 k) (t_quota_model_lifetime db k) (- 1) (of_model k) x"
      using adjust_down [OF cm x ok, of ?i] by auto
    have t1ok: "lifetime_ok (lifetime_of (t1 k))" for k
    proof (cases "of_model k x \<and> 0 < qi_active_ms x")
      case True
      then show ?thesis
        using t1(2) [rule_format, of k] covers_share [OF cm [rule_format, of k] x ok]
        by (auto simp: moved_def share_def lifetime_ok_def)
    next
      case False
      have "0 \<le> attributed (of_model k) w ?rows" if "w \<in> {\<lambda>_. 1, qi_used_percent, qi_active_ms}" for w
        by (rule attributed_nonneg) (use that ok interval_active_nonneg in \<open>auto simp: interval_ok_def\<close>)
      then have "lifetime_ok (lifetime_of (t_quota_model_lifetime db k))"
        using cm [rule_format, of k] by (fastforce simp: covers_def lifetime_ok_def)
      then show ?thesis using t1(2) [rule_format, of k] False by (auto simp: moved_def share_def lifetime_ok_def)
    qed
    obtain t2 where t2: "adjustModelLifetime ?i m ?hi True (db\<lparr>t_quota_model_lifetime := t1\<rparr>) = Inr (db\<lparr>t_quota_model_lifetime := t2\<rparr>)"
      "\<forall>k. moved (t2 k) (t1 k) 1 (of_model k) ?x'"
      using adjust_up [of "db\<lparr>t_quota_model_lifetime := t1\<rparr>" ?x' ?i] t1ok lo ss(3) m by auto
    let ?k = "(qi_account_id x, qi_window_kind x)" and ?t = "t_quota_lifetime db"
    let ?samples = "if qi_active_ms x = 0 \<and> 0 < ?hi then 1 else 0"
    let ?used = "if qi_active_ms x = 0 \<and> 0 < ?hi then qi_used_percent x else 0"
    let ?new = "add_lifetime ?samples ?used (?hi - qi_active_ms x) (?t ?k)"
    have "0 \<le> attributed (of_account ?k) w ?rows" if "w \<in> {\<lambda>_. 1, qi_used_percent, qi_active_ms}" for w
      by (rule attributed_nonneg) (use that ok interval_active_nonneg in \<open>auto simp: interval_ok_def\<close>)
    then have "lifetime_ok (lifetime_of (?t ?k))"
      using cl [rule_format, of ?k] by (fastforce simp: covers_def lifetime_ok_def)
    then have new_ok: "lifetime_ok ?new" using lo ss(3) by (auto simp: lifetime_ok_def)
    have pair: "(if qi_active_ms ?i = 0 \<and> 0 < active_time (qi_spans ?i) then (1, qi_used_percent ?i) else (0, 0)) = (?samples, ?used)"
      by simp
    let ?db = "db\<lparr>t_quota_model_lifetime := t2, t_quota_intervals := ?rows', t_quota_lifetime := ?t(?k \<mapsto> ?new)\<rparr>"
    have run: "saveActivity ?i db = Inr ?db"
      using saveActivity_steps [OF found _ _ _ pair, of "db\<lparr>t_quota_model_lifetime := t1\<rparr>" "db\<lparr>t_quota_model_lifetime := t2\<rparr>"]
        t1(1) t2(1) new_ok False by simp
    have mem: "j \<in> set ?rows'" if "j \<in> set ?rows" "interval_key j \<noteq> interval_key x" for j
      using that key by (auto simp: set_update_where same_interval_key image_iff intro!: bexI [of _ j])
    have keys: "map interval_key ?rows' = map interval_key ?rows"
      by (rule map_update_where) (simp add: interval_key_def)
    have ok': "\<forall>i\<in>set ?rows'. interval_ok i"
    proof
      fix i assume "i \<in> set ?rows'"
      then obtain j where j: "j \<in> set ?rows" "i = (if same_interval ?i j then ?g j else j)"
        by (auto simp: set_update_where)
      then show "interval_ok i" using ok ss m by (auto simp: interval_ok_def)
    qed
    have "covers (t2 k) (of_model k) ?rows'" for k
      by (rule covers_update [OF cm [rule_format] t1(2) [rule_format] t2(2) [rule_format] d x key]) simp
    moreover have "covers ((?t(?k \<mapsto> ?new)) k) (of_account k) ?rows'" for k
    proof (cases "k = ?k")
      case True
      have "of_account ?k x" "of_account ?k ?x'" by (simp_all add: of_account_def)
      then show ?thesis
        using cl [rule_format, of ?k] attributed_update [OF d x key, where g = ?g and P = "of_account ?k"] True lo ss(3)
        by (auto simp: covers_def share_def)
    next
      case False
      then have "\<not> of_account k x" "\<not> of_account k ?x'" by (auto simp: of_account_def)
      then show ?thesis
        using cl [rule_format, of k] attributed_update [OF d x key, where g = ?g and P = "of_account k"] False
        by (auto simp: covers_def share_def)
    qed
    ultimately have "intervals_inv ?db" using d keys ok' by (simp add: intervals_inv_def)
    moreover have "quota_frame db ?db" by (simp add: quota_frame_def)
    ultimately show ?thesis using run mem keys by auto
  qed
qed

text \<open>An interval about to be saved: a row of the table with more spans and another model.\<close>

definition revises :: "interval_row \<Rightarrow> interval_row \<Rightarrow> bool" where
  "revises i x \<longleftrightarrow> (\<exists>ss m. i = x\<lparr>qi_spans := ss, qi_model := m\<rparr> \<and> proper ss \<and> separated ss
     \<and> qi_active_ms x \<le> active_time ss \<and> m \<noteq> Some ''unknown'')"

lemma revises_key: "revises i x \<Longrightarrow> interval_key i = interval_key x"
  by (auto simp: revises_def interval_key_def)

lemma saveActivities_ok:
  assumes "intervals_inv db" "distinct (map interval_key is)" "\<forall>i\<in>set is. \<exists>x\<in>set (t_quota_intervals db). revises i x"
  shows "\<exists>db'. saveActivities is db = Inr db' \<and> intervals_inv db' \<and> quota_frame db db'"
  using assms
proof (induction "is" arbitrary: db)
  case Nil
  then show ?case by simp
next
  case (Cons i "is")
  obtain x where x: "x \<in> set (t_quota_intervals db)" "revises i x" using Cons.prems(3) by auto
  then obtain ss m where i: "i = x\<lparr>qi_spans := ss, qi_model := m\<rparr>" and ss: "proper ss" "separated ss"
    "qi_active_ms x \<le> active_time ss" "m \<noteq> Some ''unknown''"
    unfolding revises_def by (elim exE conjE)
  obtain db1 where db1: "saveActivity i db = Inr db1" "intervals_inv db1" "quota_frame db db1"
    "\<forall>j\<in>set (t_quota_intervals db). interval_key j \<noteq> interval_key x \<longrightarrow> j \<in> set (t_quota_intervals db1)"
    using saveActivity_ok [OF Cons.prems(1) x(1) ss] unfolding i by (elim exE conjE)
  have "\<exists>y\<in>set (t_quota_intervals db1). revises j y" if "j \<in> set is" for j
  proof -
    obtain y where y: "y \<in> set (t_quota_intervals db)" "revises j y" using Cons.prems(3) \<open>j \<in> set is\<close> by auto
    have "interval_key j \<noteq> interval_key i" using Cons.prems(2) \<open>j \<in> set is\<close> by (auto simp: image_iff)
    then have "interval_key y \<noteq> interval_key x" using revises_key [OF y(2)] revises_key [OF x(2)] by simp
    then show ?thesis using y db1(4) by blast
  qed
  then obtain db2 where "saveActivities is db1 = Inr db2" "intervals_inv db2" "quota_frame db1 db2"
    using Cons.IH [OF db1(2)] Cons.prems(2) by auto
  then show ?case using db1 quota_frame_trans by auto
qed

lemma quotaModel_known: "quotaModel current model \<noteq> Some ''unknown''"
  by (simp add: quotaModel_def split: option.split)

lemma add_activity_revises:
  assumes "interval_ok x"
  shows "revises (add_activity model start until x) x"
proof (cases "clip start until (qi_started_at_ms x) (qi_ended_at_ms x)")
  case None
  then show ?thesis
    using assms by (auto simp: add_activity_def revises_def interval_ok_def intro!: exI [of _ "qi_spans x"] exI [of _ "qi_model x"])
next
  case (Some s)
  have "proper [s]" using clip_proper [OF Some] by (simp add: proper_def)
  moreover have x: "proper (qi_spans x)" "separated (qi_spans x)" "qi_active_ms x = active_time (qi_spans x)"
    using assms by (simp_all add: interval_ok_def)
  ultimately have "proper (qi_spans x @ [s])" by (auto simp: proper_def)
  note m = mergeSpans_sound [OF this]
  have "qi_active_ms x \<le> active_time (mergeSpans (qi_spans x @ [s]))"
    using active_time_grows [OF x(2,1) \<open>proper [s]\<close>] x(3) by simp
  then show ?thesis
    unfolding revises_def add_activity_def using Some m quotaModel_known
    by (intro exI [of _ "mergeSpans (qi_spans x @ [s])"] exI [of _ "quotaModel (qi_model x) model"]) simp
qed

lemma add_activity_key [simp]: "interval_key (add_activity model start until x) = interval_key x"
  by (auto simp: add_activity_def interval_key_def split: option.split)

lemma recordQuotaActivity_ok:
  assumes "intervals_inv db"
  shows "\<exists>db'. recordQuotaActivity account model start until db = Inr db' \<and> intervals_inv db' \<and> quota_frame db db'"
proof (cases "start \<le> 0 \<or> until \<le> start")
  case True
  then show ?thesis using assms by (auto simp: recordQuotaActivity_def)
next
  case False
  let ?Q = "\<lambda>i. qi_account_id i = account \<and> qi_started_at_ms i < until \<and> start < qi_ended_at_ms i"
  let ?is = "map (add_activity model start until) (filter ?Q (t_quota_intervals db))"
  have "distinct (map interval_key ?is)"
    using assms by (simp add: intervals_inv_def comp_def distinct_map_filter)
  moreover have "\<exists>x\<in>set (t_quota_intervals db). revises i x" if i: "i \<in> set ?is" for i
  proof -
    obtain x where x: "x \<in> set (t_quota_intervals db)" "i = add_activity model start until x" using i by auto
    then have "interval_ok x" using assms by (simp add: intervals_inv_def)
    then show ?thesis using x add_activity_revises by blast
  qed
  ultimately show ?thesis using saveActivities_ok [OF assms] False by (simp add: recordQuotaActivity_def)
qed

text \<open>A new interval starts without activity, which attributes nothing.\<close>

lemma attributed_fresh: "qi_active_ms i = 0 \<Longrightarrow> attributed P w (rows @ [i]) = attributed P w rows"
  by (simp add: attributed_def)

lemma covers_fresh: "qi_active_ms i = 0 \<Longrightarrow> covers t P (rows @ [i]) = covers t P rows"
  by (simp add: covers_def attributed_fresh)

lemma open_interval_ok:
  assumes "intervals_inv db" "proper (qi_spans i)" "separated (qi_spans i)" "qi_active_ms i = 0"
    "0 \<le> qi_used_percent i" "qi_model i \<noteq> Some ''unknown''"
  shows "\<exists>db'. open_interval i db = Inr db' \<and> intervals_inv db' \<and> quota_frame db db'"
proof (cases "list_ex (same_interval i) (t_quota_intervals db)")
  case True
  then show ?thesis using assms(1) by (auto simp: open_interval_def)
next
  case False
  let ?x = "i\<lparr>qi_spans := []\<rparr>" and ?db = "db\<lparr>t_quota_intervals := t_quota_intervals db @ [i\<lparr>qi_spans := []\<rparr>]\<rparr>"
  have "interval_key ?x = interval_key i" by (simp add: interval_key_def)
  then have "interval_key ?x \<notin> interval_key ` set (t_quota_intervals db)"
    using False by (auto simp: list_ex_iff same_interval_key)
  then have "distinct (map interval_key (t_quota_intervals ?db))"
    using assms(1) by (simp add: intervals_inv_def)
  moreover have "interval_ok ?x"
    using assms by (simp add: interval_ok_def proper_def separated_def active_time_def)
  ultimately have inv: "intervals_inv ?db"
    using assms(1,4) by (simp add: intervals_inv_def covers_fresh)
  have "qi_active_ms ?x \<le> active_time (qi_spans i)" using assms(2,4) by (simp add: active_time_nonneg)
  from saveActivity_ok [OF inv _ assms(2,3) this assms(6)] obtain db' where
    "saveActivity i ?db = Inr db'" "intervals_inv db'" "quota_frame ?db db'" by auto
  moreover have "quota_frame db ?db" by (simp add: quota_frame_def)
  ultimately show ?thesis using False quota_frame_trans by (auto simp: open_interval_def)
qed

lemma set_map_filter: "y \<in> set (List.map_filter f xs) \<longleftrightarrow> (\<exists>x\<in>set xs. f x = Some y)"
  by (induction xs) (auto simp: map_filter_simps split: option.split)

lemma overlapping_proper: "proper (map fst (overlapping account start moment db))"
  unfolding proper_def
proof
  fix s
  assume "s \<in> set (map fst (overlapping account start moment db))"
  then obtain m where "(s, m) \<in> set (overlapping account start moment db)" by auto
  then have "\<exists>from to. clip from to start moment = Some s"
    unfolding overlapping_def set_map_filter by (elim bexE) (auto split: if_splits)
  then show "fst s < snd s" by (elim exE) (rule clip_proper)
qed

lemma fold_model_known:
  "current \<noteq> Some ''unknown'' \<Longrightarrow> fold (\<lambda>(_, m) model. quotaModel model m) activity current \<noteq> Some ''unknown''"
  by (induction activity arbitrary: current) (simp_all add: quotaModel_known split_beta)

lemma measured_nonneg: "\<forall>u. measured moment used reset next_used next_reset = Some u \<longrightarrow> 0 \<le> u"
  by (auto simp: measured_def split: option.splits if_splits)

lemma open_measured_ok:
  assumes "intervals_inv db" "proper spans" "separated spans" "model \<noteq> Some ''unknown''" "\<forall>u. used = Some u \<longrightarrow> 0 \<le> u"
  shows "\<exists>db'. open_measured account snapshot start spans model kind used db = Inr db' \<and> intervals_inv db' \<and> quota_frame db db'"
  using assms open_interval_ok [OF assms(1)] by (cases used) (auto simp: open_measured_def)

lemma RecordUsage_ok:
  assumes "intervals_inv db" "t_usage_current db account = Some u"
  shows "\<exists>db'. RecordUsage account snapshot db = Inr db' \<and> intervals_inv db' \<and> quota_frame db db'"
proof (cases "coalesce (uc_complete_read_at_ms u) 0 \<le> 0 \<or> qs_AtMS snapshot \<le> coalesce (uc_complete_read_at_ms u) 0
    \<or> QuotaRetention < qs_AtMS snapshot - coalesce (uc_complete_read_at_ms u) 0")
  case True
  then show ?thesis using assms by (auto simp: RecordUsage_def Let_def)
next
  case False
  let ?start = "coalesce (uc_complete_read_at_ms u) 0"
  let ?activity = "overlapping account ?start (qs_AtMS snapshot) db"
  let ?spans = "mergeSpans (map fst ?activity)" and ?model = "fold (\<lambda>(_, m) model. quotaModel model m) ?activity (Some [])"
  note m = mergeSpans_sound [OF overlapping_proper [of account ?start "qs_AtMS snapshot" db]]
  have k: "?model \<noteq> Some ''unknown''" by (rule fold_model_known) simp
  obtain db1 where 1: "open_measured account snapshot ?start ?spans ?model ''short''
      (measured (qs_AtMS snapshot) (uc_short_used_percent_raw u) (uc_short_resets_at_s u) (qs_ShortUsed snapshot) (qs_ShortReset snapshot)) db
      = Inr db1" "intervals_inv db1" "quota_frame db db1"
    using open_measured_ok [OF assms(1) m(2,1) k measured_nonneg] by blast
  obtain db2 where 2: "open_measured account snapshot ?start ?spans ?model ''weekly''
      (measured (qs_AtMS snapshot) (uc_weekly_used_percent_raw u) (uc_weekly_resets_at_s u) (qs_WeeklyUsed snapshot) (qs_WeeklyReset snapshot)) db1
      = Inr db2" "intervals_inv db2" "quota_frame db1 db2"
    using open_measured_ok [OF 1(2) m(2,1) k measured_nonneg] by blast
  have "RecordUsage account snapshot db = Inr db2"
    using False by (simp add: RecordUsage_def assms(2) Let_def 1(1) 2(1))
  then show ?thesis using 2(2) quota_frame_trans [OF 1(3) 2(3)] by blast
qed

subsection \<open>Totals of the responses\<close>

fun sum_totals :: "totals_row list \<Rightarrow> totals_row" where
  "sum_totals [] = zero_totals"
| "sum_totals (t # ts) = add_totals t (sum_totals ts)"

lemma add_totals_algebra:
  "add_totals (add_totals a b) c = add_totals a (add_totals b c)" "add_totals a b = add_totals b a"
  "add_totals zero_totals a = a" "sub_totals (add_totals a b) b = a" "sub_totals (add_totals b a) b = a"
  by (simp_all add: add_totals_def sub_totals_def zero_totals_def)

lemma sum_totals_snoc: "sum_totals (ts @ [t]) = add_totals (sum_totals ts) t"
proof (induction ts)
  case Nil
  then show ?case using add_totals_algebra(2) [of t zero_totals] by simp
next
  case (Cons a ts)
  then show ?case by (simp add: add_totals_algebra(1))
qed

lemma add_totals_ok: "totals_ok a \<Longrightarrow> totals_ok b \<Longrightarrow> totals_ok (add_totals a b)"
  by (simp add: totals_ok_def add_totals_def)

lemma sum_totals_ok: "\<forall>t\<in>set ts. totals_ok t \<Longrightarrow> totals_ok (sum_totals ts)"
  by (induction ts) (auto simp: add_totals_ok, simp add: totals_ok_def zero_totals_def)

text \<open>The totals of a model over the responses kept.\<close>

definition kept_totals :: "string \<Rightarrow> response_row list \<Rightarrow> totals_row" where
  "kept_totals model rows = sum_totals (map response_totals (filter (\<lambda>r. pr_stats_model r = model) rows))"

lemma kept_totals_snoc:
  "kept_totals model (rows @ [row]) =
     (if pr_stats_model row = model then add_totals (kept_totals model rows) (response_totals row) else kept_totals model rows)"
  by (simp add: kept_totals_def sum_totals_snoc)

lemma add_totals_left_commute: "add_totals a (add_totals b c) = add_totals b (add_totals a c)"
  by (simp add: add_totals_def)

lemma kept_totals_remove:
  assumes "distinct (map pr_request_id rows)" "row \<in> set rows"
  shows "kept_totals model rows =
     (if pr_stats_model row = model
      then add_totals (response_totals row) (kept_totals model (filter (\<lambda>r. pr_request_id r \<noteq> pr_request_id row) rows))
      else kept_totals model (filter (\<lambda>r. pr_request_id r \<noteq> pr_request_id row) rows))"
  using assms
proof (induction rows)
  case Nil
  then show ?case by simp
next
  case (Cons r rows)
  show ?case
  proof (cases "r = row")
    case True
    then have "filter (\<lambda>r. pr_request_id r \<noteq> pr_request_id row) rows = rows"
      using Cons.prems(1) by (intro filter_True) (auto simp: image_iff)
    then show ?thesis using True by (simp add: kept_totals_def)
  next
    case False
    then have row: "row \<in> set rows" using Cons.prems(2) by simp
    then have "pr_request_id r \<noteq> pr_request_id row" using Cons.prems(1) by (auto simp: image_iff)
    then show ?thesis
      using Cons.IH [OF _ row] Cons.prems(1) by (auto simp: kept_totals_def add_totals_left_commute)
  qed
qed

definition rolling_matches :: "response_row list \<Rightarrow> (string \<times> string \<Rightarrow> totals_row option) \<Rightarrow> string \<Rightarrow> bool" where
  "rolling_matches rows t model \<longleftrightarrow>
     (case t (''ROLLING_7D'', model) of
        None \<Rightarrow> \<forall>r\<in>set rows. pr_stats_model r \<noteq> model
      | Some acc \<Rightarrow> acc = kept_totals model rows)"

definition responses_inv :: "broker_db \<Rightarrow> bool" where
  "responses_inv db \<longleftrightarrow>
     distinct (map pr_request_id (t_proxy_responses db))
     \<and> (\<forall>r\<in>set (t_proxy_responses db). totals_ok (response_totals r))
     \<and> (\<forall>model. rolling_matches (t_proxy_responses db) (t_proxy_usage_totals db) model)
     \<and> (\<forall>k t. t_proxy_usage_totals db k = Some t \<longrightarrow> totals_ok t)"

definition telemetry_inv :: "broker_db \<Rightarrow> bool" where
  "telemetry_inv db \<longleftrightarrow> responses_inv db \<and> intervals_inv db"

lemma kept_totals_ok: "responses_inv db \<Longrightarrow> totals_ok (kept_totals model (t_proxy_responses db))"
  unfolding kept_totals_def by (rule sum_totals_ok) (auto simp: responses_inv_def)

lemma write_totals_ok: "totals_ok t \<Longrightarrow>
   write_totals k t db = Inr (db\<lparr>t_proxy_usage_totals := (t_proxy_usage_totals db)(k \<mapsto> t)\<rparr>)"
  by (simp add: write_totals_def)

lemma kept_totals_none: "\<forall>r\<in>set rows. pr_stats_model r \<noteq> model \<Longrightarrow> kept_totals model rows = zero_totals"
  by (simp add: kept_totals_def filter_empty_conv)

lemma intervals_inv_frame:
  "t_quota_intervals db' = t_quota_intervals db \<Longrightarrow> t_quota_lifetime db' = t_quota_lifetime db \<Longrightarrow>
   t_quota_model_lifetime db' = t_quota_model_lifetime db \<Longrightarrow> intervals_inv db' = intervals_inv db"
  by (simp add: intervals_inv_def)

lemma responses_inv_frame:
  "t_proxy_responses db' = t_proxy_responses db \<Longrightarrow> t_proxy_usage_totals db' = t_proxy_usage_totals db \<Longrightarrow>
   responses_inv db' = responses_inv db"
  by (simp add: responses_inv_def)

text \<open>Adding a response to the rolling and to the lifetime totals.\<close>

lemma add_both_ok:
  assumes inv: "responses_inv db" and new: "pr_request_id row \<notin> pr_request_id ` set (t_proxy_responses db)"
    and ok: "totals_ok (response_totals row)"
  shows "\<exists>t1 t2. addResponse ''ROLLING_7D'' row (db\<lparr>t_proxy_responses := t_proxy_responses db @ [row]\<rparr>)
        = Inr (db\<lparr>t_proxy_responses := t_proxy_responses db @ [row], t_proxy_usage_totals := t1\<rparr>)
     \<and> addResponse ''LIFETIME'' row (db\<lparr>t_proxy_responses := t_proxy_responses db @ [row], t_proxy_usage_totals := t1\<rparr>)
        = Inr (db\<lparr>t_proxy_responses := t_proxy_responses db @ [row], t_proxy_usage_totals := t2\<rparr>)
     \<and> responses_inv (db\<lparr>t_proxy_responses := t_proxy_responses db @ [row], t_proxy_usage_totals := t2\<rparr>)"
proof -
  let ?t = "t_proxy_usage_totals db" and ?m = "pr_stats_model row" and ?rows = "t_proxy_responses db"
  let ?next = "\<lambda>k. case ?t k of None \<Rightarrow> response_totals row | Some t \<Rightarrow> add_totals t (response_totals row)"
  let ?k1 = "(''ROLLING_7D'', ?m)" and ?k2 = "(''LIFETIME'', ?m)"
  let ?t1 = "?t(?k1 \<mapsto> ?next ?k1)" and ?t2 = "?t(?k1 \<mapsto> ?next ?k1, ?k2 \<mapsto> ?next ?k2)"
  have all_ok: "\<forall>k t. ?t k = Some t \<longrightarrow> totals_ok t" using inv by (simp add: responses_inv_def)
  have next_ok: "totals_ok (?next k)" for k
    using all_ok [rule_format, of k] ok by (cases "?t k") (simp_all add: add_totals_ok)
  have r1: "addResponse ''ROLLING_7D'' row (db\<lparr>t_proxy_responses := ?rows @ [row]\<rparr>)
      = Inr (db\<lparr>t_proxy_responses := ?rows @ [row], t_proxy_usage_totals := ?t1\<rparr>)"
    using next_ok [of ?k1] by (simp add: addResponse_def Let_def write_totals_def)
  have r2: "addResponse ''LIFETIME'' row (db\<lparr>t_proxy_responses := ?rows @ [row], t_proxy_usage_totals := ?t1\<rparr>)
      = Inr (db\<lparr>t_proxy_responses := ?rows @ [row], t_proxy_usage_totals := ?t2\<rparr>)"
    using next_ok [of ?k2] by (simp add: addResponse_def Let_def write_totals_def)
  have rolling: "rolling_matches (?rows @ [row]) ?t2 model" for model
  proof -
    have before: "rolling_matches ?rows ?t model" using inv by (simp add: responses_inv_def)
    show ?thesis
    proof (cases "model = ?m")
      case True
      then show ?thesis
        using before kept_totals_none [of ?rows model]
        by (cases "?t ?k1") (simp_all add: rolling_matches_def kept_totals_snoc add_totals_algebra(3))
    next
      case False
      then show ?thesis
        using before by (cases "?t (''ROLLING_7D'', model)") (simp_all add: rolling_matches_def kept_totals_snoc)
    qed
  qed
  have "\<forall>k t. ?t2 k = Some t \<longrightarrow> totals_ok t"
    using all_ok next_ok [of ?k1] next_ok [of ?k2] by auto
  then have "responses_inv (db\<lparr>t_proxy_responses := ?rows @ [row], t_proxy_usage_totals := ?t2\<rparr>)"
    using inv new ok rolling by (simp add: responses_inv_def)
  then show ?thesis using r1 r2 by blast
qed

lemma insert_response_ok:
  assumes "telemetry_inv db" and "pr_request_id row \<notin> pr_request_id ` set (t_proxy_responses db)"
    and "totals_ok (response_totals row)"
  shows "\<exists>db'. insert_response row db = Inr db' \<and> telemetry_inv db' \<and> t_proxy_responses db' = t_proxy_responses db @ [row]"
proof -
  have inv: "responses_inv db" "intervals_inv db" using assms(1) by (simp_all add: telemetry_inv_def)
  obtain t1 t2 where
    r1: "addResponse ''ROLLING_7D'' row (db\<lparr>t_proxy_responses := t_proxy_responses db @ [row]\<rparr>)
        = Inr (db\<lparr>t_proxy_responses := t_proxy_responses db @ [row], t_proxy_usage_totals := t1\<rparr>)"
    and r2: "addResponse ''LIFETIME'' row (db\<lparr>t_proxy_responses := t_proxy_responses db @ [row], t_proxy_usage_totals := t1\<rparr>)
        = Inr (db\<lparr>t_proxy_responses := t_proxy_responses db @ [row], t_proxy_usage_totals := t2\<rparr>)"
    and inv2: "responses_inv (db\<lparr>t_proxy_responses := t_proxy_responses db @ [row], t_proxy_usage_totals := t2\<rparr>)"
    using add_both_ok [OF inv(1) assms(2,3)] by blast
  let ?db = "db\<lparr>t_proxy_responses := t_proxy_responses db @ [row], t_proxy_usage_totals := t2\<rparr>"
  have "intervals_inv ?db" using inv(2) by (simp add: intervals_inv_def)
  then obtain db' where db': "recordQuotaActivity (pr_account_id row) (pr_stats_model row) (pr_upstream_started_at_ms row)
        (pr_terminal_event_at_ms row) ?db = Inr db'" "intervals_inv db'" "quota_frame ?db db'"
    using recordQuotaActivity_ok by blast
  have "insert_response row db = Inr db'" by (simp add: insert_response_def r1 r2 db'(1))
  moreover have "responses_inv db'"
    using inv2 responses_inv_frame [OF quota_frame_fields(1,2) [OF db'(3)]] by blast
  ultimately show ?thesis using db'(2) quota_frame_fields(1) [OF db'(3)] by (simp add: telemetry_inv_def)
qed

lemma response_of_ok: "response_ok json_valid v \<Longrightarrow> totals_ok (response_totals (response_of account client v))"
  by (auto simp: response_ok_def response_of_def response_totals_def totals_ok_def nonneg_def coalesce_def split: option.splits)

lemma touch_key_tables [simp]:
  "t_proxy_responses (touch_key now key db) = t_proxy_responses db"
  "t_proxy_usage_totals (touch_key now key db) = t_proxy_usage_totals db"
  "t_quota_intervals (touch_key now key db) = t_quota_intervals db"
  "t_quota_lifetime (touch_key now key db) = t_quota_lifetime db"
  "t_quota_model_lifetime (touch_key now key db) = t_quota_model_lifetime db"
  by (simp_all add: touch_key_def)

lemma telemetry_inv_touch [simp]: "telemetry_inv (touch_key now key db) = telemetry_inv db"
  unfolding telemetry_inv_def
  by (intro arg_cong2 [of _ _ _ _ "(\<and>)"] responses_inv_frame intervals_inv_frame touch_key_tables)

lemma Record_ok:
  assumes "telemetry_inv db"
  shows "\<exists>inserted. fst (Record json_valid v db) = Inr inserted"
    and "telemetry_inv (snd (Record json_valid v db))"
    and "fst (Record json_valid v db) = Inr inserted \<Longrightarrow>
      map pr_request_id (t_proxy_responses (snd (Record json_valid v db))) =
      map pr_request_id (t_proxy_responses db) @ (if inserted then [ob_RequestID v] else [])"
proof -
  let ?exists = "ob_ClientID v \<noteq> [] \<and> list_ex (\<lambda>row. ck_key_id row = ob_ClientID v) (t_client_api_keys db)"
  let ?db = "if ?exists then touch_key (ob_TerminalEventAtMS v) (ob_ClientID v) db else db"
  have db: "telemetry_inv ?db" "t_proxy_responses ?db = t_proxy_responses db" using assms by auto
  consider (unknown) "account_by_public db (ob_AccountID v) = None"
    | (skipped) a where "account_by_public db (ob_AccountID v) = Some a"
        "list_ex (\<lambda>row. pr_request_id row = ob_RequestID v) (t_proxy_responses db) \<or> \<not> response_ok json_valid v"
    | (stored) a where "account_by_public db (ob_AccountID v) = Some a"
        "\<not> (list_ex (\<lambda>row. pr_request_id row = ob_RequestID v) (t_proxy_responses db) \<or> \<not> response_ok json_valid v)"
    by blast
  then have "\<exists>inserted db'. Record json_valid v db = (Inr inserted, db') \<and> telemetry_inv db'
     \<and> map pr_request_id (t_proxy_responses db') =
       map pr_request_id (t_proxy_responses db) @ (if inserted then [ob_RequestID v] else [])"
  proof cases
    case unknown
    then show ?thesis using assms by (intro exI [of _ False] exI [of _ db]) (simp add: Record_def Write_def)
  next
    case skipped
    then have "Record json_valid v db = (Inr False, ?db)" using db(2) by (simp add: Record_def Write_def Let_def)
    then show ?thesis using db by (intro exI [of _ False] exI [of _ ?db]) simp
  next
    case stored
    let ?row = "response_of (ar_account_id a) (if ?exists then Some (ob_ClientID v) else None) v"
    have id: "pr_request_id ?row = ob_RequestID v" by (simp add: response_of_def)
    then have "pr_request_id ?row \<notin> pr_request_id ` set (t_proxy_responses ?db)"
      using stored(2) unfolding db(2) by (auto simp: list_ex_iff)
    moreover have "totals_ok (response_totals ?row)" using stored(2) response_of_ok by blast
    ultimately obtain db' where db': "insert_response ?row ?db = Inr db'" "telemetry_inv db'"
      "t_proxy_responses db' = t_proxy_responses ?db @ [?row]"
      using insert_response_ok [OF db(1)] by blast
    have "Record json_valid v db = (Inr True, db')"
      unfolding Record_def Write_def Let_def stored(1) option.case db(2) using stored(2) db'(1)
      by (simp only: if_False map_sum.simps sum.case prod.case)
    then show ?thesis using db' id unfolding db(2) by (intro exI [of _ True] exI [of _ db']) simp
  qed
  then obtain inserted' db' where r: "Record json_valid v db = (Inr inserted', db')" "telemetry_inv db'"
     "map pr_request_id (t_proxy_responses db') =
       map pr_request_id (t_proxy_responses db) @ (if inserted' then [ob_RequestID v] else [])"
    by blast
  show "\<exists>inserted. fst (Record json_valid v db) = Inr inserted" "telemetry_inv (snd (Record json_valid v db))"
    using r by auto
  show "map pr_request_id (t_proxy_responses (snd (Record json_valid v db))) =
      map pr_request_id (t_proxy_responses db) @ (if inserted then [ob_RequestID v] else [])"
    if "fst (Record json_valid v db) = Inr inserted"
    using r that by simp
qed

text \<open>Removing a response takes its share off the rolling totals, which is there to take.\<close>

lemma prune_one:
  assumes inv: "responses_inv db" and row: "row \<in> set (t_proxy_responses db)"
  shows "\<exists>t. subtractResponse row db = Inr (db\<lparr>t_proxy_usage_totals := t\<rparr>)
     \<and> responses_inv (db\<lparr>t_proxy_usage_totals := t,
          t_proxy_responses := filter (\<lambda>r. pr_request_id r \<noteq> pr_request_id row) (t_proxy_responses db)\<rparr>)"
proof -
  let ?t = "t_proxy_usage_totals db" and ?m = "pr_stats_model row" and ?rows = "t_proxy_responses db"
  let ?k = "(''ROLLING_7D'', ?m)" and ?rows' = "filter (\<lambda>r. pr_request_id r \<noteq> pr_request_id row) ?rows"
  have d: "distinct (map pr_request_id ?rows)" and rows_ok: "\<forall>r\<in>set ?rows. totals_ok (response_totals r)"
    and all_ok: "\<forall>k t. ?t k = Some t \<longrightarrow> totals_ok t" and roll: "\<And>model. rolling_matches ?rows ?t model"
    using inv by (simp_all add: responses_inv_def)
  obtain s where s: "?t ?k = Some s" "s = kept_totals ?m ?rows"
    using roll [of ?m] row by (cases "?t ?k") (auto simp: rolling_matches_def)
  have rest: "sub_totals s (response_totals row) = kept_totals ?m ?rows'"
    using s(2) kept_totals_remove [OF d row, of ?m] add_totals_algebra(5) by simp
  have "totals_ok (kept_totals ?m ?rows')"
    unfolding kept_totals_def by (rule sum_totals_ok) (use rows_ok in auto)
  then have run: "subtractResponse row db = Inr (db\<lparr>t_proxy_usage_totals := ?t(?k \<mapsto> kept_totals ?m ?rows')\<rparr>)"
    using s(1) rest by (simp add: subtractResponse_def Let_def write_totals_def)
  have "rolling_matches ?rows' (?t(?k \<mapsto> kept_totals ?m ?rows')) model" for model
  proof (cases "model = ?m")
    case False
    then show ?thesis
      using roll [of model] kept_totals_remove [OF d row, of model]
      by (cases "?t (''ROLLING_7D'', model)") (auto simp: rolling_matches_def)
  qed (simp add: rolling_matches_def)
  moreover have "distinct (map pr_request_id ?rows')" using d by (simp add: distinct_map_filter)
  ultimately have "responses_inv (db\<lparr>t_proxy_usage_totals := ?t(?k \<mapsto> kept_totals ?m ?rows'), t_proxy_responses := ?rows'\<rparr>)"
    using rows_ok all_ok \<open>totals_ok (kept_totals ?m ?rows')\<close> by (simp add: responses_inv_def)
  then show ?thesis using run by blast
qed

definition response_frame :: "broker_db \<Rightarrow> broker_db \<Rightarrow> bool" where
  "response_frame db db' \<longleftrightarrow>
     db' = db\<lparr>t_proxy_responses := t_proxy_responses db', t_proxy_usage_totals := t_proxy_usage_totals db'\<rparr>"

lemma prune_responses_ok:
  assumes "responses_inv db" "set rows \<subseteq> set (t_proxy_responses db)" "distinct (map pr_request_id rows)"
  shows "\<exists>db'. prune_responses rows db = Inr db' \<and> responses_inv db' \<and> response_frame db db'"
  using assms
proof (induction rows arbitrary: db)
  case Nil
  then show ?case by (simp add: response_frame_def)
next
  case (Cons row rows)
  then obtain t where t: "subtractResponse row db = Inr (db\<lparr>t_proxy_usage_totals := t\<rparr>)"
    "responses_inv (db\<lparr>t_proxy_usage_totals := t,
          t_proxy_responses := filter (\<lambda>r. pr_request_id r \<noteq> pr_request_id row) (t_proxy_responses db)\<rparr>)"
    using prune_one [of db row] by auto
  let ?db = "db\<lparr>t_proxy_usage_totals := t,
          t_proxy_responses := filter (\<lambda>r. pr_request_id r \<noteq> pr_request_id row) (t_proxy_responses db)\<rparr>"
  have "set rows \<subseteq> set (t_proxy_responses ?db)"
    using Cons.prems(2,3) by (auto simp: image_iff)
  then obtain db' where "prune_responses rows ?db = Inr db'" "responses_inv db'" "response_frame ?db db'"
    using Cons.IH [OF t(2)] Cons.prems(3) by auto
  then show ?case using t(1) by (intro exI [of _ db']) (simp add: response_frame_def)
qed

lemma Prune_ok:
  assumes "telemetry_inv db"
  shows "fst (Prune cutoff limit db) = Inr () \<and> telemetry_inv (snd (Prune cutoff limit db))"
proof -
  let ?rows = "take limit (sort_key pr_terminal_event_at_ms (filter (\<lambda>r. pr_terminal_event_at_ms r < cutoff) (t_proxy_responses db)))"
  have inv: "responses_inv db" "intervals_inv db" using assms by (simp_all add: telemetry_inv_def)
  have "set ?rows \<subseteq> set (t_proxy_responses db)" using set_take_subset by fastforce
  moreover have "distinct (map pr_request_id ?rows)"
  proof -
    have "distinct (map pr_request_id (filter (\<lambda>r. pr_terminal_event_at_ms r < cutoff) (t_proxy_responses db)))"
      using inv(1) by (simp add: responses_inv_def distinct_map_filter)
    then have "distinct (map pr_request_id (sort_key pr_terminal_event_at_ms (filter (\<lambda>r. pr_terminal_event_at_ms r < cutoff) (t_proxy_responses db))))"
      by (simp add: distinct_map)
    then show ?thesis by (simp add: take_map [symmetric])
  qed
  ultimately obtain db' where db': "prune_responses ?rows db = Inr db'" "responses_inv db'" "response_frame db db'"
    using prune_responses_ok [OF inv(1)] by blast
  let ?db = "db'\<lparr>t_quota_intervals := filter (\<lambda>i. \<not> qi_ended_at_ms i < cutoff) (t_quota_intervals db')\<rparr>"
  have same: "t_quota_intervals db' = t_quota_intervals db" "t_quota_lifetime db' = t_quota_lifetime db"
    "t_quota_model_lifetime db' = t_quota_model_lifetime db"
    by (subst db'(3) [unfolded response_frame_def], simp)+
  have run: "Prune cutoff limit db = (Inr (), ?db)" by (simp add: Prune_def Write_def db'(1))
  have pos: "\<forall>i\<in>set (t_quota_intervals db). 0 \<le> qi_used_percent i \<and> 0 \<le> qi_active_ms i"
    using inv(2) interval_active_nonneg by (auto simp: intervals_inv_def interval_ok_def)
  have "covers t P (filter Q (t_quota_intervals db))" if "covers t P (t_quota_intervals db)" for t P Q
    using that attributed_filter_le [of "t_quota_intervals db" "\<lambda>_. 1" P Q]
      attributed_filter_le [of "t_quota_intervals db" qi_used_percent P Q]
      attributed_filter_le [of "t_quota_intervals db" qi_active_ms P Q] pos
    by (simp add: covers_def)
  then have "intervals_inv ?db" using inv(2) by (simp add: intervals_inv_def same distinct_map_filter)
  moreover have "responses_inv ?db" using db'(2) by (simp add: responses_inv_def)
  ultimately show ?thesis using run by (simp add: telemetry_inv_def)
qed

subsection \<open>Every order of events\<close>

definition same_telemetry :: "broker_db \<Rightarrow> broker_db \<Rightarrow> bool" where
  "same_telemetry db db' \<longleftrightarrow>
     t_proxy_responses db' = t_proxy_responses db \<and> t_proxy_usage_totals db' = t_proxy_usage_totals db
     \<and> t_quota_intervals db' = t_quota_intervals db \<and> t_quota_lifetime db' = t_quota_lifetime db
     \<and> t_quota_model_lifetime db' = t_quota_model_lifetime db"

text \<open>What the rest of the broker does leaves the telemetry tables alone.\<close>

inductive telemetry_step :: "broker_db \<Rightarrow> broker_db \<Rightarrow> bool" where
  recorded: "telemetry_step db (snd (Record json_valid v db))"
| read_usage: "RecordUsage account snapshot db = Inr db' \<Longrightarrow> telemetry_step db db'"
| pruned: "telemetry_step db (snd (Prune cutoff limit db))"
| elsewhere: "same_telemetry db db' \<Longrightarrow> telemetry_step db db'"

lemma empty_telemetry [simp]: "telemetry_inv empty_db"
  by (simp add: telemetry_inv_def responses_inv_def intervals_inv_def empty_db_def rolling_matches_def covers_def
      attributed_def)

lemma RecordUsage_row: "RecordUsage account snapshot db = Inr db' \<Longrightarrow> t_usage_current db account \<noteq> None"
  by (auto simp: RecordUsage_def split: option.splits)

lemma telemetry_step_inv: "telemetry_step db db' \<Longrightarrow> telemetry_inv db \<Longrightarrow> telemetry_inv db'"
proof (induction rule: telemetry_step.induct)
  case (read_usage account snapshot db db')
  obtain u where "t_usage_current db account = Some u" using RecordUsage_row [OF read_usage(1)] by auto
  then obtain db'' where "RecordUsage account snapshot db = Inr db''" "intervals_inv db''" "quota_frame db db''"
    using RecordUsage_ok [of db account u snapshot] read_usage(2) by (auto simp: telemetry_inv_def)
  then show ?case
    using read_usage responses_inv_frame [of db' db] quota_frame_fields(1,2) [of db db'] by (simp add: telemetry_inv_def)
next
  case (elsewhere db db')
  then show ?case
    using responses_inv_frame [of db' db] intervals_inv_frame [of db' db]
    by (simp add: telemetry_inv_def same_telemetry_def)
qed (use Record_ok(2) Prune_ok in auto)

interpretation telemetry: inv_system "\<lambda>db. db = empty_db" telemetry_step telemetry_inv
  by unfold_locales (auto intro: telemetry_step_inv)


definition ex_observation :: Observation where
  "ex_observation = \<lparr>ob_RequestID = ''r1'', ob_AccountID = ''pa'', ob_ClientID = [], ob_ThreadID = [], ob_TurnID = [],
     ob_Endpoint = ''/responses'', ob_RequestModel = ''m'', ob_ReasoningEffort = [], ob_RequestServiceTier = [],
     ob_PreviousResponseID = [], ob_ResponseID = [], ob_ResponseModel = [], ob_ResponseServiceTier = [],
     ob_TerminalStatus = ''completed'', ob_UpstreamAttempts = 1, ob_UpstreamHTTPStatus = 200,
     ob_RequestStartedAtMS = 10, ob_UpstreamStartedAtMS = 20, ob_ResponseHeadersAtMS = 30,
     ob_FirstResponseEventAtMS = 40, ob_TerminalEventAtMS = 90, ob_InputTokens = Some 5, ob_CachedInputTokens = None,
     ob_OutputTokens = Some 7, ob_ReasoningTokens = None, ob_TotalTokens = Some 12, ob_UsageJSON = []\<rparr>"

definition ex_telemetry_db :: broker_db where
  "ex_telemetry_db = empty_db\<lparr>t_accounts := [\<lparr>ar_account_id = ''a'', ar_public_token = ''pa'', ar_display_name = ''a'',
     ar_workspace_constraint = None, ar_enabled = True, ar_created_at_ms = 1, ar_deleted_at_ms = None,
     ar_lifecycle_state = ''ACTIVE'', ar_preferred_login_method = ''CHATGPT_DEVICE_CODE'', ar_last_successful_login_method = None\<rparr>]\<rparr>"


end
