(* ===== verification/Broker_Relay.thy ===== *)
theory Broker_Relay
  imports Router_Correct Telemetry_Correct Gateway_Relay
begin

text \<open>
  internal/broker/relay.go and the relay handlers of internal/httpserver/relay.go: the primary's
  side of the relay protocol. A snapshot tells a relay every client key with its account scope
  and the leases it may route, one of them possibly a held account reserved for that relay under
  a permit; the events a relay reports later are processed once each. The handlers run after
  the relay's key was checked and its body decoded.

  The clock is one reading per request; the account the random order puts first is chosen by
  \<open>pick\<close>; the runtime of each lease is the entry of \<open>runs\<close> at the candidate's position.
\<close>

definition relayPermitLifetime :: int where "relayPermitLifetime = 2 * 60 * 60 * 1000"

text \<open>\<open>strconv.ParseInt(s, 10, 64)\<close>.\<close>

fun parse_digits :: "int \<Rightarrow> string \<Rightarrow> int option" where
  "parse_digits n [] = Some n"
| "parse_digits n (c # cs) =
     (if CHR ''0'' \<le> c \<and> c \<le> CHR ''9'' then parse_digits (10 * n + int (byte c - 48)) cs else None)"

definition ParseInt :: "string \<Rightarrow> int option" where
  "ParseInt s =
     (let (negative, digits) =
          (case s of [] \<Rightarrow> (False, []) | c # cs \<Rightarrow> if c = CHR ''-'' then (True, cs) else if c = CHR ''+'' then (False, cs) else (False, s))
      in if digits = [] then None
         else case parse_digits 0 digits of
                None \<Rightarrow> None
              | Some n \<Rightarrow> (let n = (if negative then - n else n) in if i64 n then Some n else None))"

subsection \<open>Reserves\<close>

definition prune_reservations :: "int \<Rightarrow> broker_db \<Rightarrow> broker_db" where
  "prune_reservations now db =
     db\<lparr>t_relay_reservations := filter (\<lambda>row. \<not> rv_expires_at_ms row \<le> now) (t_relay_reservations db)\<rparr>"

text \<open>The conditions both queries put on the account of a reserve.\<close>

definition reservable :: "broker_db \<Rightarrow> account_row \<Rightarrow> bool" where
  "reservable db a \<longleftrightarrow>
     ar_enabled a \<and> ar_deleted_at_ms a = None
     \<and> (case t_account_state db (ar_account_id a) of
          None \<Rightarrow> False | Some s \<Rightarrow> as_auth_state s = ''VERIFIED'' \<and> as_worker_state s = ''STOPPED'')
     \<and> (case t_usage_current db (ar_account_id a) of None \<Rightarrow> False | Some u \<Rightarrow> capacity_left u)
     \<and> cycle_of db (ar_account_id a) = Some ''HELD'' \<and> has_active_bundle db (ar_account_id a)
     \<and> t_account_quota_blocks db (ar_account_id a) = None"

definition kept_reserve :: "broker_db \<Rightarrow> string \<Rightarrow> int \<Rightarrow> string option" where
  "kept_reserve db relay now =
     map_option rv_account_id
       (find (\<lambda>row. rv_relay_id row = relay \<and> now < rv_expires_at_ms row
                    \<and> list_ex (\<lambda>a. ar_account_id a = rv_account_id row \<and> reservable db a) (t_accounts db))
          (t_relay_reservations db))"

definition free_reserves :: "broker_db \<Rightarrow> string list" where
  "free_reserves db =
     map ar_account_id
       (filter (\<lambda>a. reservable db a \<and> \<not> list_ex (\<lambda>row. rv_account_id row = ar_account_id a) (t_relay_reservations db))
          (t_accounts db))"

definition permit_epoch :: "int \<Rightarrow> string \<Rightarrow> string" where
  "permit_epoch now account = itoa now @ ''-'' @ account"

definition put_reservation :: "string \<Rightarrow> string \<Rightarrow> int \<Rightarrow> broker_db \<Rightarrow> broker_db" where
  "put_reservation relay account now db =
     (let row = \<lparr>rv_relay_id = relay, rv_account_id = account, rv_permit_epoch = permit_epoch now account,
                 rv_expires_at_ms = now + relayPermitLifetime, rv_updated_at_ms = now\<rparr>
      in db\<lparr>t_relay_reservations :=
           (if list_ex (\<lambda>r. rv_relay_id r = relay) (t_relay_reservations db)
            then update_where (\<lambda>r. rv_relay_id r = relay) (\<lambda>_. row) (t_relay_reservations db)
            else t_relay_reservations db @ [row])\<rparr>)"

text \<open>The account reserved for the relay, with the epoch of its permit.\<close>

definition reserveForRelay :: "string \<Rightarrow> int \<Rightarrow> nat \<Rightarrow> broker_db \<Rightarrow> (string \<times> string) option \<times> broker_db" where
  "reserveForRelay relay now pick db =
     (let db = prune_reservations now db;
          chosen = (case kept_reserve db relay now of
                      Some account \<Rightarrow> Some account
                    | None \<Rightarrow> (let free = free_reserves db in if free = [] then None else Some (free ! (pick mod length free))))
      in case chosen of
           None \<Rightarrow> (None, db)
         | Some account \<Rightarrow> (Some (account, permit_epoch now account), put_reservation relay account now db))"

subsection \<open>The snapshot\<close>

definition relay_client_of :: "broker_db \<Rightarrow> key_row \<Rightarrow> relay_client" where
  "relay_client_of db row =
     (let restricted = list_ex (\<lambda>l. kl_key_id l = ck_key_id row) (t_client_key_labels db) in
      \<lparr>rc_ID = ck_key_id row, rc_Name = ck_name row, rc_Prefix = ck_key_prefix row, rc_Digest = ck_secret_hash row,
       rc_Restricted = restricted, rc_StreamerMode = ck_streamer_mode row,
       rc_AllowedAccountIDs = (if restricted then AllowedAccountIDs db (ck_key_id row) else [])\<rparr>)"

definition relay_clients :: "broker_db \<Rightarrow> relay_client list" where
  "relay_clients db =
     map (relay_client_of db)
       (sort_key (\<lambda>row. (ck_created_at_ms row, ck_key_id row))
          (filter (\<lambda>row. ck_revoked_at_ms row = None) (t_client_api_keys db)))"

definition relay_lease_of :: "Account \<Rightarrow> cred_lease \<Rightarrow> int \<Rightarrow> bool \<Rightarrow> string \<Rightarrow> int \<Rightarrow> relay_lease" where
  "relay_lease_of a lease now reserve permit expiry =
     \<lparr>rl_Lease = routeLease a lease now, rl_CycleState = ac_CycleState a, rl_CreatedAtMS = ac_CreatedAtMS a,
      rl_Reserve = reserve, rl_PermitEpoch = permit, rl_PermitExpiresAtMS = expiry\<rparr>"

fun snapshot_leases :: "redactor \<Rightarrow> cred_lib \<Rightarrow> (nat \<Rightarrow> runtime_run \<times> (go_error + unit)) \<Rightarrow> int \<Rightarrow> string option \<Rightarrow> string
    \<Rightarrow> Account list \<Rightarrow> broker \<Rightarrow> relay_lease list \<times> broker" where
  "snapshot_leases red lib runs now reserveID permit [] b = ([], b)"
| "snapshot_leases red lib runs now reserveID permit (a # as) b =
     (let reserve = (reserveID = Some (ac_ID a)) in
      if exhausted a \<or> ac_CycleState a \<noteq> ''IN_CYCLE'' \<and> \<not> reserve
      then snapshot_leases red lib runs now reserveID permit as b
      else
        (let run = runs (length as) in
         case service_Lease red lib (fst run) (snd run) (ac_ID a) now False b of
           (Inl _, b) \<Rightarrow> snapshot_leases red lib runs now reserveID permit as b
         | (Inr lease, b) \<Rightarrow>
             (case snapshot_leases red lib runs now reserveID permit as b of
                (leases, b) \<Rightarrow>
                  (relay_lease_of a lease now reserve permit (now + relayPermitLifetime) # leases, b))))"

definition pool_epoch :: "broker_db \<Rightarrow> int" where
  "pool_epoch db = sum_list (map (\<lambda>a. case t_account_state db (ar_account_id a) of None \<Rightarrow> 0 | Some s \<Rightarrow> as_state_version s) (t_accounts db))"

definition RelaySnapshot :: "redactor \<Rightarrow> cred_lib \<Rightarrow> (nat \<Rightarrow> runtime_run \<times> (go_error + unit)) \<Rightarrow> int \<Rightarrow> nat \<Rightarrow> string
    \<Rightarrow> broker \<Rightarrow> Snapshot \<times> broker" where
  "RelaySnapshot red lib runs now pick relay b =
     (case reserveForRelay relay now pick (br_db b) of
        (reserve, db) \<Rightarrow>
          (let clients = relay_clients db;
               (candidates, db) = accounts [] now db;
               permit = (case reserve of None \<Rightarrow> [] | Some (_, epoch) \<Rightarrow> epoch);
               (leases, b) = snapshot_leases red lib runs now (map_option fst reserve) permit candidates (b\<lparr>br_db := db\<rparr>)
           in (\<lparr>sn_ProtocolVersion = Version, sn_SnapshotID = itoa now @ ''-'' @ relay, sn_RelayID = relay,
                sn_PoolEpoch = itoa (pool_epoch (br_db b)), sn_GeneratedAtMS = now, sn_Clients = clients, sn_Leases = leases\<rparr>, b)))"

subsection \<open>Routing for a relay's client\<close>

definition live_key :: "broker_db \<Rightarrow> string \<Rightarrow> bool" where
  "live_key db key \<longleftrightarrow> list_ex (\<lambda>row. ck_key_id row = key \<and> ck_revoked_at_ms row = None) (t_client_api_keys db)"

definition RelayRoute :: "router_config \<Rightarrow> router_env \<Rightarrow> int \<Rightarrow> string \<Rightarrow> RouteRequest \<Rightarrow> broker \<Rightarrow> route_answer \<times> broker" where
  "RelayRoute cfg env now client request b =
     (if \<not> live_key (br_db b) client
      then (Inl (NewError ''CLIENT_KEY_INVALID'' ''Client authentication failed'' 401), b)
      else Route cfg env now client request (on_db (touch_key now client) b))"

definition runes_between :: "nat \<Rightarrow> nat \<Rightarrow> string \<Rightarrow> bool" where
  "runes_between lo hi s \<longleftrightarrow> lo \<le> RuneCountInString s \<and> RuneCountInString s \<le> hi"

definition valid_route_request :: "string \<Rightarrow> RouteRequest \<Rightarrow> bool" where
  "valid_route_request client request \<longleftrightarrow>
     client \<noteq> [] \<and> RuneCountInString client \<le> 100 \<and> runes_between 1 200 (SessionID request)
     \<and> runes_between 1 200 (TurnID request) \<and> RuneCountInString (PreferredAccountID request) \<le> 100
     \<and> RuneCountInString (FailedAccountID request) \<le> 100
     \<and> (FailedAccountID request = [] \<longleftrightarrow> FailureKind request = [])
     \<and> FailureKind request \<in> {[], ''quota'', ''auth'', ''rate_limit''}"

definition relayRoute :: "router_config \<Rightarrow> router_env \<Rightarrow> int \<Rightarrow> string \<Rightarrow> RouteRequest \<Rightarrow> broker \<Rightarrow> route_answer \<times> broker" where
  "relayRoute cfg env now client request b =
     (if \<not> valid_route_request client request
      then (Inl (NewError ''RELAY_ROUTE_INVALID'' ''Relay route request is invalid'' 422), b)
      else RelayRoute cfg env now client request b)"

subsection \<open>Events\<close>

definition permit_invalid :: go_error where "permit_invalid = OtherError ''relay reserve permit is invalid''"
definition permit_expired :: go_error where "permit_expired = OtherError ''relay reserve permit expired''"

definition live_permit :: "broker_db \<Rightarrow> string \<Rightarrow> string \<Rightarrow> string \<Rightarrow> reservation_row option" where
  "live_permit db relay public epoch =
     find (\<lambda>row. rv_relay_id row = relay \<and> rv_permit_epoch row = epoch
                 \<and> list_ex (\<lambda>a. ar_account_id a = rv_account_id row \<and> ar_public_token a = public) (t_accounts db))
       (t_relay_reservations db)"

definition start_cycle :: "string \<Rightarrow> int \<Rightarrow> broker_db \<Rightarrow> broker_db" where
  "start_cycle account occurred db =
     db\<lparr>t_window_pulse_state := update_row (\<lambda>p. if pw_cycle_state p = ''HELD''
          then p\<lparr>pw_cycle_state := ''IN_CYCLE'', pw_weekly_started_at_ms := Some occurred,
                 pw_next_pulse_at_ms := Some (w64 (occurred + weeklyCycleMS)), pw_idle_observation_count := 0,
                 pw_last_error_code := None\<rparr> else p) account (t_window_pulse_state db)\<rparr>"

text \<open>The permit of an activation: the account, when it was issued and when it expires, or nothing to do.\<close>

definition activation_permit :: "string \<Rightarrow> string \<Rightarrow> string \<Rightarrow> broker_db \<Rightarrow> go_error + (string \<times> int \<times> int) option" where
  "activation_permit relay public epoch db =
     (case live_permit db relay public epoch of
        Some row \<Rightarrow> Inr (Some (rv_account_id row, rv_updated_at_ms row, rv_expires_at_ms row))
      | None \<Rightarrow>
          (case account_by_public db public of
             None \<Rightarrow> Inr None
           | Some a \<Rightarrow>
               (case t_window_pulse_state db (ar_account_id a) of
                  None \<Rightarrow> Inr None
                | Some p \<Rightarrow>
                    if pw_cycle_state p = ''IN_CYCLE'' then Inr None
                    else case Cut epoch ''-'' of
                           None \<Rightarrow> Inl permit_invalid
                         | Some (issuedText, permitAccount) \<Rightarrow>
                             (case ParseInt issuedText of
                                None \<Rightarrow> Inl permit_invalid
                              | Some issued \<Rightarrow>
                                  if permitAccount \<noteq> ar_account_id a then Inl permit_invalid
                                  else Inr (Some (ar_account_id a, issued, w64 (issued + relayPermitLifetime)))))))"

definition ActivateRelayReserve :: "string \<Rightarrow> string \<Rightarrow> string \<Rightarrow> int \<Rightarrow> int \<Rightarrow> broker_db \<Rightarrow> (go_error + unit) \<times> broker_db" where
  "ActivateRelayReserve relay public epoch occurred now =
     Write (\<lambda>db.
       case activation_permit relay public epoch db of
         Inl e \<Rightarrow> Inl e
       | Inr None \<Rightarrow> Inr ((), db)
       | Inr (Some (account, issued, expires)) \<Rightarrow>
           if occurred < w64 (issued - 5 * ms_per_minute) \<or> expires < occurred \<or> now + 5 * ms_per_minute < occurred
           then Inl permit_expired
           else
             (let db = start_cycle account occurred db;
                  db = on_state (\<lambda>s. bump_version (s\<lparr>as_last_routed_at_ms := Some occurred\<rparr>)) account db;
                  db = requestUsageRefresh account ''RELAY_RECONCILE'' (now + usageResetGrace) db
              in Inr ((), db\<lparr>t_relay_reservations :=
                    filter (\<lambda>row. \<not> (rv_relay_id row = relay \<and> rv_permit_epoch row = epoch)) (t_relay_reservations db)\<rparr>)))"

text \<open>\<open>occurred\<close> is the time of an event that arrives late, if there is one.\<close>

definition report_quota :: "Account \<Rightarrow> int option \<Rightarrow> int \<Rightarrow> broker \<Rightarrow> broker" where
  "report_quota a occurred now b =
     (case occurred of
        None \<Rightarrow> blockQuota a now b
      | Some t \<Rightarrow>
          (let now = min now t in
           if sql_gt (ac_UsageReadAt a) now then b else blockQuota a now b))"

definition exclude_b :: "string \<Rightarrow> Account \<Rightarrow> string \<Rightarrow> int \<Rightarrow> broker \<Rightarrow> go_error option \<times> broker" where
  "exclude_b key a kind now b =
     (case Write_b (exclude key a kind now) b of (Inl e, b) \<Rightarrow> (Some e, b) | (Inr _, b) \<Rightarrow> (None, b))"

definition ReportRelayFailure :: "router_env \<Rightarrow> int \<Rightarrow> string \<Rightarrow> string \<Rightarrow> string \<Rightarrow> int option \<Rightarrow> broker \<Rightarrow> go_error option \<times> broker" where
  "ReportRelayFailure env now key public kind occurred b =
     (if \<not> list_ex (\<lambda>row. ck_key_id row = key) (t_client_api_keys (br_db b)) then (None, b)
      else
        (case accounts key now (br_db b) of
           (candidates, db) \<Rightarrow>
             (let b = b\<lparr>br_db := db\<rparr> in
              case find (\<lambda>a. ac_PublicID a = public) candidates of
                None \<Rightarrow> (None, b)
              | Some a \<Rightarrow>
                  if kind = ''quota'' then (None, report_quota a occurred now b)
                  else if kind = ''auth''
                  then (case service_Lease (re_red env) (re_lib env) (fst (re_forced env)) (snd (re_forced env)) (ac_ID a) now True b of
                          (Inr _, b) \<Rightarrow> (None, b)
                        | (Inl e, b) \<Rightarrow> exclude_b key a kind now (on_db (markLeaseAuthFailure (ac_ID a) e) b))
                  else exclude_b key a kind now b)))"

definition validRelayID :: "string \<Rightarrow> bool" where
  "validRelayID value \<longleftrightarrow> value \<noteq> [] \<and> length value \<le> 80
     \<and> list_all (\<lambda>c. c \<in> set ''._-'' \<or> CHR ''0'' \<le> c \<and> c \<le> CHR ''9'' \<or> CHR ''A'' \<le> c \<and> c \<le> CHR ''Z''
                     \<or> CHR ''a'' \<le> c \<and> c \<le> CHR ''z'') value"

definition event_invalid :: "string \<Rightarrow> go_error" where
  "event_invalid detail = NewError ''RELAY_EVENT_INVALID'' detail 422"

definition process_event :: "(string \<Rightarrow> bool) \<Rightarrow> router_env \<Rightarrow> int \<Rightarrow> relay_event \<Rightarrow> broker \<Rightarrow> go_error option \<times> broker" where
  "process_event json_valid env now event b =
     (if re_Kind event = ''activation''
      then (case ActivateRelayReserve (re_RelayID event) (re_AccountID event) (re_PermitEpoch event) (re_OccurredAtMS event) now (br_db b) of
              (Inl e, db) \<Rightarrow> (Some e, b\<lparr>br_db := db\<rparr>) | (Inr _, db) \<Rightarrow> (None, b\<lparr>br_db := db\<rparr>))
      else if re_Kind event = ''failure''
      then (if re_FailureKind event \<notin> {''auth'', ''quota'', ''rate_limit''}
            then (Some (event_invalid ''Relay failure event is invalid''), b)
            else ReportRelayFailure env now (re_ClientID event) (re_AccountID event) (re_FailureKind event)
                   (Some (re_OccurredAtMS event)) b)
      else if re_Kind event = ''telemetry''
      then (case re_Observation event of
              None \<Rightarrow> (Some (event_invalid ''Relay telemetry event is invalid''), b)
            | Some v \<Rightarrow>
                (case Record json_valid v (br_db b) of
                   (Inl e, db) \<Rightarrow> (Some e, b\<lparr>br_db := db\<rparr>) | (Inr _, db) \<Rightarrow> (None, b\<lparr>br_db := db\<rparr>)))
      else (Some (event_invalid ''Relay event type is invalid''), b))"

text \<open>Each event has its own environment and clock reading.\<close>

fun process_events :: "(string \<Rightarrow> bool) \<Rightarrow> (nat \<Rightarrow> router_env \<times> int) \<Rightarrow> relay_event list \<Rightarrow> broker \<Rightarrow> go_error option \<times> broker" where
  "process_events json_valid envs [] b = (None, b)"
| "process_events json_valid envs (event # events) b =
     (if re_ID event = [] \<or> \<not> validRelayID (re_RelayID event) \<or> re_OccurredAtMS event \<le> 0
      then (Some (event_invalid ''Relay event is invalid''), b)
      else if re_ID event \<in> set (t_relay_events (br_db b)) then process_events json_valid envs events b
      else
        (case process_event json_valid (fst (envs (length events))) (snd (envs (length events))) event b of
           (Some e, b) \<Rightarrow> (Some e, b)
         | (None, b) \<Rightarrow>
             process_events json_valid envs events (on_db (\<lambda>db. db\<lparr>t_relay_events := t_relay_events db @ [re_ID event]\<rparr>) b)))"

definition relayEvents :: "(string \<Rightarrow> bool) \<Rightarrow> (nat \<Rightarrow> router_env \<times> int) \<Rightarrow> relay_event list \<Rightarrow> broker \<Rightarrow> go_error option \<times> broker" where
  "relayEvents json_valid envs events b =
     (if 100 < length events then (Some (NewError ''RELAY_EVENTS_INVALID'' ''Relay event batch is too large'' 422), b)
      else process_events json_valid envs events b)"

definition relayHeartbeat :: "int \<Rightarrow> Heartbeat \<Rightarrow> broker_db \<Rightarrow> go_error option \<times> broker_db" where
  "relayHeartbeat now hb db =
     (if \<not> validRelayID (hb_RelayID hb) \<or> hb_ProtocolVersion hb \<noteq> Version
      then (Some (NewError ''RELAY_PROTOCOL_INCOMPATIBLE'' ''Relay protocol is incompatible'' 409), db)
      else (None, db\<lparr>t_relay_heartbeats := (t_relay_heartbeats db)(hb_RelayID hb \<mapsto>
             \<lparr>rh_protocol_version = hb_ProtocolVersion hb,
              rh_snapshot_id = (if hb_SnapshotID hb = [] then None else Some (hb_SnapshotID hb)),
              rh_cache_generated_at_ms = (if hb_CacheGeneratedAtMS hb \<le> 0 then None else Some (hb_CacheGeneratedAtMS hb)),
              rh_ready = hb_Ready hb, rh_last_seen_at_ms = now\<rparr>)\<rparr>))"

end
