(* ===== verification/Broker_Relay_Correct.thy ===== *)
theory Broker_Relay_Correct
  imports Broker_Relay
begin

text \<open>
  What the primary guarantees its relays: a snapshot lets a relay route for a client exactly the
  accounts of the client's scope, and lease only accounts the primary could lease itself, a held
  one only under a permit the database holds for that relay; a relay and an account are in at
  most one reservation; and a batch of events that was accepted is not processed again when the
  relay repeats it.
\<close>

subsection \<open>Frames\<close>

text \<open>What neither a lease nor a failure nor telemetry touches.\<close>

definition relay_frame :: "broker_db \<Rightarrow> broker_db \<Rightarrow> bool" where
  "relay_frame db db' \<longleftrightarrow> t_accounts db' = t_accounts db \<and> t_relay_events db' = t_relay_events db
     \<and> t_relay_reservations db' = t_relay_reservations db"

lemma relay_frame_refl [simp]: "relay_frame db db"
  by (simp add: relay_frame_def)

lemma relay_frame_trans: "relay_frame a b \<Longrightarrow> relay_frame b c \<Longrightarrow> relay_frame a c"
  by (simp add: relay_frame_def)

lemma relay_frame_cred: "cred_frame account db db' \<Longrightarrow> relay_frame db db'"
  using cred_frame_fields [of account db db'] by (simp add: relay_frame_def)

lemma relay_frame_Lease [simp]: "relay_frame (br_db b) (br_db (snd (service_Lease red lib run answer account now force b)))"
  by (rule relay_frame_cred [OF service_Lease_frame])

lemma relay_frame_simps [simp]:
  "relay_frame db (prune_excluded now db)" "relay_frame db (block_quota_db a now db)"
  "relay_frame db (markLeaseAuthFailure account e db)" "relay_frame db (touch_key now key db)"
  by (auto simp: relay_frame_def prune_excluded_def block_quota_db_def requestUsageRefresh_def
      markLeaseAuthFailure_def markAuth_def on_state_def touch_key_def split: go_error.split)

lemma relay_frame_exclude_b: "relay_frame (br_db b) (br_db (snd (exclude_b key a kind now b)))"
  by (auto simp: exclude_b_def Write_b_def Write_def exclude_def relay_frame_def split: sum.splits prod.splits if_splits)

lemma relay_frame_report_quota [simp]: "relay_frame (br_db b) (br_db (report_quota a occurred now b))"
  by (simp add: report_quota_def Let_def split: option.split)

lemma relay_frame_failure: "relay_frame (br_db b) (br_db (snd (ReportRelayFailure env now key public kind occurred b)))"
proof -
  let ?b = "b\<lparr>br_db := prune_excluded now (br_db b)\<rparr>"
  have 1: "relay_frame (br_db b) (br_db ?b)" by simp
  have leased: "relay_frame (br_db b) (br_db (snd (case service_Lease (re_red env) (re_lib env) (fst (re_forced env)) (snd (re_forced env)) (ac_ID a) now True ?b of
      (Inr _, b) \<Rightarrow> (None, b)
    | (Inl e, b) \<Rightarrow> exclude_b key a kind now (on_db (markLeaseAuthFailure (ac_ID a) e) b))))" for a
  proof -
    obtain r b1 where l: "service_Lease (re_red env) (re_lib env) (fst (re_forced env)) (snd (re_forced env)) (ac_ID a) now True ?b = (r, b1)"
      by (cases "service_Lease (re_red env) (re_lib env) (fst (re_forced env)) (snd (re_forced env)) (ac_ID a) now True ?b") auto
    have 2: "relay_frame (br_db b) (br_db b1)"
      using relay_frame_trans [OF 1 relay_frame_Lease] l by (metis snd_conv)
    have "relay_frame (br_db b) (br_db (on_db (markLeaseAuthFailure (ac_ID a) e) b1))" for e
      using relay_frame_trans [OF 2 relay_frame_simps(3)] by simp
    then show ?thesis using 2 l relay_frame_trans [OF _ relay_frame_exclude_b] by (auto split: sum.split)
  qed
  show ?thesis
    using 1 leased relay_frame_trans [OF 1 relay_frame_exclude_b] relay_frame_trans [OF 1 relay_frame_report_quota]
    by (simp add: ReportRelayFailure_def accounts_eq Let_def split: option.split)
qed

lemma adjust_frame: "adjustModelLifetime i m active positive db = Inr db' \<Longrightarrow> relay_frame db db'"
  by (auto simp: adjustModelLifetime_def checked_def Let_def relay_frame_def split: option.splits if_splits)

lemma saveActivity_frame:
  assumes "saveActivity i db = Inr db'"
  shows "relay_frame db db'"
proof (cases "find (same_interval i) (t_quota_intervals db)")
  case (Some p)
  show ?thesis
  proof (cases "active_time (qi_spans i) = qi_active_ms i \<and> qi_model p = qi_model i")
    case False
    then obtain db1 db2 where 1: "adjustModelLifetime i (qi_model p) (qi_active_ms i) False db = Inr db1"
      "adjustModelLifetime i (qi_model i) (active_time (qi_spans i)) True db1 = Inr db2"
      using assms Some by (auto simp: saveActivity_def Let_def split: sum.splits)
    have "relay_frame db2 db'"
      using assms Some False 1 by (auto simp: saveActivity_def Let_def checked_def relay_frame_def split: if_splits)
    then show ?thesis using adjust_frame [OF 1(1)] adjust_frame [OF 1(2)] relay_frame_trans by blast
  qed (use assms Some in \<open>simp add: saveActivity_def Let_def\<close>)
qed (use assms in \<open>simp add: saveActivity_def Let_def\<close>)

lemma saveActivities_frame: "saveActivities is db = Inr db' \<Longrightarrow> relay_frame db db'"
  by (induction "is" arbitrary: db) (auto split: sum.splits dest!: saveActivity_frame intro: relay_frame_trans)

lemma addResponse_frame: "addResponse period row db = Inr db' \<Longrightarrow> relay_frame db db'"
  by (auto simp: addResponse_def Let_def write_totals_def relay_frame_def split: if_splits)

lemma insert_response_frame:
  assumes "insert_response row db = Inr db'"
  shows "relay_frame db db'"
proof -
  obtain db1 db2 where 1: "addResponse ''ROLLING_7D'' row (db\<lparr>t_proxy_responses := t_proxy_responses db @ [row]\<rparr>) = Inr db1"
    "addResponse ''LIFETIME'' row db1 = Inr db2"
    "recordQuotaActivity (pr_account_id row) (pr_stats_model row) (pr_upstream_started_at_ms row) (pr_terminal_event_at_ms row) db2 = Inr db'"
    using assms by (auto simp: insert_response_def split: sum.splits)
  have "relay_frame db2 db'"
    using 1(3) saveActivities_frame by (auto simp: recordQuotaActivity_def split: if_splits)
  moreover have "relay_frame db (db\<lparr>t_proxy_responses := t_proxy_responses db @ [row]\<rparr>)" by (simp add: relay_frame_def)
  ultimately show ?thesis
    using relay_frame_trans [OF _ addResponse_frame [OF 1(1)]] relay_frame_trans [OF _ addResponse_frame [OF 1(2)]] relay_frame_trans
    by blast
qed

lemma map_sum_Inr: "map_sum id f x = Inr y \<longleftrightarrow> (\<exists>z. x = Inr z \<and> y = f z)"
  by (cases x) auto

lemma Record_frame: "relay_frame db (snd (Record json_valid v db))"
  using relay_frame_trans [OF relay_frame_simps(4) insert_response_frame] insert_response_frame
  by (auto simp: Record_def Write_def Let_def map_sum_Inr split: option.split sum.split)

subsection \<open>Events are processed once\<close>

lemma Activate_events: "t_relay_events (snd (ActivateRelayReserve relay public epoch occurred now db)) = t_relay_events db"
  by (auto simp: ActivateRelayReserve_def Write_def Let_def start_cycle_def on_state_def requestUsageRefresh_def
      split: sum.split option.split prod.split)

lemma process_event_events:
  "t_relay_events (br_db (snd (process_event json_valid env now event b))) = t_relay_events (br_db b)"
proof -
  have "t_relay_events db' = t_relay_events db"
    if "ActivateRelayReserve relay public epoch occurred now db = (r, db')" for relay public epoch occurred db r db'
    using Activate_events [of relay public epoch occurred now db] that by simp
  moreover have "t_relay_events db' = t_relay_events db" if "Record json_valid v db = (r, db')" for v db r db'
    using Record_frame [of db json_valid v] that by (simp add: relay_frame_def)
  moreover have "t_relay_events (br_db (snd (ReportRelayFailure env now key public kind occurred b))) = t_relay_events (br_db b)"
    for key public kind occurred
    using relay_frame_failure by (simp add: relay_frame_def)
  ultimately show ?thesis by (auto simp: process_event_def split: sum.split prod.split option.split)
qed

lemma process_events_done:
  "process_events json_valid envs events b = (None, b') \<Longrightarrow>
   set (t_relay_events (br_db b')) = set (t_relay_events (br_db b)) \<union> re_ID ` set events
   \<and> (\<forall>event\<in>set events. re_ID event \<noteq> [] \<and> validRelayID (re_RelayID event) \<and> 0 < re_OccurredAtMS event)"
proof (induction events arbitrary: b)
  case Nil
  then show ?case by simp
next
  case (Cons event events)
  show ?case
  proof (cases "re_ID event \<in> set (t_relay_events (br_db b))")
    case True
    then show ?thesis using Cons by (auto split: if_splits)
  next
    case False
    then obtain b1 where b1: "process_event json_valid (fst (envs (length events))) (snd (envs (length events))) event b = (None, b1)"
      "process_events json_valid envs events (on_db (\<lambda>db. db\<lparr>t_relay_events := t_relay_events db @ [re_ID event]\<rparr>) b1) = (None, b')"
      and ok: "re_ID event \<noteq> []" "validRelayID (re_RelayID event)" "0 < re_OccurredAtMS event"
      using Cons.prems by (auto split: if_splits prod.splits option.splits)
    have "t_relay_events (br_db b1) = t_relay_events (br_db b)"
      using process_event_events [of json_valid "fst (envs (length events))" "snd (envs (length events))" event b] b1(1) by simp
    then show ?thesis using Cons.IH [OF b1(2)] ok by simp
  qed
qed

lemma process_events_known:
  "re_ID ` set events \<subseteq> set (t_relay_events (br_db b)) \<Longrightarrow>
   \<forall>event\<in>set events. re_ID event \<noteq> [] \<and> validRelayID (re_RelayID event) \<and> 0 < re_OccurredAtMS event \<Longrightarrow>
   process_events json_valid envs events b = (None, b)"
  by (induction events) auto

text \<open>
  C19: a batch of events that was accepted is processed once. When the relay repeats it, because
  the answer was lost, or repeats any part of it, whatever the clock and the runtime say then,
  the primary answers that it is accepted and changes nothing.
\<close>

theorem accepted_events_are_processed_once:
  assumes "relayEvents json_valid envs events b = (None, b')"
    and "set repeated \<subseteq> set events" and "length repeated \<le> 100"
  shows "relayEvents json_valid2 envs2 repeated b' = (None, b')"
proof -
  have "process_events json_valid envs events b = (None, b')"
    using assms(1) by (simp add: relayEvents_def split: if_splits)
  note processed = process_events_done [OF this]
  have "process_events json_valid2 envs2 repeated b' = (None, b')"
    by (rule process_events_known) (use processed assms(2) in auto)
  then show ?thesis using assms(3) by (simp add: relayEvents_def)
qed

subsection \<open>Reservations\<close>

definition reservations_ok :: "reservation_row list \<Rightarrow> bool" where
  "reservations_ok rows \<longleftrightarrow> distinct (map rv_relay_id rows) \<and> distinct (map rv_account_id rows)"

lemma reservations_filter: "reservations_ok rows \<Longrightarrow> reservations_ok (filter P rows)"
  by (simp add: reservations_ok_def distinct_map_filter)

lemma reservations_prune [simp]: "reservations_ok (t_relay_reservations db) \<Longrightarrow>
   reservations_ok (t_relay_reservations (prune_reservations now db))"
  by (simp add: prune_reservations_def reservations_filter)

text \<open>A reservation may be given to a relay whose own it already is, or that nobody holds.\<close>

lemma distinct_update_where:
  assumes "distinct (map f rows)" "\<forall>row\<in>set rows. f row = v \<longrightarrow> g row = k" "distinct (map g rows)" "f new = v"
  shows "distinct (map f (update_where (\<lambda>row. g row = k) (\<lambda>_. new) rows))"
  using assms
proof (induction rows)
  case (Cons row rows)
  then have IH: "distinct (map f (update_where (\<lambda>row. g row = k) (\<lambda>_. new) rows))" by simp
  show ?case
  proof (cases "g row = k")
    case True
    then have "update_where (\<lambda>row. g row = k) (\<lambda>_. new) rows = rows"
    proof -
      have "g r \<noteq> k" if "r \<in> set rows" for r using Cons.prems(3) True that by (metis distinct.simps(2) imageI list.simps(9) list.set_map)
      then show ?thesis by (simp add: update_where_def map_idI)
    qed
    moreover have "v \<notin> f ` set rows" using Cons.prems(2,3) True by (metis distinct.simps(2) image_iff list.map(2) list.set_intros(2) list.set_map)
    ultimately show ?thesis using True IH Cons.prems(4) by (simp add: update_where_def)
  next
    case False
    have "f row \<noteq> v" using Cons.prems(2) False by auto
    moreover have "f row \<notin> f ` set rows" using Cons.prems(1) by simp
    ultimately have "f row \<notin> f ` set (update_where (\<lambda>row. g row = k) (\<lambda>_. new) rows)"
      using Cons.prems(4) by (auto simp: set_update_where)
    moreover have "map f (update_where (\<lambda>row. g row = k) (\<lambda>_. new) (row # rows))
        = f row # map f (update_where (\<lambda>row. g row = k) (\<lambda>_. new) rows)"
      using False by (simp add: update_where_def)
    ultimately show ?thesis using IH by (simp only: distinct.simps set_map simp_thms)
  qed
qed (simp add: update_where_def)

lemma put_reservation_ok:
  assumes ok: "reservations_ok (t_relay_reservations db)"
    and free: "\<forall>row\<in>set (t_relay_reservations db). rv_account_id row = account \<longrightarrow> rv_relay_id row = relay"
  shows "reservations_ok (t_relay_reservations (put_reservation relay account now db))"
proof -
  let ?rows = "t_relay_reservations db"
  let ?row = "\<lparr>rv_relay_id = relay, rv_account_id = account, rv_permit_epoch = permit_epoch now account,
                 rv_expires_at_ms = now + relayPermitLifetime, rv_updated_at_ms = now\<rparr>"
  have d: "distinct (map rv_relay_id ?rows)" "distinct (map rv_account_id ?rows)" using ok by (simp_all add: reservations_ok_def)
  show ?thesis
  proof (cases "list_ex (\<lambda>r. rv_relay_id r = relay) ?rows")
    case True
    have "map rv_relay_id (update_where (\<lambda>r. rv_relay_id r = relay) (\<lambda>_. ?row) ?rows) = map rv_relay_id ?rows"
      by (rule map_update_where) simp
    moreover have "distinct (map rv_account_id (update_where (\<lambda>r. rv_relay_id r = relay) (\<lambda>_. ?row) ?rows))"
      by (rule distinct_update_where [OF d(2) free d(1)]) simp
    ultimately show ?thesis using True d by (simp add: put_reservation_def Let_def reservations_ok_def)
  next
    case False
    then have "\<forall>row\<in>set ?rows. rv_relay_id row \<noteq> relay \<and> rv_account_id row \<noteq> account"
      using free by (auto simp: list_ex_iff)
    then show ?thesis using False d by (auto simp: put_reservation_def Let_def reservations_ok_def)
  qed
qed

lemma kept_reserve_Some:
  "kept_reserve db relay now = Some account \<Longrightarrow>
   (\<exists>row\<in>set (t_relay_reservations db). rv_relay_id row = relay \<and> rv_account_id row = account)
   \<and> (\<exists>a\<in>set (t_accounts db). ar_account_id a = account \<and> reservable db a)"
  by (auto simp: kept_reserve_def find_Some_iff list_ex_iff)

lemma free_reserves_in:
  "account \<in> set (free_reserves db) \<Longrightarrow>
   (\<forall>row\<in>set (t_relay_reservations db). rv_account_id row \<noteq> account)
   \<and> (\<exists>a\<in>set (t_accounts db). ar_account_id a = account \<and> reservable db a)"
  by (auto simp: free_reserves_def list_ex_iff)

lemma free_pick: "free_reserves db \<noteq> [] \<Longrightarrow> free_reserves db ! (pick mod length (free_reserves db)) \<in> set (free_reserves db)"
  by (intro nth_mem mod_less_divisor) simp

definition held_reserve :: "broker_db \<Rightarrow> string \<Rightarrow> string \<Rightarrow> string \<Rightarrow> int \<Rightarrow> bool" where
  "held_reserve db relay account epoch now \<longleftrightarrow>
     (\<exists>row\<in>set (t_relay_reservations db). rv_relay_id row = relay \<and> rv_account_id row = account
        \<and> rv_permit_epoch row = epoch \<and> rv_expires_at_ms row = now + relayPermitLifetime)"

lemma put_reservation_held: "held_reserve (put_reservation relay account now db) relay account (permit_epoch now account) now"
proof (cases "list_ex (\<lambda>r. rv_relay_id r = relay) (t_relay_reservations db)")
  case True
  let ?row = "\<lparr>rv_relay_id = relay, rv_account_id = account, rv_permit_epoch = permit_epoch now account,
                 rv_expires_at_ms = now + relayPermitLifetime, rv_updated_at_ms = now\<rparr>"
  obtain r where r: "r \<in> set (t_relay_reservations db)" "rv_relay_id r = relay" using True by (auto simp: list_ex_iff)
  then have "?row \<in> set (t_relay_reservations (put_reservation relay account now db))"
    using True by (simp add: put_reservation_def Let_def update_where_def image_iff) (metis r)
  then show ?thesis unfolding held_reserve_def by (rule rev_bexI) simp
qed (simp add: held_reserve_def put_reservation_def Let_def)

lemma reservable_cong:
  "db' = db\<lparr>t_relay_reservations := rows\<rparr> \<Longrightarrow> reservable db' a = reservable db a"
  by (simp add: reservable_def cycle_of_def has_active_bundle_def)

lemma reserveForRelay_ok:
  assumes "reserveForRelay relay now pick db = (reserve, db')" "reservations_ok (t_relay_reservations db)"
  shows "reservations_ok (t_relay_reservations db')" "\<exists>rows. db' = db\<lparr>t_relay_reservations := rows\<rparr>"
    "reserve = Some (account, epoch) \<Longrightarrow> epoch = permit_epoch now account \<and> held_reserve db' relay account epoch now
       \<and> (\<exists>a\<in>set (t_accounts db). ar_account_id a = account \<and> reservable db a)"
proof -
  let ?db = "prune_reservations now db"
  have frame: "?db = db\<lparr>t_relay_reservations := t_relay_reservations ?db\<rparr>" by (simp add: prune_reservations_def)
  have ok: "reservations_ok (t_relay_reservations ?db)" using assms(2) by simp
  let ?chosen = "case kept_reserve ?db relay now of Some account \<Rightarrow> Some account
      | None \<Rightarrow> (let free = free_reserves ?db in if free = [] then None else Some (free ! (pick mod length free)))"
  have chosen: "(\<forall>row\<in>set (t_relay_reservations ?db). rv_account_id row = account \<longrightarrow> rv_relay_id row = relay)
      \<and> (\<exists>a\<in>set (t_accounts db). ar_account_id a = account \<and> reservable db a)" if "?chosen = Some account" for account
  proof (cases "kept_reserve ?db relay now")
    case None
    then have "account \<in> set (free_reserves ?db)" using that free_pick [of ?db pick] by (auto simp: Let_def split: if_splits)
    then show ?thesis using free_reserves_in [of account ?db] reservable_cong [OF frame] frame by (auto simp: prune_reservations_def)
  next
    case (Some k)
    then have k: "k = account" using that by simp
    then obtain row where row: "row \<in> set (t_relay_reservations ?db)" "rv_relay_id row = relay" "rv_account_id row = account"
      and a: "\<exists>a\<in>set (t_accounts ?db). ar_account_id a = account \<and> reservable ?db a"
      using kept_reserve_Some Some by blast
    have "rv_relay_id r = relay" if "r \<in> set (t_relay_reservations ?db)" "rv_account_id r = account" for r
      using ok row that unfolding reservations_ok_def by (metis distinct_map inj_onD)
    then show ?thesis using a reservable_cong [OF frame] by (auto simp: prune_reservations_def)
  qed
  have run: "(reserve, db') = (case ?chosen of None \<Rightarrow> (None, ?db)
      | Some account \<Rightarrow> (Some (account, permit_epoch now account), put_reservation relay account now ?db))"
    using assms(1) by (simp add: reserveForRelay_def Let_def)
  show "reservations_ok (t_relay_reservations db')"
    using run ok chosen put_reservation_ok [OF ok] by (auto split: option.splits)
  show "\<exists>rows. db' = db\<lparr>t_relay_reservations := rows\<rparr>"
    using run by (auto simp: put_reservation_def prune_reservations_def Let_def split: option.splits)
  show "epoch = permit_epoch now account \<and> held_reserve db' relay account epoch now
       \<and> (\<exists>a\<in>set (t_accounts db). ar_account_id a = account \<and> reservable db a)" if "reserve = Some (account, epoch)"
    using run that chosen put_reservation_held by (auto split: option.splits)
qed

subsection \<open>Snapshots\<close>

lemma snapshot_leases_frame:
  "snapshot_leases red lib runs now reserveID permit as b = (leases, b') \<Longrightarrow> relay_frame (br_db b) (br_db b')"
proof (induction "as" arbitrary: b leases b')
  case Nil
  then show ?case by simp
next
  case (Cons a "as")
  obtain r b1 where l: "service_Lease red lib (fst (runs (length as))) (snd (runs (length as))) (ac_ID a) now False b = (r, b1)"
    by (cases "service_Lease red lib (fst (runs (length as))) (snd (runs (length as))) (ac_ID a) now False b") auto
  have 1: "relay_frame (br_db b) (br_db b1)"
    using relay_frame_Lease [of b red lib "fst (runs (length as))" "snd (runs (length as))" "ac_ID a" now False] l by simp
  obtain leases' b2 where rest: "snapshot_leases red lib runs now reserveID permit as b1 = (leases', b2)" by fastforce
  show ?case
    using Cons.prems Cons.IH l rest relay_frame_trans [OF 1 Cons.IH [OF rest]]
    by (auto simp: Let_def split: if_splits sum.splits)
qed

definition lease_source :: "cred_lib \<Rightarrow> int \<Rightarrow> string option \<Rightarrow> string \<Rightarrow> Account \<Rightarrow> relay_lease \<Rightarrow> bool" where
  "lease_source lib now reserveID permit a item \<longleftrightarrow>
     \<not> exhausted a \<and> (ac_CycleState a = ''IN_CYCLE'' \<or> reserveID = Some (ac_ID a))
     \<and> (\<exists>cl db. item = relay_lease_of a cl now (reserveID = Some (ac_ID a)) permit (now + relayPermitLifetime)
           \<and> lease_grounded lib now (ac_ID a) cl db)"

lemma snapshot_leases_mem:
  "snapshot_leases red lib runs now reserveID permit as b = (leases, b') \<Longrightarrow> item \<in> set leases \<Longrightarrow>
   \<exists>a\<in>set as. lease_source lib now reserveID permit a item"
proof (induction "as" arbitrary: b leases b')
  case Nil
  then show ?case by simp
next
  case (Cons a "as")
  let ?reserve = "reserveID = Some (ac_ID a)"
  obtain r b1 where l: "service_Lease red lib (fst (runs (length as))) (snd (runs (length as))) (ac_ID a) now False b = (r, b1)"
    by (cases "service_Lease red lib (fst (runs (length as))) (snd (runs (length as))) (ac_ID a) now False b") auto
  obtain leases1 b2 where rest: "snapshot_leases red lib runs now reserveID permit as b1 = (leases1, b2)" by fastforce
  show ?case
  proof (cases "exhausted a \<or> ac_CycleState a \<noteq> ''IN_CYCLE'' \<and> \<not> ?reserve")
    case True
    then have "snapshot_leases red lib runs now reserveID permit as b = (leases, b')"
      using Cons.prems(1) by (simp only: snapshot_leases.simps Let_def if_True)
    from Cons.IH [OF this Cons.prems(2)] show ?thesis by auto
  next
    case False
    show ?thesis
    proof (cases r)
      case (Inl e)
      then have "leases = leases1" using Cons.prems(1) False l rest by (simp add: Let_def)
      then show ?thesis using Cons.IH [OF rest] Cons.prems(2) by auto
    next
      case (Inr cl)
      then have leases: "leases = relay_lease_of a cl now ?reserve permit (now + relayPermitLifetime) # leases1"
        using Cons.prems(1) False l rest by (simp add: Let_def)
      have "lease_grounded lib now (ac_ID a) cl (br_db b1)"
        using service_Lease_grounded [of red lib "fst (runs (length as))" "snd (runs (length as))" "ac_ID a" now False b cl b1] l Inr by simp
      then have "lease_source lib now reserveID permit a (relay_lease_of a cl now ?reserve permit (now + relayPermitLifetime))"
        using False unfolding lease_source_def by blast
      then show ?thesis using Cons.IH [OF rest] Cons.prems(2) leases by auto
    qed
  qed
qed

lemma RelaySnapshot_parts:
  assumes "RelaySnapshot red lib runs now pick relay b = (snapshot, b')"
  obtains reserve db b1 where "reserveForRelay relay now pick (br_db b) = (reserve, db)"
    "snapshot_leases red lib runs now (map_option fst reserve) (case reserve of None \<Rightarrow> [] | Some (_, epoch) \<Rightarrow> epoch)
       (read_accounts [] now (prune_excluded now db)) (b\<lparr>br_db := prune_excluded now db\<rparr>) = (sn_Leases snapshot, b')"
    "sn_Clients snapshot = relay_clients db" "sn_ProtocolVersion snapshot = Version" "sn_RelayID snapshot = relay"
    "sn_GeneratedAtMS snapshot = now"
  using assms by (auto simp: RelaySnapshot_def accounts_eq Let_def split: prod.splits)

lemma find_sorted_key:
  assumes "distinct (map ck_key_id (t_client_api_keys db))"
  shows "find (\<lambda>client. rc_ID client = key) (relay_clients db) =
    map_option (relay_client_of db) (find (\<lambda>row. ck_key_id row = key \<and> ck_revoked_at_ms row = None) (t_client_api_keys db))"
proof -
  let ?live = "filter (\<lambda>row. ck_revoked_at_ms row = None) (t_client_api_keys db)"
  let ?rows = "sort_key (\<lambda>row. (ck_created_at_ms row, ck_key_id row)) ?live"
  have d: "distinct (map ck_key_id ?rows)"
    using assms by (simp add: distinct_map inj_on_def)
  have "find (\<lambda>client. rc_ID client = key) (map (relay_client_of db) rows)
      = map_option (relay_client_of db) (find (\<lambda>row. ck_key_id row = key) rows)" for rows
    by (induction rows) (auto simp: relay_client_of_def Let_def)
  moreover have "find (\<lambda>row. ck_key_id row = key) ?rows = find (\<lambda>row. ck_key_id row = key \<and> ck_revoked_at_ms row = None) (t_client_api_keys db)"
  proof (cases "find (\<lambda>row. ck_key_id row = key \<and> ck_revoked_at_ms row = None) (t_client_api_keys db)")
    case None
    then have "find (\<lambda>row. ck_key_id row = key) ?rows = None" by (auto simp: find_None_iff)
    then show ?thesis using None by simp
  next
    case (Some row)
    then have row: "row \<in> set ?rows" "ck_key_id row = key" by (auto simp: find_Some_iff)
    show ?thesis using find_distinct [OF d row(1), of "\<lambda>r. ck_key_id r = key"] row(2) Some by simp
  qed
  ultimately show ?thesis by (simp add: relay_clients_def)
qed

lemma allowed_by_snapshot:
  assumes "distinct (map ck_key_id (t_client_api_keys db))" "distinct (map ar_public_token (t_accounts db))"
    and "a \<in> set (t_accounts db)" "ar_deleted_at_ms a = None" "sn_Clients (st_Snapshot s) = relay_clients db"
  shows "allowed s key (ar_public_token a) \<longleftrightarrow> live_key db key \<and> account_scope db key (ar_account_id a)"
proof (cases "find (\<lambda>row. ck_key_id row = key \<and> ck_revoked_at_ms row = None) (t_client_api_keys db)")
  case None
  then have "\<not> live_key db key" by (auto simp: live_key_def find_None_iff list_ex_iff)
  then show ?thesis using None find_sorted_key [OF assms(1), of key] assms(5) by (simp add: allowed_def)
next
  case (Some row)
  then have "live_key db key" "ck_key_id row = key" by (auto simp: live_key_def find_Some_iff list_ex_iff)
  moreover have "allowed s key (ar_public_token a) \<longleftrightarrow>
      \<not> rc_Restricted (relay_client_of db row) \<or> ar_public_token a \<in> set (rc_AllowedAccountIDs (relay_client_of db row))"
    using Some find_sorted_key [OF assms(1), of key] assms(5) by (simp add: allowed_def)
  ultimately show ?thesis
    using AllowedAccountIDs_iff [OF assms(2-4)] account_scope_unrestricted [of key db]
    by (auto simp: relay_client_of_def Let_def)
qed

lemma routable_reservations:
  "db' = db\<lparr>t_relay_reservations := rows\<rparr> \<Longrightarrow> routable_account db' key a = routable_account db key a"
  by (simp add: routable_account_def is_cycle_member_def has_active_bundle_def account_scope_def key_rule_covers_def)

lemma routable_prune [simp]: "routable_account (prune_excluded now db) key a = routable_account db key a"
  by (simp add: prune_excluded_def routable_account_def is_cycle_member_def has_active_bundle_def account_scope_def key_rule_covers_def)

text \<open>
  C20: a relay routes for a client exactly what the primary would. After a snapshot is installed,
  the relay allows a client on an account if and only if the client's key is live at the primary
  and the account lies in its scope; a key that was revoked is not known to the relay at all.
\<close>

theorem relay_allows_exactly_the_scope:
  assumes "RelaySnapshot red lib runs now pick relay b = (snapshot, b')" and "st_Snapshot s = snapshot"
    and "distinct (map ck_key_id (t_client_api_keys (br_db b)))" "distinct (map ar_public_token (t_accounts (br_db b)))"
    and "reservations_ok (t_relay_reservations (br_db b))"
    and "a \<in> set (t_accounts (br_db b))" "ar_deleted_at_ms a = None"
  shows "allowed s key (ar_public_token a) \<longleftrightarrow> live_key (br_db b) key \<and> account_scope (br_db b) key (ar_account_id a)"
  using assms(1)
proof (rule RelaySnapshot_parts)
  fix reserve db
  assume r: "reserveForRelay relay now pick (br_db b) = (reserve, db)" and clients: "sn_Clients snapshot = relay_clients db"
  obtain rows where db: "db = (br_db b)\<lparr>t_relay_reservations := rows\<rparr>" using reserveForRelay_ok(2) [OF r assms(5)] by blast
  have "allowed s key (ar_public_token a) \<longleftrightarrow> live_key db key \<and> account_scope db key (ar_account_id a)"
    by (rule allowed_by_snapshot) (use assms clients in \<open>simp_all add: db\<close>)
  then show ?thesis by (simp add: db live_key_def account_scope_def key_rule_covers_def)
qed


subsection \<open>Permits\<close>

lemma digit_char:
  assumes "k < 10"
  shows "CHR ''0'' \<le> (char_of (48 + k :: nat) :: char) \<and> char_of (48 + k) \<le> CHR ''9'' \<and> byte (char_of (48 + k)) = 48 + k"
  using assms by (auto simp: less_eq_char_def byte_def of_char_of)

lemma parse_digits_append:
  "parse_digits n (s @ t) = (case parse_digits n s of None \<Rightarrow> None | Some m \<Rightarrow> parse_digits m t)"
  by (induction s arbitrary: n) auto

lemma parse_itoa_nat: "parse_digits 0 (itoa_nat n) = Some (int n)"
proof (induction n rule: itoa_nat.induct)
  case (1 n)
  show ?case
  proof (cases "n < 10")
    case True
    then show ?thesis using digit_char [of n] by (simp add: itoa_nat.simps [of n])
  next
    case False
    have "parse_digits 0 (itoa_nat n) = parse_digits (int (n div 10)) [char_of (48 + n mod 10)]"
      using False 1 by (simp add: itoa_nat.simps [of n] parse_digits_append)
    also have "\<dots> = Some (10 * int (n div 10) + int (n mod 10))"
      using digit_char [of "n mod 10"] by simp
    also have "10 * int (n div 10) + int (n mod 10) = int n"
      by (metis mult_div_mod_eq of_nat_add of_nat_mult of_nat_numeral)
    finally show ?thesis .
  qed
qed

lemma permit_epoch_inject:
  assumes "0 \<le> t" "0 \<le> now" "permit_epoch t account = permit_epoch now account"
  shows "t = now"
proof -
  have "itoa_nat (nat t) = itoa_nat (nat now)" using assms by (simp add: permit_epoch_def itoa_def)
  then have "int (nat t) = int (nat now)" using parse_itoa_nat by (metis option.inject)
  then show ?thesis using assms(1,2) by simp
qed

lemma apply_activations_keeps:
  "\<forall>e\<in>set outbox. re_AccountID e = rl_AccountID item \<longrightarrow> re_PermitEpoch e \<noteq> rl_PermitEpoch item \<Longrightarrow>
   item \<in> set leases \<Longrightarrow> item \<in> set (apply_activations outbox leases)"
proof (induction outbox arbitrary: leases)
  case Nil
  then show ?case by (simp add: apply_activations_def)
next
  case (Cons e outbox)
  let ?leases = "if re_Kind e \<noteq> ''activation'' then leases
    else map (\<lambda>item. if matches_permit (re_AccountID e) (re_PermitEpoch e) item then release item else item) leases"
  have "\<not> matches_permit (re_AccountID e) (re_PermitEpoch e) item" using Cons.prems(1) by (auto simp: matches_permit_def)
  then have "item \<in> set ?leases" using Cons.prems(2) by (auto simp: image_iff intro!: bexI [of _ item])
  moreover have "apply_activations (e # outbox) leases = apply_activations outbox ?leases" by (simp add: apply_activations_def)
  ultimately show ?case using Cons by simp
qed

text \<open>
  C22: the epoch of a permit is renewed with every snapshot. An activation the relay recorded under an
  earlier epoch, which still waits in its outbox, therefore matches no lease of a later snapshot:
  the overlay leaves the account marked as a reserve that is still to be activated.
\<close>

theorem renewed_permit_strands_activation:
  assumes "RelaySnapshot red lib runs now pick relay b = (snapshot, b')"
    and "reservations_ok (t_relay_reservations (br_db b))" "distinct (map ar_public_token (t_accounts (br_db b)))"
    and "item \<in> set (sn_Leases snapshot)" "rl_Reserve item"
    and "\<forall>e\<in>set outbox. \<forall>a\<in>set (t_accounts (br_db b)). re_AccountID e = ar_public_token a \<longrightarrow>
           (\<exists>t. 0 \<le> t \<and> t < now \<and> re_PermitEpoch e = permit_epoch t (ar_account_id a))"
  shows "item \<in> set (apply_activations outbox (sn_Leases snapshot))"
proof (rule apply_activations_keeps [OF _ assms(4)], intro ballI impI)
  fix e
  assume e: "e \<in> set outbox" "re_AccountID e = rl_AccountID item"
  from assms(1) show "re_PermitEpoch e \<noteq> rl_PermitEpoch item"
  proof (rule RelaySnapshot_parts)
    fix reserve db b1
    let ?db = "prune_excluded now db"
    assume r: "reserveForRelay relay now pick (br_db b) = (reserve, db)"
      and leases: "snapshot_leases red lib runs now (map_option fst reserve) (case reserve of None \<Rightarrow> [] | Some (_, epoch) \<Rightarrow> epoch)
       (read_accounts [] now ?db) (b\<lparr>br_db := ?db\<rparr>) = (sn_Leases snapshot, b')"
    obtain rows where db: "db = (br_db b)\<lparr>t_relay_reservations := rows\<rparr>" using reserveForRelay_ok(2) [OF r assms(2)] by blast
    obtain x where x: "x \<in> set (read_accounts [] now ?db)"
      and src: "lease_source lib now (map_option fst reserve) (case reserve of None \<Rightarrow> [] | Some (_, epoch) \<Rightarrow> epoch) x item"
      using snapshot_leases_mem [OF leases assms(4)] by blast
    obtain cl where item: "item = relay_lease_of x cl now (map_option fst reserve = Some (ac_ID x))
      (case reserve of None \<Rightarrow> [] | Some (_, epoch) \<Rightarrow> epoch) (now + relayPermitLifetime)"
      using src unfolding lease_source_def by blast
    obtain a s where a: "a \<in> set (t_accounts ?db)" "x = read_account ?db [] now a s"
      using x by (rule read_accounts_mem)
    have aid: "ac_ID x = ar_account_id a" "rl_AccountID item = ar_public_token a" "a \<in> set (t_accounts (br_db b))"
      using a by (simp_all add: item relay_lease_of_def prune_excluded_def db)
    have "map_option fst reserve = Some (ac_ID x)" using assms(5) by (simp add: item relay_lease_of_def)
    then obtain epoch where res: "reserve = Some (ac_ID x, epoch)" by (cases reserve) auto
    then have epoch: "rl_PermitEpoch item = permit_epoch now (ar_account_id a)"
      using reserveForRelay_ok(3) [OF r assms(2) res] by (simp add: item relay_lease_of_def aid(1))
    obtain t where t: "0 \<le> t" "t < now" "re_PermitEpoch e = permit_epoch t (ar_account_id a)"
      using assms(6) e aid by metis
    then show "re_PermitEpoch e \<noteq> rl_PermitEpoch item"
      using permit_epoch_inject [of t now "ar_account_id a"] epoch by auto
  qed
qed

subsection \<open>A relay of the pool\<close>

definition ex_key :: key_row where
  "ex_key = \<lparr>ck_key_id = ''k'', ck_name = ''laptop'', ck_key_prefix = ''cb_1'', ck_secret_hash = ''digest'',
     ck_streamer_mode = False, ck_created_at_ms = 1, ck_last_used_at_ms = None, ck_revoked_at_ms = None\<rparr>"

definition ex_primary :: broker where
  "ex_primary = ex_pool\<lparr>br_db := (br_db ex_pool)\<lparr>t_client_api_keys := [ex_key]\<rparr>\<rparr>"

abbreviation ex_primary_snapshot :: "Snapshot \<times> broker" where
  "ex_primary_snapshot \<equiv> RelaySnapshot ex_red ex_lib (\<lambda>_. (ex_run, Inr ())) 1500 0 ''edge'' ex_primary"

lemma ex_primary_ok: "reservations_ok (t_relay_reservations (br_db ex_primary))"
  "distinct (map ck_key_id (t_client_api_keys (br_db ex_primary)))" "distinct (map ar_public_token (t_accounts (br_db ex_primary)))"
  by (simp_all add: ex_primary_def ex_pool_simps reservations_ok_def)

theorem relay_allows_exactly_the_scope_witness:
  "allowed (empty_state\<lparr>st_Snapshot := fst ex_primary_snapshot\<rparr>) ''k'' ''pa''"
proof -
  have a: "ex_account ''a'' \<in> set (t_accounts (br_db ex_primary))" "ar_deleted_at_ms (ex_account ''a'') = None"
    by (simp_all add: ex_primary_def ex_pool_simps)
  have "st_Snapshot (empty_state\<lparr>st_Snapshot := fst ex_primary_snapshot\<rparr>) = fst ex_primary_snapshot" by simp
  from relay_allows_exactly_the_scope [OF surjective_pairing this ex_primary_ok(2,3,1) a, of "''k''"]
  show ?thesis by (simp add: ex_primary_def ex_key_def live_key_def account_scope_def key_rule_covers_def ex_pool_simps)
qed

lemma ex_primary_leases: "\<exists>item\<in>set (sn_Leases (fst ex_primary_snapshot)). rl_AccountID item = ''pa'' \<and> \<not> rl_Reserve item"
proof -
  let ?db = "prune_excluded 1500 (prune_reservations 1500 (br_db ex_primary))"
  have c: "read_accounts [] 1500 ?db =
     [read_account ?db [] 1500 (ex_account ''a'') ex_cred_state, read_account ?db [] 1500 (ex_account ''b'') ex_cred_state]"
    by (rule ex_candidates) (simp_all add: prune_excluded_def prune_reservations_def ex_primary_def ex_pool_simps)
  have r: "reserveForRelay ''edge'' 1500 0 (br_db ex_primary) = (None, prune_reservations 1500 (br_db ex_primary))"
    by (simp add: reserveForRelay_def Let_def kept_reserve_def free_reserves_def reservable_def prune_reservations_def
        ex_primary_def cycle_of_def ex_pool_simps)
  show ?thesis
    by (simp add: RelaySnapshot_def r accounts_eq c Let_def split_beta)
      (simp add: Let_def exhausted_def quotaBlocked_def read_account_def read_cycle_state_def spent_def sql_gt_def
        service_Lease_def read_bundle_def leaseFromPayload_def splitToken_def needs_refresh_def lease_of_bundle_def
        relay_lease_of_def routeLease_def prune_excluded_def prune_reservations_def w64_def ex_primary_def ex_pool_simps)
qed


definition ex_relay_event :: relay_event where
  "ex_relay_event = \<lparr>re_ID = ''e1'', re_RelayID = ''edge'', re_Kind = ''telemetry'', re_AccountID = [], re_ClientID = [],
     re_FailureKind = [], re_PermitEpoch = [], re_OccurredAtMS = 90, re_Observation = Some ex_observation\<rparr>"

theorem accepted_events_are_processed_once_witness:
  "\<exists>b'. relayEvents (\<lambda>_. True) (\<lambda>_. (ex_route_env, 100)) [ex_relay_event] \<lparr>br_db = ex_telemetry_db, br_published = [], br_webhooks = []\<rparr> = (None, b')
     \<and> relayEvents (\<lambda>_. True) (\<lambda>_. (ex_route_env, 200)) [ex_relay_event, ex_relay_event] b' = (None, b')"
proof -
  have "same_telemetry empty_db ex_telemetry_db" by (simp add: same_telemetry_def ex_telemetry_db_def)
  then have "telemetry_inv ex_telemetry_db" using elsewhere telemetry_step_inv empty_telemetry by blast
  then obtain i db where r: "Record (\<lambda>_. True) ex_observation ex_telemetry_db = (Inr i, db)"
    using Record_ok(1) [of ex_telemetry_db "\<lambda>_. True" ex_observation] by (metis prod.collapse)
  have "t_relay_events ex_telemetry_db = []" by (simp add: ex_telemetry_db_def empty_db_def)
  then obtain b' where b': "relayEvents (\<lambda>_. True) (\<lambda>_. (ex_route_env, 100)) [ex_relay_event]
      \<lparr>br_db = ex_telemetry_db, br_published = [], br_webhooks = []\<rparr> = (None, b')"
    by (simp add: relayEvents_def ex_relay_event_def validRelayID_def process_event_def r)
  from accepted_events_are_processed_once [OF this, of "[ex_relay_event, ex_relay_event]"] show ?thesis using b' by auto
qed

text \<open>The account a is held: the relay is given it as a reserve.\<close>

definition ex_reserve_pool :: broker where
  "ex_reserve_pool = ex_primary\<lparr>br_db := (br_db ex_primary)\<lparr>t_window_pulse_state := [''a'' \<mapsto> ex_pulse ''HELD'' None]\<rparr>\<rparr>"

definition ex_activation :: relay_event where
  "ex_activation = ex_relay_event\<lparr>re_Kind := ''activation'', re_AccountID := ''pa'', re_PermitEpoch := permit_epoch 1000 ''a''\<rparr>"

abbreviation ex_reserve_snapshot :: "Snapshot \<times> broker" where
  "ex_reserve_snapshot \<equiv> RelaySnapshot ex_red ex_lib (\<lambda>_. (ex_run, Inr ())) 1500 0 ''edge'' ex_reserve_pool"

lemma ex_reserve_leases: "\<exists>item\<in>set (sn_Leases (fst ex_reserve_snapshot)). rl_AccountID item = ''pa'' \<and> rl_Reserve item"
proof -
  let ?r = "put_reservation ''edge'' ''a'' 1500 (prune_reservations 1500 (br_db ex_reserve_pool))"
  let ?db = "prune_excluded 1500 ?r"
  have c: "read_accounts [] 1500 ?db =
     [read_account ?db [] 1500 (ex_account ''a'') ex_cred_state, read_account ?db [] 1500 (ex_account ''b'') ex_cred_state]"
    by (rule ex_candidates) (simp_all add: prune_excluded_def prune_reservations_def put_reservation_def Let_def
        ex_reserve_pool_def ex_primary_def ex_pool_simps)
  have r: "reserveForRelay ''edge'' 1500 0 (br_db ex_reserve_pool) = (Some (''a'', permit_epoch 1500 ''a''), ?r)"
    by (simp add: reserveForRelay_def Let_def kept_reserve_def free_reserves_def reservable_def prune_reservations_def
        ex_reserve_pool_def ex_primary_def cycle_of_def has_active_bundle_def capacity_left_def coalesce_def ex_pulse_def ex_pool_simps)
  show ?thesis
    by (simp add: RelaySnapshot_def r accounts_eq c Let_def split_beta)
      (simp add: Let_def exhausted_def quotaBlocked_def read_account_def read_cycle_state_def spent_def sql_gt_def
        service_Lease_def read_bundle_def leaseFromPayload_def splitToken_def needs_refresh_def lease_of_bundle_def
        relay_lease_of_def routeLease_def prune_excluded_def prune_reservations_def put_reservation_def w64_def
        ex_pulse_def ex_reserve_pool_def ex_primary_def ex_pool_simps)
qed

theorem renewed_permit_strands_activation_witness:
  "\<exists>item\<in>set (apply_activations [ex_activation] (sn_Leases (fst ex_reserve_snapshot))). rl_AccountID item = ''pa'' \<and> rl_Reserve item"
proof -
  obtain item where item: "item \<in> set (sn_Leases (fst ex_reserve_snapshot))" "rl_AccountID item = ''pa''" "rl_Reserve item"
    using ex_reserve_leases by blast
  have ok: "reservations_ok (t_relay_reservations (br_db ex_reserve_pool))"
    "distinct (map ar_public_token (t_accounts (br_db ex_reserve_pool)))"
    by (simp_all add: ex_reserve_pool_def ex_primary_def ex_pool_simps reservations_ok_def)
  have "\<forall>e\<in>set [ex_activation]. \<forall>a\<in>set (t_accounts (br_db ex_reserve_pool)). re_AccountID e = ar_public_token a \<longrightarrow>
      (\<exists>t. 0 \<le> t \<and> t < 1500 \<and> re_PermitEpoch e = permit_epoch t (ar_account_id a))"
    by (simp add: ex_reserve_pool_def ex_primary_def ex_pool_simps ex_activation_def ex_relay_event_def)
      (rule exI [of _ 1000], simp)
  from renewed_permit_strands_activation [OF surjective_pairing ok item(1,3) this] show ?thesis using item by blast
qed

end
