(* ===== verification/Broker_Gateway.thy ===== *)
theory Broker_Gateway
  imports Broker_Relay_Correct
begin

text \<open>
  The gateway in front of the broker (internal/httpserver/proxy.go, \<open>brokerGatewayAuthority\<close>):
  the broker provides the gateway's \<open>Authority\<close>, each call taking its clock reading, what the
  runtime answers and the throttle's verdict from the next entry of \<open>inputs\<close>. The contracts of
  Gateway_Correct are interpreted on it. The time of last use, which authenticating a key
  records, is not part of the gateway's interface and is left out.
\<close>

record broker_inputs =
  bi_now :: int
  bi_env :: router_env
  bi_allowed :: bool

type_synonym broker_world = "nat \<times> broker"

definition gateway_client :: "key_row \<Rightarrow> Client" where
  "gateway_client row = \<lparr>cl_ID = ck_key_id row, cl_Name = ck_name row, cl_Prefix = ck_key_prefix row,
     cl_StreamerMode = ck_streamer_mode row\<rparr>"

definition server_client :: "(string \<Rightarrow> string) \<Rightarrow> broker_inputs \<Rightarrow> string \<Rightarrow> broker_db \<Rightarrow> go_error + key_row" where
  "server_client sha256 i token db =
     (if \<not> bi_allowed i
      then Inl (NewError ''CLIENT_AUTH_THROTTLED'' ''Client authentication is temporarily unavailable'' 429)
      else if \<not> HasPrefix token ''cbk_'' then Inl key_invalid
      else fst (Client_Keys.Authenticate sha256 (bi_now i) token db))"

definition authority_Authenticate :: "(string \<Rightarrow> string) \<Rightarrow> broker_inputs \<Rightarrow> string \<Rightarrow> broker \<Rightarrow> go_error + Client" where
  "authority_Authenticate sha256 i token b = map_sum id gateway_client (server_client sha256 i token (br_db b))"

definition authority_Route :: "router_config \<Rightarrow> broker_inputs \<Rightarrow> string \<Rightarrow> RouteRequest \<Rightarrow> broker \<Rightarrow> broker \<times> route_answer" where
  "authority_Route cfg i key input b =
     (case Router.Route cfg (bi_env i) (bi_now i) key input b of
        (Inl e, b) \<Rightarrow> (b, Inl e)
      | (Inr (lease, Some wait), b) \<Rightarrow> (b, Inr (None, Some wait))
      | (Inr (lease, None), b) \<Rightarrow> (b, Inr (map_option unmarked lease, None)))"

definition authority_Observe :: "(string \<Rightarrow> bool) \<Rightarrow> Observation \<Rightarrow> broker \<Rightarrow> broker \<times> go_error option" where
  "authority_Observe json_valid v b =
     (case Record json_valid v (br_db b) of
        (Inl e, db) \<Rightarrow> (b\<lparr>br_db := db\<rparr>, Some e)
      | (Inr _, db) \<Rightarrow> (b\<lparr>br_db := db\<rparr>, None))"

definition authority_ReportFailure :: "broker_inputs \<Rightarrow> string \<Rightarrow> string \<Rightarrow> string \<Rightarrow> broker \<Rightarrow> broker \<times> go_error option" where
  "authority_ReportFailure i key account kind b =
     (case ReportRelayFailure (bi_env i) (bi_now i) key account kind None b of (e, b) \<Rightarrow> (b, e))"

definition broker_authority :: "router_config \<Rightarrow> (nat \<Rightarrow> broker_inputs) \<Rightarrow> (string \<Rightarrow> string) \<Rightarrow> (string \<Rightarrow> bool)
    \<Rightarrow> broker_world authority" where
  "broker_authority cfg inputs sha256 json_valid =
     \<lparr>au_Authenticate = (\<lambda>token (n, b). authority_Authenticate sha256 (inputs n) token b),
      au_Route = (\<lambda>key input (n, b). let (b', answer) = authority_Route cfg (inputs n) key input b in ((Suc n, b'), answer)),
      au_Observe = (\<lambda>v (n, b). let (b', e) = authority_Observe json_valid v b in ((Suc n, b'), e)),
      au_ReportFailure = (\<lambda>key account kind (n, b).
        let (b', e) = authority_ReportFailure (inputs n) key account kind b in ((Suc n, b'), e)),
      au_Activate = (\<lambda>lease w. (w, None))\<rparr>"

subsection \<open>The accounts the broker may grant\<close>

text \<open>Serving never adds an account.\<close>

definition tokens_within :: "string set \<Rightarrow> broker \<Rightarrow> bool" where
  "tokens_within accts b \<longleftrightarrow> ar_public_token ` set (t_accounts (br_db b)) \<subseteq> accts"

lemma authority_Route_ok:
  assumes "authority_Route cfg i key input b = (b', answer)" "tokens_within accts b"
  shows "tokens_within accts b'" "answer = Inr (Some lease, wait) \<Longrightarrow> AccountID lease \<in> accts"
proof -
  obtain r b1 where run: "Router.Route cfg (bi_env i) (bi_now i) key input b = (r, b1)"
    by (cases "Router.Route cfg (bi_env i) (bi_now i) key input b") auto
  have "t_accounts (br_db b1) = t_accounts (br_db b)"
    using Route_pool [of b cfg "bi_env i" "bi_now i" key input] run by (simp add: pool_frame_def)
  moreover have "b' = b1" using assms(1) run by (auto simp: authority_Route_def split: sum.splits prod.splits option.splits)
  ultimately show "tokens_within accts b'" using assms(2) by (simp add: tokens_within_def)
  show "AccountID lease \<in> accts" if granted: "answer = Inr (Some lease, wait)"
  proof -
    obtain l where l: "r = Inr (Some l, None)" "lease = unmarked l"
      using assms(1) run granted by (auto simp: authority_Route_def split: sum.splits prod.splits option.splits)
    from Route_justified [OF run [unfolded l(1)]]
    show ?thesis using l(2) assms(2) by (auto simp: grant_justified_def tokens_within_def unmarked_def)
  qed
qed

lemma authority_Observe_ok:
  "authority_Observe json_valid v b = (b', e) \<Longrightarrow> tokens_within accts b \<Longrightarrow> tokens_within accts b'"
  using Record_frame [of "br_db b" json_valid v]
  by (auto simp: authority_Observe_def tokens_within_def relay_frame_def split: sum.splits prod.splits)

lemma authority_ReportFailure_ok:
  "authority_ReportFailure i key account kind b = (b', e) \<Longrightarrow> tokens_within accts b \<Longrightarrow> tokens_within accts b'"
  using relay_frame_failure [of b "bi_env i" "bi_now i" key account kind None]
  by (auto simp: authority_ReportFailure_def tokens_within_def relay_frame_def split: prod.splits)

interpretation broker_serving: bounded_authority "broker_authority cfg inputs sha json_valid" "\<lambda>(n, b). tokens_within (set accts) b" "set accts"
  for cfg inputs sha json_valid accts
  by unfold_locales
    (auto simp: broker_authority_def Let_def split: prod.splits
      dest: authority_Route_ok authority_Observe_ok authority_ReportFailure_ok)

text \<open>
  C14: every request that reaches the broker's gateway is answered: with the pool's accounts
  among those of a list, the serving loop ends after at most two attempts per account, whatever
  the upstream, the runtimes and the clock do, and no account was added to the pool.
\<close>

theorem broker_answers_every_request:
  assumes "ar_public_token ` set (t_accounts (br_db b)) \<subseteq> set accts"
  shows "\<exists>n' b' until' reply.
     Serve env (broker_authority cfg inputs sha json_valid) r (2 * card (set accts) + 1) (n, b) until = Some ((n', b'), until', reply)
     \<and> ar_public_token ` set (t_accounts (br_db b')) \<subseteq> set accts"
proof -
  let ?auth = "broker_authority cfg inputs sha json_valid"
  have inv: "case (n, b) of (n, b) \<Rightarrow> tokens_within (set accts) b" using assms by (simp add: tokens_within_def)
  obtain w until' reply where run: "Serve env ?auth r (2 * card (set accts) + 1) (n, b) until = Some (w, until', reply)"
    using broker_serving.Serve_returns [OF inv, of env cfg inputs sha json_valid r until] by auto
  obtain n' b' where w: "w = (n', b')" by fastforce
  have "tokens_within (set accts) b'" using broker_serving.Serve_inv [OF inv run] by (simp add: w)
  then show ?thesis using run by (auto simp: w tokens_within_def)
qed

theorem broker_answers_every_request_witness:
  "\<forall>env sha r until. \<exists>n' b' until' reply. Serve env (broker_authority ex_cfg (\<lambda>_. \<lparr>bi_now = 1500, bi_env = ex_route_env, bi_allowed = True\<rparr>) sha (\<lambda>_. True)) r 5
     (0, ex_primary) until = Some ((n', b'), until', reply)"
proof (intro allI)
  fix env sha r until
  have "ar_public_token ` set (t_accounts (br_db ex_primary)) \<subseteq> set [''pa'', ''pb'']"
    by (simp add: ex_primary_def ex_pool_simps)
  from broker_answers_every_request [OF this, of env ex_cfg "\<lambda>_. \<lparr>bi_now = 1500, bi_env = ex_route_env, bi_allowed = True\<rparr>" sha "\<lambda>_. True" r 0 until]
  show "\<exists>n' b' until' reply. Serve env (broker_authority ex_cfg (\<lambda>_. \<lparr>bi_now = 1500, bi_env = ex_route_env, bi_allowed = True\<rparr>) sha (\<lambda>_. True)) r 5
     (0, ex_primary) until = Some ((n', b'), until', reply)" by auto
qed

end
