(* ===== verification/Usage_Norm.thy ===== *)
theory Usage_Norm
  imports Cycle
begin

text \<open>
  internal/broker/usage.go: reading the rate limits the account reports into a short and a
  weekly window, and the derived freshness and overall state.

  A decoded number is a rational; \<open>int64(number)\<close> truncates it, and gives the least \<open>int64\<close>
  for a number outside the range (as on amd64). NaN does not occur in JSON.
\<close>

record Window =
  wi_Slot :: string
  wi_UsedPercent :: nullint
  wi_DurationMinutes :: nullint
  wi_ResetsAtS :: nullint

record Usage =
  us_SelectedLimitID :: string
  us_Short :: "Window option"
  us_Weekly :: "Window option"
  us_Others :: "Window list"

definition to_int64 :: "rat \<Rightarrow> int" where
  "to_int64 x = (let n = (if 0 \<le> x then \<lfloor>x\<rfloor> else \<lceil>x\<rceil>) in if i64 n then n else - (2 ^ 63))"

definition intPointer :: "any \<Rightarrow> nullint" where
  "intPointer v = (case v of AFloat x \<Rightarrow> Some (to_int64 x) | AInt n \<Rightarrow> Some n | _ \<Rightarrow> None)"

definition percentPointer :: "any \<Rightarrow> nullint" where
  "percentPointer v =
     (case v of AFloat x \<Rightarrow> if x < 0 \<or> 100 < x then None else intPointer v | _ \<Rightarrow> intPointer v)"

definition fmtInt :: "nat \<Rightarrow> string" where "fmtInt n = itoa_nat n"

subsection \<open>The windows of a payload\<close>

definition usage_source :: "gomap \<Rightarrow> gomap \<times> string" where
  "usage_source payload =
     (let source = (case lookup payload ''rateLimits'' of AMap limits \<Rightarrow> limits | _ \<Rightarrow> payload) in
      case lookup payload ''rateLimitsByLimitId'' of
        AMap limits \<Rightarrow> (case lookup limits ''codex'' of AMap codex \<Rightarrow> (codex, ''codex'') | _ \<Rightarrow> (source, []))
      | _ \<Rightarrow> (source, []))"

definition raw_windows :: "gomap \<Rightarrow> any list" where
  "raw_windows source =
     (let raw = (case lookup source ''windows'' of AArr vs \<Rightarrow> vs | _ \<Rightarrow> []) in
      if raw = [] then filter (\<lambda>v. v \<noteq> ANil) [lookup source ''primary'', lookup source ''secondary''] else raw)"

definition read_window :: "nat \<Rightarrow> any \<Rightarrow> Window option" where
  "read_window index item =
     (case item of
        AMap object \<Rightarrow>
          (let slot = as_string (lookup object ''name'') in
           Some \<lparr>wi_Slot = (if slot = [] then fmtInt index else slot),
                 wi_UsedPercent = percentPointer (lookup object ''usedPercent''),
                 wi_DurationMinutes = intPointer (lookup object ''windowDurationMins''),
                 wi_ResetsAtS = intPointer (lookup object ''resetsAt'')\<rparr>)
      | _ \<Rightarrow> None)"

definition usage_windows :: "any list \<Rightarrow> Window list" where
  "usage_windows raw = List.map_filter (\<lambda>(index, item). read_window index item) (enumerate 0 raw)"

definition is_weekly :: "Window \<Rightarrow> bool" where
  "is_weekly w \<longleftrightarrow>
     (case wi_DurationMinutes w of None \<Rightarrow> False | Some d \<Rightarrow> \<bar>w64 (d - weekMinutes)\<bar> \<le> 504)"

definition is_short :: "Window \<Rightarrow> bool" where
  "is_short w \<longleftrightarrow>
     \<not> is_weekly w \<and> (case wi_DurationMinutes w of None \<Rightarrow> False | Some d \<Rightarrow> 0 < d \<and> d < 1440)"

definition positions :: "(Window \<Rightarrow> bool) \<Rightarrow> Window list \<Rightarrow> nat list" where
  "positions P windows = filter (\<lambda>i. P (windows ! i)) [0..<length windows]"

text \<open>The two nested loops that exchange an element with every smaller one behind it.\<close>

fun exchange_pass :: "('a \<Rightarrow> int) \<Rightarrow> 'a \<Rightarrow> 'a list \<Rightarrow> 'a \<times> 'a list" where
  "exchange_pass key x [] = (x, [])"
| "exchange_pass key x (y # ys) =
     (if key y < key x then (case exchange_pass key y ys of (m, r) \<Rightarrow> (m, x # r))
      else (case exchange_pass key x ys of (m, r) \<Rightarrow> (m, y # r)))"

lemma length_exchange_pass: "exchange_pass key x ys = (m, r) \<Longrightarrow> length r = length ys"
  by (induction key x ys arbitrary: m r rule: exchange_pass.induct) (auto split: if_splits prod.splits)

function exchange_sort :: "('a \<Rightarrow> int) \<Rightarrow> 'a list \<Rightarrow> 'a list" where
  "exchange_sort key [] = []"
| "exchange_sort key (x # xs) = (case exchange_pass key x xs of (m, r) \<Rightarrow> m # exchange_sort key r)"
  by pat_completeness auto
termination
  by (relation "measure (\<lambda>(_, xs). length xs)") (auto dest: length_exchange_pass [OF sym])

definition duration_at :: "Window list \<Rightarrow> nat \<Rightarrow> int" where
  "duration_at windows i = coalesce (wi_DurationMinutes (windows ! i)) 0"

definition choose_short :: "Window list \<Rightarrow> nat option" where
  "choose_short windows =
     (case exchange_sort (duration_at windows) (positions is_short windows) of
        [] \<Rightarrow> None
      | [i] \<Rightarrow> Some i
      | i # j # _ \<Rightarrow> if duration_at windows i \<noteq> duration_at windows j then Some i else None)"

definition choose_weekly :: "Window list \<Rightarrow> nat option" where
  "choose_weekly windows = (case positions is_weekly windows of [i] \<Rightarrow> Some i | _ \<Rightarrow> None)"

definition NormalizeUsage :: "gomap \<Rightarrow> Usage" where
  "NormalizeUsage payload =
     (case usage_source payload of
        (source, selected) \<Rightarrow>
          (let windows = usage_windows (raw_windows source);
               weekly = choose_weekly windows;
               short = choose_short windows
           in \<lparr>us_SelectedLimitID = selected,
               us_Short = map_option ((!) windows) short,
               us_Weekly = map_option ((!) windows) weekly,
               us_Others = map ((!) windows)
                 (filter (\<lambda>i. Some i \<noteq> short \<and> Some i \<noteq> weekly) [0..<length windows])\<rparr>))"

definition window_complete :: "Window option \<Rightarrow> bool" where
  "window_complete window =
     (case window of
        None \<Rightarrow> False
      | Some w \<Rightarrow> (case wi_UsedPercent w of None \<Rightarrow> False | Some p \<Rightarrow> 0 \<le> p \<and> p \<le> 100))"

definition completeUsage :: "Usage \<Rightarrow> bool" where
  "completeUsage usage \<longleftrightarrow> window_complete (us_Short usage) \<and> window_complete (us_Weekly usage)"

subsection \<open>Derived states\<close>

definition freshness :: "int \<Rightarrow> int \<Rightarrow> int \<Rightarrow> string" where
  "freshness final now pollSeconds =
     (if final = 0 then ''UNKNOWN''
      else let age = now - final in
        if age \<le> pollSeconds * 2000 then ''FRESH''
        else if age \<le> 30 * 60 * 1000 then ''AGING'' else ''STALE'')"

definition overall :: "bool \<Rightarrow> string \<Rightarrow> string \<Rightarrow> string \<Rightarrow> bool \<Rightarrow> string" where
  "overall enabled auth worker usage hasError =
     (if \<not> enabled then ''DISABLED''
      else if auth = ''AUTH_REQUIRED'' \<or> auth = ''WORKSPACE_MISMATCH'' \<or> auth = ''CREDENTIAL_ERROR''
      then ''ACTION_REQUIRED''
      else if hasError \<or> worker = ''CRASHED'' then ''ERROR''
      else if worker = ''STARTING'' \<or> auth = ''UNCONFIGURED'' \<or> auth = ''ENROLLING'' then ''STARTING''
      else if usage = ''AGING'' \<or> usage = ''STALE'' \<or> usage = ''ERROR'' then ''WARNING''
      else ''HEALTHY'')"

subsection \<open>Exchange sort\<close>

lemma exchange_pass_min:
  "exchange_pass key x ys = (m, r) \<Longrightarrow> mset (m # r) = mset (x # ys) \<and> (\<forall>z\<in>set r. key m \<le> key z)"
proof (induction key x ys arbitrary: m r rule: exchange_pass.induct)
  case (2 key x y ys)
  show ?case
  proof (cases "key y < key x")
    case True
    then obtain r' where p: "exchange_pass key y ys = (m, r')" "r = x # r'"
      using 2(3) by (auto split: prod.splits)
    with 2(1) [OF True p(1)] have ih: "mset (m # r') = mset (y # ys)" "\<forall>z\<in>set r'. key m \<le> key z" by auto
    have "y \<in> set (m # r')" using ih(1) by (metis list.set_intros(1) mset_eq_setD)
    then have "key m \<le> key y" using ih(2) by auto
    then show ?thesis using ih p(2) True by (auto simp: add_mset_commute)
  next
    case False
    then obtain r' where p: "exchange_pass key x ys = (m, r')" "r = y # r'"
      using 2(3) by (auto split: prod.splits)
    with 2(2) [OF False p(1)] have ih: "mset (m # r') = mset (x # ys)" "\<forall>z\<in>set r'. key m \<le> key z" by auto
    have "x \<in> set (m # r')" using ih(1) by (metis list.set_intros(1) mset_eq_setD)
    then have "key m \<le> key x" using ih(2) by auto
    then show ?thesis using ih p(2) False by (auto simp: add_mset_commute)
  qed
qed simp

lemma exchange_sort_sorts: "mset (exchange_sort key xs) = mset xs \<and> sorted (map key (exchange_sort key xs))"
proof (induction key xs rule: exchange_sort.induct)
  case (2 key x xs)
  obtain m r where p: "exchange_pass key x xs = (m, r)" by (cases "exchange_pass key x xs") auto
  have ih: "mset (exchange_sort key r) = mset r" "sorted (map key (exchange_sort key r))"
    using 2 p by auto
  have "set (exchange_sort key r) = set r" using ih(1) by (rule mset_eq_setD)
  then show ?case using exchange_pass_min [OF p] p ih by auto
qed simp

subsection \<open>What is chosen\<close>

lemma set_positions [simp]: "i \<in> set (positions P windows) \<longleftrightarrow> i < length windows \<and> P (windows ! i)"
  by (auto simp: positions_def)

lemma distinct_positions [simp]: "distinct (positions P windows)"
  by (simp add: positions_def)

lemma distinct_singleton: "set xs = {i} \<Longrightarrow> distinct xs \<Longrightarrow> xs = [i]"
  by (cases xs) (auto simp: subset_singleton_iff)

lemma choose_weekly_iff:
  "choose_weekly windows = Some i \<longleftrightarrow>
   i < length windows \<and> is_weekly (windows ! i) \<and> (\<forall>j<length windows. is_weekly (windows ! j) \<longrightarrow> j = i)"
proof -
  have "choose_weekly windows = Some i \<longleftrightarrow> positions is_weekly windows = [i]"
    by (simp add: choose_weekly_def split: list.split)
  also have "\<dots> \<longleftrightarrow> set (positions is_weekly windows) = {i}"
    by (metis distinct_positions distinct_singleton list.set(1) list.set(2))
  also have "\<dots> \<longleftrightarrow> (\<forall>j. j \<in> set (positions is_weekly windows) \<longleftrightarrow> j = i)" by blast
  finally show ?thesis by (simp only: set_positions) blast
qed

lemma strict_head:
  assumes "sorted (map key xs)" and "distinct xs"
  shows "(case xs of [] \<Rightarrow> None | [i] \<Rightarrow> Some i | i # j # _ \<Rightarrow> if key i \<noteq> key j then Some i else None) = Some a
    \<longleftrightarrow> a \<in> set xs \<and> (\<forall>b\<in>set xs. b \<noteq> a \<longrightarrow> key a < (key b :: int))"
proof (cases xs)
  case (Cons x rest)
  show ?thesis
  proof (cases rest)
    case (Cons y more)
    have xs: "xs = x # y # more" using \<open>xs = x # rest\<close> Cons by simp
    have le: "key x \<le> key y" "\<forall>z\<in>set more. key y \<le> key z" and ne: "x \<noteq> y" "x \<notin> set more"
      using assms xs by auto
    show ?thesis
    proof (cases "key x = key y")
      case True
      have "\<not> (\<forall>b\<in>set xs. b \<noteq> a \<longrightarrow> key a < key b)" if "a \<in> set xs"
        using that le ne True unfolding xs by (cases "a = x") force+
      then show ?thesis using True xs by auto
    next
      case False
      then have "\<forall>b\<in>set (y # more). key x < key b" using le by force
      then show ?thesis using False ne unfolding xs by (auto dest: less_asym)
    qed
  qed (use \<open>xs = x # rest\<close> in auto)
qed simp

lemma choose_short_iff:
  "choose_short windows = Some i \<longleftrightarrow>
   i < length windows \<and> is_short (windows ! i)
   \<and> (\<forall>j<length windows. is_short (windows ! j) \<longrightarrow> j \<noteq> i \<longrightarrow> duration_at windows i < duration_at windows j)"
proof -
  let ?xs = "exchange_sort (duration_at windows) (positions is_short windows)"
  have ms: "mset ?xs = mset (positions is_short windows)" and so: "sorted (map (duration_at windows) ?xs)"
    using exchange_sort_sorts [of "duration_at windows" "positions is_short windows"] by auto
  have "distinct ?xs" using ms distinct_positions mset_eq_imp_distinct_iff by blast
  then have "choose_short windows = Some i
      \<longleftrightarrow> i \<in> set ?xs \<and> (\<forall>b\<in>set ?xs. b \<noteq> i \<longrightarrow> duration_at windows i < duration_at windows b)"
    unfolding choose_short_def by (rule strict_head [OF so])
  also have "set ?xs = set (positions is_short windows)" using ms by (rule mset_eq_setD)
  finally show ?thesis by (auto simp only: set_positions Ball_def)
qed

subsection \<open>What NormalizeUsage promises\<close>

definition payload_windows :: "gomap \<Rightarrow> Window list" where
  "payload_windows payload = usage_windows (raw_windows (fst (usage_source payload)))"

definition strictly_shortest :: "Window list \<Rightarrow> nat \<Rightarrow> bool" where
  "strictly_shortest windows i \<longleftrightarrow>
     i < length windows \<and> is_short (windows ! i)
     \<and> (\<forall>j<length windows. is_short (windows ! j) \<longrightarrow> j \<noteq> i \<longrightarrow> duration_at windows i < duration_at windows j)"

definition only_weekly :: "Window list \<Rightarrow> nat \<Rightarrow> bool" where
  "only_weekly windows i \<longleftrightarrow>
     i < length windows \<and> is_weekly (windows ! i) \<and> (\<forall>j<length windows. is_weekly (windows ! j) \<longrightarrow> j = i)"

lemma choose_short_spec: "choose_short windows = Some i \<longleftrightarrow> strictly_shortest windows i"
  by (simp add: choose_short_iff strictly_shortest_def)

lemma choose_weekly_spec: "choose_weekly windows = Some i \<longleftrightarrow> only_weekly windows i"
  by (simp add: choose_weekly_iff only_weekly_def)

lemma NormalizeUsage_fields:
  "us_Short (NormalizeUsage payload) = map_option ((!) (payload_windows payload)) (choose_short (payload_windows payload))"
  "us_Weekly (NormalizeUsage payload) = map_option ((!) (payload_windows payload)) (choose_weekly (payload_windows payload))"
  "us_Others (NormalizeUsage payload) = map ((!) (payload_windows payload))
     (filter (\<lambda>i. Some i \<noteq> choose_short (payload_windows payload) \<and> Some i \<noteq> choose_weekly (payload_windows payload))
       [0..<length (payload_windows payload)])"
  by (simp_all add: NormalizeUsage_def payload_windows_def Let_def split: prod.split)

lemma filter_chosen:
  "\<forall>i. chosen = Some i \<longrightarrow> i < n \<Longrightarrow> filter (\<lambda>i. Some i = chosen) [0..<n] = (case chosen of None \<Rightarrow> [] | Some i \<Rightarrow> [i])"
  by (cases chosen) (auto intro!: distinct_singleton)

lemma split_three:
  "\<forall>x\<in>set xs. \<not> (P x \<and> Q x) \<Longrightarrow>
   mset xs = mset (filter P xs) + mset (filter Q xs) + mset (filter (\<lambda>x. \<not> P x \<and> \<not> Q x) xs)"
  by (induction xs) auto

lemma windows_partitioned:
  "mset (payload_windows payload)
   = mset (map the (filter (\<lambda>w. w \<noteq> None) [us_Short (NormalizeUsage payload), us_Weekly (NormalizeUsage payload)]))
     + mset (us_Others (NormalizeUsage payload))"
proof -
  let ?ws = "payload_windows payload" and ?n = "length (payload_windows payload)"
  let ?s = "choose_short ?ws" and ?w = "choose_weekly ?ws"
  have s: "\<forall>i. ?s = Some i \<longrightarrow> i < ?n" and w: "\<forall>i. ?w = Some i \<longrightarrow> i < ?n"
    by (simp_all add: choose_short_iff choose_weekly_iff)
  have "\<forall>i\<in>set [0..<?n]. \<not> (Some i = ?s \<and> Some i = ?w)"
    by (metis choose_short_iff choose_weekly_iff is_short_def)
  then have "mset [0..<?n] = mset (case ?s of None \<Rightarrow> [] | Some i \<Rightarrow> [i]) + mset (case ?w of None \<Rightarrow> [] | Some i \<Rightarrow> [i])
      + mset (filter (\<lambda>i. Some i \<noteq> ?s \<and> Some i \<noteq> ?w) [0..<?n])"
    using split_three [of "[0..<?n]" "\<lambda>i. Some i = ?s" "\<lambda>i. Some i = ?w"] filter_chosen [OF s] filter_chosen [OF w] by simp
  then have "image_mset ((!) ?ws) (mset [0..<?n])
      = image_mset ((!) ?ws) (mset (case ?s of None \<Rightarrow> [] | Some i \<Rightarrow> [i]) + mset (case ?w of None \<Rightarrow> [] | Some i \<Rightarrow> [i])
          + mset (filter (\<lambda>i. Some i \<noteq> ?s \<and> Some i \<noteq> ?w) [0..<?n]))" by (rule arg_cong)
  moreover have "image_mset ((!) ?ws) (mset [0..<?n]) = mset ?ws"
    by (metis map_nth mset_map)
  ultimately show ?thesis
    unfolding NormalizeUsage_fields by (cases ?s; cases ?w; simp add: add_mset_commute)
qed

text \<open>
  C35: normalising implements its specification. The short window is the strictly shortest of
  the windows under a day that are not weekly, the weekly window the only one within five
  percent of a week, each is missing exactly when there is no such window, and every window
  of the payload ends in one of the three places.
\<close>

theorem NormalizeUsage_implements_selection:
  "(\<forall>i. strictly_shortest (payload_windows payload) i \<longrightarrow>
      us_Short (NormalizeUsage payload) = Some (payload_windows payload ! i))
   \<and> (us_Short (NormalizeUsage payload) = None \<longleftrightarrow> (\<nexists>i. strictly_shortest (payload_windows payload) i))
   \<and> (\<forall>i. only_weekly (payload_windows payload) i \<longrightarrow>
      us_Weekly (NormalizeUsage payload) = Some (payload_windows payload ! i))
   \<and> (us_Weekly (NormalizeUsage payload) = None \<longleftrightarrow> (\<nexists>i. only_weekly (payload_windows payload) i))
   \<and> mset (payload_windows payload)
     = mset (map the (filter (\<lambda>w. w \<noteq> None) [us_Short (NormalizeUsage payload), us_Weekly (NormalizeUsage payload)]))
       + mset (us_Others (NormalizeUsage payload))"
  using windows_partitioned [of payload]
  by (auto simp: NormalizeUsage_fields choose_short_spec [symmetric] choose_weekly_spec [symmetric])

definition ex_payload :: gomap where
  "ex_payload = [(''rateLimits'', AMap
     [(''primary'', AMap [(''usedPercent'', AFloat 12), (''windowDurationMins'', AFloat 300), (''resetsAt'', AFloat 1000000)]),
      (''secondary'', AMap [(''usedPercent'', AFloat 40), (''windowDurationMins'', AFloat 10080), (''resetsAt'', AFloat 2000000)])])]"

lemma ex_payload_windows: "payload_windows ex_payload =
   [\<lparr>wi_Slot = ''0'', wi_UsedPercent = Some 12, wi_DurationMinutes = Some 300, wi_ResetsAtS = Some 1000000\<rparr>,
    \<lparr>wi_Slot = ''1'', wi_UsedPercent = Some 40, wi_DurationMinutes = Some 10080, wi_ResetsAtS = Some 2000000\<rparr>]"
  by (simp add: payload_windows_def ex_payload_def usage_source_def raw_windows_def lookup_def usage_windows_def
      List.map_filter_def read_window_def as_string_def fmtInt_def percentPointer_def intPointer_def to_int64_def
      i64_def Let_def itoa_nat.simps [of 0] itoa_nat.simps [of "Suc 0"] char_of_def bit_Suc_0_iff)

theorem NormalizeUsage_implements_selection_witness:
  "map_option wi_UsedPercent (us_Short (NormalizeUsage ex_payload)) = Some (Some 12)
   \<and> map_option wi_UsedPercent (us_Weekly (NormalizeUsage ex_payload)) = Some (Some 40)"
proof -
  have "strictly_shortest (payload_windows ex_payload) 0" "only_weekly (payload_windows ex_payload) 1"
    by (simp_all add: ex_payload_windows strictly_shortest_def only_weekly_def is_short_def is_weekly_def
        weekMinutes_def w64_def duration_at_def coalesce_def less_Suc_eq numeral_2_eq_2 all_conj_distrib nth_Cons')
  then show ?thesis
    using NormalizeUsage_implements_selection [of ex_payload] by (auto simp: ex_payload_windows)
qed

text \<open>A complete observation has both percentages, within their range.\<close>

lemma completeUsage_percents:
  "completeUsage u \<Longrightarrow> \<exists>s w p q. us_Short u = Some s \<and> wi_UsedPercent s = Some p \<and> 0 \<le> p \<and> p \<le> 100
     \<and> us_Weekly u = Some w \<and> wi_UsedPercent w = Some q \<and> 0 \<le> q \<and> q \<le> 100"
  by (auto simp: completeUsage_def window_complete_def split: option.splits)

end
