(* ===== verification/Usage_Commit.thy ===== *)
theory Usage_Commit
  imports Usage_Norm Broker_Gateway
begin

text \<open>
  internal/broker/credentials.go from \<open>Refresh\<close> on: the jobs that read an account's usage through a
  managed runtime (\<open>runRefresh\<close>) or start its weekly cycle (\<open>runPulse\<close>), the transaction that
  stores a usage read (\<open>commitUsageAt\<close>) and the one that records its failure.

  A job runs in the steps the code has: it is claimed in one transaction, waits for a slot, and
  works on the account as it then is. What it meets outside (slot, runtime, answers, clock
  readings, new identifiers) are the fields of \<open>refresh_run\<close> and \<open>pulse_run\<close>. Durations are in
  milliseconds. The stored evidence is only read for display and is left out.
\<close>

subsection \<open>Accounts\<close>

definition service_account :: "broker_db \<Rightarrow> string \<Rightarrow> go_error + account_row \<times> state_row" where
  "service_account db public =
     (case find (\<lambda>a. ar_public_token a = public \<and> ar_deleted_at_ms a = None \<and> t_account_state db (ar_account_id a) \<noteq> None)
             (t_accounts db) of
        None \<Rightarrow> Inl (NewError ''ACCOUNT_NOT_FOUND'' ''Account not found'' 404)
      | Some a \<Rightarrow> Inr (a, the (t_account_state db (ar_account_id a))))"

definition verifyIdentity :: "string option \<Rightarrow> gomap \<Rightarrow> go_error + gomap" where
  "verifyIdentity email identity =
     (case lookup identity ''account'' of
        AMap observed \<Rightarrow>
          if as_string (lookup observed ''type'') \<noteq> ''chatgpt''
          then Inl (NewError ''AUTH_IDENTITY_UNVERIFIED'' ''Codex did not return a ChatGPT identity'' 409)
          else if (case email of None \<Rightarrow> False | Some e \<Rightarrow>
                     as_string (lookup observed ''email'') \<noteq> [] \<and> \<not> EqualFold e (as_string (lookup observed ''email'')))
          then Inl (NewError ''AUTH_IDENTITY_MISMATCH'' ''The authenticated ChatGPT identity does not match this account'' 409)
          else Inr observed
      | _ \<Rightarrow> Inl (NewError ''CODEX_AUTH_REQUIRED'' ''Codex authentication must be renewed'' 409))"

subsection \<open>Storing a read\<close>

definition usage_incomplete :: go_error where
  "usage_incomplete = NewError ''USAGE_INCOMPLETE'' ''Usage windows are incomplete or invalid'' 503"

definition usage_outdated :: go_error where
  "usage_outdated = NewError ''USAGE_OBSERVATION_OUTDATED'' ''A newer usage observation is already stored'' 409"

definition used_of :: "Window option \<Rightarrow> nullint" where "used_of w = Option.bind w wi_UsedPercent"
definition reset_of :: "Window option \<Rightarrow> nullint" where "reset_of w = Option.bind w wi_ResetsAtS"

definition anomalous :: "Window option \<Rightarrow> bool" where
  "anomalous w \<longleftrightarrow> (case used_of w of None \<Rightarrow> False | Some p \<Rightarrow> p < 0 \<or> 100 < p)"

definition store_usage :: "string \<Rightarrow> Usage \<Rightarrow> int \<Rightarrow> usage_row \<Rightarrow> usage_row" where
  "store_usage snapshot usage now u =
     u\<lparr>uc_snapshot_id := Some snapshot,
       uc_selected_limit_id := (if us_SelectedLimitID usage = [] then None else Some (us_SelectedLimitID usage)),
       uc_short_raw_slot := map_option wi_Slot (us_Short usage), uc_short_used_percent_raw := used_of (us_Short usage),
       uc_short_duration_minutes := Option.bind (us_Short usage) wi_DurationMinutes,
       uc_short_resets_at_s := reset_of (us_Short usage), uc_short_anomaly := anomalous (us_Short usage),
       uc_weekly_raw_slot := map_option wi_Slot (us_Weekly usage), uc_weekly_used_percent_raw := used_of (us_Weekly usage),
       uc_weekly_duration_minutes := Option.bind (us_Weekly usage) wi_DurationMinutes,
       uc_weekly_resets_at_s := reset_of (us_Weekly usage), uc_weekly_anomaly := anomalous (us_Weekly usage),
       uc_complete_read_at_ms := Some now, uc_last_attempt_at_ms := Some now, uc_stale := False,
       uc_last_error_code := None, uc_last_error_summary := None, uc_source := ''APP_SERVER'',
       uc_state_version := uc_state_version u + 1\<rparr>"

definition add_snapshot :: "snapshot_row \<Rightarrow> broker_db \<Rightarrow> broker_db" where
  "add_snapshot row db = db\<lparr>t_usage_snapshots := t_usage_snapshots db @ [row]\<rparr>"

definition quota_snapshot :: "string \<Rightarrow> int \<Rightarrow> Usage \<Rightarrow> QuotaSnapshot" where
  "quota_snapshot snapshot now usage =
     \<lparr>qs_ID = snapshot, qs_AtMS = now, qs_ShortUsed = used_of (us_Short usage), qs_ShortReset = reset_of (us_Short usage),
      qs_WeeklyUsed = used_of (us_Weekly usage), qs_WeeklyReset = reset_of (us_Weekly usage)\<rparr>"

text \<open>What a read that started at \<open>started\<close> answers: requests, resets and old quota rejections.\<close>

definition settle_read :: "string \<Rightarrow> int \<Rightarrow> broker_db \<Rightarrow> broker_db" where
  "settle_read account started db =
     (let db = db\<lparr>t_usage_refresh_requests :=
            delete_where (\<lambda>a row. a = account \<and> rq_due_at_ms row \<le> started) (t_usage_refresh_requests db)\<rparr>;
          db = settleUsageResets account started db
      in db\<lparr>t_account_quota_blocks :=
           delete_where (\<lambda>a row. a = account \<and> qb_blocked_at_ms row \<le> started - usageResetGrace) (t_account_quota_blocks db)\<rparr>)"

definition still_exhausted :: "int \<Rightarrow> Window option \<Rightarrow> bool" where
  "still_exhausted now w \<longleftrightarrow> spent (used_of w) \<and> (case reset_of w of None \<Rightarrow> True | Some r \<Rightarrow> r \<le> go_div now 1000)"

definition request_recovery :: "string \<Rightarrow> int \<Rightarrow> Usage \<Rightarrow> broker_db \<Rightarrow> broker_db" where
  "request_recovery account now usage db =
     (if (still_exhausted now (us_Short usage) \<or> still_exhausted now (us_Weekly usage))
         \<and> t_usage_refresh_requests db account = None
      then db\<lparr>t_usage_refresh_requests := (t_usage_refresh_requests db)(account \<mapsto>
             \<lparr>rq_due_at_ms = now + usageRetryDelay, rq_reason = ''RESET_UNCONFIRMED'', rq_next_attempt_at_ms = 0\<rparr>)\<rparr>
      else db)"

definition mark_fresh :: "bool \<Rightarrow> bool \<Rightarrow> int \<Rightarrow> state_row \<Rightarrow> state_row" where
  "mark_fresh enabled authVerified now s =
     bump_version (s\<lparr>as_usage_state := ''FRESH'',
       as_auth_state := (if authVerified then ''VERIFIED'' else as_auth_state s),
       as_last_auth_verified_at_ms := (if authVerified then Some now else as_last_auth_verified_at_ms s),
       as_overall_state := (if \<not> enabled then ''DISABLED''
         else if as_auth_state s = ''VERIFIED'' \<or> authVerified then ''HEALTHY'' else as_overall_state s),
       as_last_error_code := None, as_last_error_summary := None\<rparr>)"

definition enabled_account :: "broker_db \<Rightarrow> string \<Rightarrow> bool" where
  "enabled_account db account \<longleftrightarrow> (case find (\<lambda>a. ar_account_id a = account) (t_accounts db) of None \<Rightarrow> True | Some a \<Rightarrow> ar_enabled a)"

definition cycle_started_at :: "bool \<Rightarrow> Usage \<Rightarrow> int \<Rightarrow> int" where
  "cycle_started_at cycleRelease usage now =
     (if cycleRelease \<and> reset_of (us_Weekly usage) \<noteq> None
      then (case weeklyStart (reset_of (us_Weekly usage)) None now of None \<Rightarrow> 0 | Some t \<Rightarrow> t) else now)"

definition store_pulse :: "string \<Rightarrow> int \<Rightarrow> bool \<Rightarrow> int \<Rightarrow> int \<Rightarrow> broker_db \<Rightarrow> broker_db" where
  "store_pulse account pulseNext cycleRelease started now db =
     (let db = db\<lparr>t_window_pulse_state := update_row (\<lambda>p.
            (if cycleRelease
             then p\<lparr>pw_cycle_state := ''IN_CYCLE'', pw_weekly_started_at_ms := Some started,
                    pw_last_usage_observed_at_ms := Some now, pw_idle_observation_count := 0\<rparr> else p)
            \<lparr>pw_last_success_at_ms := Some now, pw_next_pulse_at_ms := Some pulseNext, pw_last_error_code := None\<rparr>)
            account (t_window_pulse_state db)\<rparr>
      in if cycleRelease
         then db\<lparr>t_weekly_cycle_state := (t_weekly_cycle_state db)
                \<lparr>cy_cadence_anchor_at_ms := Some (max (coalesce (cy_cadence_anchor_at_ms (t_weekly_cycle_state db)) 0) started),
                 cy_state_version := cy_state_version (t_weekly_cycle_state db) + 1\<rparr>\<rparr>
         else db)"

definition succeed_operation :: "int \<Rightarrow> string \<Rightarrow> string \<Rightarrow> broker_db \<Rightarrow> broker_db" where
  "succeed_operation now operation summary =
     on_operation operation (\<lambda>row. row\<lparr>op_state := ''SUCCEEDED'', op_progress_code := Some ''COMPLETE'',
       op_progress_summary := Some summary, op_completed_at_ms := Some now\<rparr>)"

definition usage_transaction :: "string \<Rightarrow> string \<Rightarrow> string \<Rightarrow> Usage \<Rightarrow> int \<Rightarrow> string \<Rightarrow> nullint \<Rightarrow> bool \<Rightarrow> bool \<Rightarrow> int
    \<Rightarrow> broker_db \<Rightarrow> go_error + unit \<times> broker_db" where
  "usage_transaction newID account operation usage duration summary pulseNext cycleRelease authVerified now db =
     (case t_usage_current db account of
        None \<Rightarrow> Inl no_rows
      | Some u \<Rightarrow>
          if sql_gt (uc_complete_read_at_ms u) now then Inl usage_outdated
          else
            (let db = add_snapshot \<lparr>us_snapshot_id = newID, us_account_id = account, us_attempted_at_ms = now - duration,
                        us_completed_at_ms = Some now, us_success = True, us_error_code = None, us_error_summary = None,
                        us_duration_ms = duration\<rparr> db
             in case (if cycleRelease then Inr db else RecordUsage account (quota_snapshot newID now usage) db) of
                  Inl e \<Rightarrow> Inl e
                | Inr db \<Rightarrow>
                    (let db = on_usage (store_usage newID usage now) account db;
                         db = (if used_of (us_Short usage) \<noteq> None \<and> used_of (us_Weekly usage) \<noteq> None
                               then settle_read account (now - duration) db else db);
                         db = request_recovery account now usage db;
                         db = scheduleUsageResets account now db;
                         db = on_state (mark_fresh (enabled_account db account) authVerified now) account db;
                         db = (case pulseNext of None \<Rightarrow> db
                               | Some t \<Rightarrow> store_pulse account t cycleRelease (cycle_started_at cycleRelease usage now) now db)
                     in Inr ((), succeed_operation now operation summary db))))"

definition commitUsageAt :: "string \<Rightarrow> account_row \<Rightarrow> string \<Rightarrow> gomap \<Rightarrow> int \<Rightarrow> string \<Rightarrow> nullint \<Rightarrow> bool \<Rightarrow> bool \<Rightarrow> int
    \<Rightarrow> broker \<Rightarrow> (go_error + unit) \<times> broker" where
  "commitUsageAt newID a operation raw duration summary pulseNext cycleRelease authVerified now b =
     (let usage = NormalizeUsage raw in
      if \<not> completeUsage usage then (Inl usage_incomplete, b)
      else
        (case Write_b (usage_transaction newID (ar_account_id a) operation usage duration summary pulseNext
                         cycleRelease authVerified now) b of
           (Inl e, b) \<Rightarrow> (Inl e, b)
         | (Inr _, b) \<Rightarrow>
             (let b = (if authVerified then snd (ResolveIncident now (ar_account_id a) ''authentication_failed'' b) else b)
              in (Inr (), publish ''account.updated'' [(''resource_id'', AStr (ar_public_token a)), (''state'', AStr ''FRESH'')] b))))"

subsection \<open>Recording a failure\<close>

definition failure_code :: "go_error \<Rightarrow> string" where
  "failure_code e = (case e of CoreError code _ _ \<Rightarrow> code | OtherError _ \<Rightarrow> ''USAGE_REFRESH_FAILED'')"

definition failure_summary :: "redactor \<Rightarrow> go_error \<Rightarrow> string" where
  "failure_summary red e = (case e of CoreError _ detail _ \<Rightarrow> safe_summary red detail | OtherError _ \<Rightarrow> ''Usage could not be refreshed'')"

definition failure_overall :: "string \<Rightarrow> string" where
  "failure_overall code =
     (if code = ''CREDENTIAL_CHECKPOINT_FAILED'' then ''ERROR''
      else if code \<in> {''AUTH_IDENTITY_MISMATCH'', ''WORKSPACE_MISMATCH'', ''CODEX_AUTH_REQUIRED''} then ''ACTION_REQUIRED''
      else ''WARNING'')"

definition mark_failed :: "string \<Rightarrow> string \<Rightarrow> state_row \<Rightarrow> state_row" where
  "mark_failed code summary s =
     bump_version (s\<lparr>as_auth_state := (if code \<in> {''CODEX_AUTH_REQUIRED'', ''CREDENTIAL_CHECKPOINT_FAILED''}
                                       then ''AUTH_REQUIRED'' else as_auth_state s),
       as_usage_state := ''STALE'', as_overall_state := failure_overall code,
       as_last_error_code := Some code, as_last_error_summary := Some summary\<rparr>)"

definition store_failure :: "string \<Rightarrow> string \<Rightarrow> string \<Rightarrow> string \<Rightarrow> int \<Rightarrow> int \<Rightarrow> broker_db \<Rightarrow> broker_db" where
  "store_failure newID account code summary duration now db =
     on_state (mark_failed code summary) account
       (on_usage (\<lambda>u. u\<lparr>uc_last_attempt_at_ms := Some now, uc_stale := True, uc_last_error_code := Some code,
                       uc_last_error_summary := Some summary, uc_state_version := uc_state_version u + 1\<rparr>) account
          (add_snapshot \<lparr>us_snapshot_id = newID, us_account_id = account, us_attempted_at_ms = now - duration,
             us_completed_at_ms = None, us_success = False, us_error_code = Some code, us_error_summary = Some summary,
             us_duration_ms = duration\<rparr> db))"

definition recordUsageFailure :: "redactor \<Rightarrow> string \<Rightarrow> string \<Rightarrow> account_row \<Rightarrow> string \<Rightarrow> int \<Rightarrow> go_error \<Rightarrow> int \<Rightarrow> broker \<Rightarrow> broker" where
  "recordUsageFailure red newID incidentID a operation started failure now b =
     (let code = failure_code failure; summary = failure_summary red failure;
          b = on_db (store_failure newID (ar_account_id a) code summary (now - started) now) b;
          b = (if code = ''CODEX_AUTH_REQUIRED''
               then snd (OpenIncident red incidentID now (ar_account_id a) ''authentication_failed'' ''ERROR''
                           ''Codex authentication must be renewed'' b) else b)
      in publish ''account.updated'' [(''resource_id'', AStr (ar_public_token a)), (''state'', AStr ''WARNING'')]
           (FailOperation red now operation code summary b))"

end
