(* ===== verification/Usage_Jobs.thy ===== *)
theory Usage_Jobs
  imports Usage_Commit
begin

text \<open>
  The jobs of internal/broker/credentials.go. \<open>Refresh\<close>, \<open>Pulse\<close> and \<open>claimCyclePulse\<close> claim a job
  in one transaction and name the operation; \<open>runRefresh\<close> and \<open>runPulse\<close> carry it out later, when
  the scheduler runs the goroutine. \<open>accepting\<close> is whether the service still takes jobs
  (\<open>runAsync\<close>). The profile of an account is read after its usage.
\<close>

subsection \<open>Claiming a refresh\<close>

definition not_eligible :: "string \<Rightarrow> go_error" where
  "not_eligible detail = NewError ''USAGE_REFRESH_NOT_ELIGIBLE'' detail 409"

definition may_refresh :: "bool \<Rightarrow> state_row \<Rightarrow> bool" where
  "may_refresh user s \<longleftrightarrow> as_worker_state s = ''STOPPED''
     \<and> (as_auth_state s = ''VERIFIED'' \<or> user \<and> as_auth_state s = ''AUTH_REQUIRED'')"

definition open_job :: "string \<Rightarrow> string \<Rightarrow> broker_db \<Rightarrow> operation_row option" where
  "open_job account kind db =
     find (\<lambda>row. op_account_id row = Some account \<and> op_kind row = kind \<and> is_open row)
       (sort_key op_created_at_ms (t_operations db))"

definition claim_refresh :: "string \<Rightarrow> int \<Rightarrow> string \<Rightarrow> string \<Rightarrow> broker_db \<Rightarrow> go_error + (string \<times> bool) \<times> broker_db" where
  "claim_refresh newID now account trig db =
     (case open_job account ''usage.refresh'' db of
        Some row \<Rightarrow> Inr ((op_operation_id row, False), db)
      | None \<Rightarrow>
          if (case t_account_state db account of None \<Rightarrow> False | Some s \<Rightarrow> may_refresh (trig = ''USER'') s)
             \<and> \<not> has_open_operation db account
          then Inr ((newID, True), add_operation (queued_operation newID (Some account) ''usage.refresh'' trig now) db)
          else Inl (not_eligible ''Account has another operation or requires credential recovery''))"

definition stop_job :: "redactor \<Rightarrow> int \<Rightarrow> string \<Rightarrow> broker \<Rightarrow> broker" where
  "stop_job red now operation = FailOperation red now operation ''SERVICE_STOPPING'' ''Service is stopping''"

definition Refresh :: "redactor \<Rightarrow> bool \<Rightarrow> string \<Rightarrow> int \<Rightarrow> string \<Rightarrow> string \<Rightarrow> broker \<Rightarrow> (go_error + string) \<times> broker" where
  "Refresh red accepting newID now public trig b =
     (case service_account (br_db b) public of
        Inl e \<Rightarrow> (Inl e, b)
      | Inr (a, s) \<Rightarrow>
          if \<not> may_refresh (trig = ''USER'') s
          then (Inl (not_eligible ''Credential recovery or reauthentication is required before usage refresh''), b)
          else
            (case Write_b (claim_refresh newID now (ar_account_id a) trig) b of
               (Inl e, b) \<Rightarrow> (Inl e, b)
             | (Inr (operation, created), b) \<Rightarrow>
                 (Inr operation, if created \<and> \<not> accepting then stop_job red now operation b else b)))"

subsection \<open>Profiles\<close>

definition empty_profile :: profile_row where
  "empty_profile = \<lparr>pf_profile_display_name = None, pf_username = None, pf_stats_as_of = None, pf_stats_error = None,
     pf_lifetime_tokens = None, pf_peak_daily_tokens = None, pf_longest_running_turn_sec = None,
     pf_current_streak_days = None, pf_longest_streak_days = None, pf_daily_usage_buckets = [],
     pf_fast_mode_usage_percentage = None, pf_most_used_reasoning_effort = None,
     pf_most_used_reasoning_effort_percentage = None, pf_unique_skills_used = None, pf_total_skills_used = None,
     pf_total_threads = None, pf_complete_read_at_ms = None, pf_last_attempt_at_ms = None, pf_stale = True,
     pf_last_error_code = None, pf_last_error_summary = None, pf_state_version = 0\<rparr>"

definition claimProfileRefresh :: "int \<Rightarrow> string \<Rightarrow> int \<Rightarrow> broker_db \<Rightarrow> bool \<times> broker_db" where
  "claimProfileRefresh pollSeconds account now db =
     (let interval = (if pollSeconds \<le> 0 then 21600 else pollSeconds) in
      case t_account_profiles db account of
        None \<Rightarrow>
          (True, db\<lparr>t_account_profiles := (t_account_profiles db)(account \<mapsto> empty_profile\<lparr>pf_last_attempt_at_ms := Some now\<rparr>)\<rparr>)
      | Some p \<Rightarrow>
          if (case pf_last_attempt_at_ms p of None \<Rightarrow> True | Some t \<Rightarrow> t \<le> now - interval * 1000)
          then (True, db\<lparr>t_account_profiles := (t_account_profiles db)(account \<mapsto> p\<lparr>pf_last_attempt_at_ms := Some now\<rparr>)\<rparr>)
          else (False, db))"

definition on_profile :: "(profile_row \<Rightarrow> profile_row) \<Rightarrow> string \<Rightarrow> broker_db \<Rightarrow> broker_db" where
  "on_profile f account db =
     db\<lparr>t_account_profiles := (t_account_profiles db)(account \<mapsto>
          f (case t_account_profiles db account of None \<Rightarrow> empty_profile | Some p \<Rightarrow> p))\<rparr>"

text \<open>\<open>profile\<close> carries the columns the endpoint's answer fills.\<close>

definition commitProfile :: "account_row \<Rightarrow> profile_row \<Rightarrow> int \<Rightarrow> broker \<Rightarrow> broker" where
  "commitProfile a profile now b =
     publish ''account.updated'' [(''resource_id'', AStr (ar_public_token a)), (''profile'', AStr ''FRESH'')]
       (on_db (on_profile (\<lambda>p. profile\<lparr>pf_complete_read_at_ms := Some now, pf_last_attempt_at_ms := Some now, pf_stale := False,
          pf_last_error_code := None, pf_last_error_summary := None, pf_state_version := pf_state_version p + 1\<rparr>)
          (ar_account_id a)) b)"

definition error_text :: "go_error \<Rightarrow> string" where
  "error_text e = (case e of CoreError _ detail _ \<Rightarrow> detail | OtherError t \<Rightarrow> t)"

definition recordProfileFailure :: "redactor \<Rightarrow> account_row \<Rightarrow> go_error \<Rightarrow> int \<Rightarrow> broker \<Rightarrow> broker" where
  "recordProfileFailure red a failure now b =
     publish ''account.updated'' [(''resource_id'', AStr (ar_public_token a)), (''profile'', AStr ''STALE'')]
       (on_db (\<lambda>db. db\<lparr>t_account_profiles := (t_account_profiles db)(ar_account_id a \<mapsto>
          (let mark = (\<lambda>p. p\<lparr>pf_last_attempt_at_ms := Some now, pf_stale := True,
                 pf_last_error_code := Some ''PROFILE_REFRESH_FAILED'',
                 pf_last_error_summary := Some (as_string (Redact red (AStr (truncateSummary (error_text failure)))))\<rparr>)
           in case t_account_profiles db (ar_account_id a) of
                None \<Rightarrow> mark empty_profile
              | Some p \<Rightarrow> mark (p\<lparr>pf_state_version := pf_state_version p + 1\<rparr>)))\<rparr>) b)"

record profile_run =
  pn_now :: int
  pn_run :: runtime_run
  pn_answer :: "go_error + unit"
  pn_fetch :: "go_error + profile_row"
  pn_done :: int

definition refreshProfile :: "redactor \<Rightarrow> cred_lib \<Rightarrow> int \<Rightarrow> profile_run \<Rightarrow> account_row \<Rightarrow> broker \<Rightarrow> broker" where
  "refreshProfile red lib pollSeconds p a b =
     (case claimProfileRefresh pollSeconds (ar_account_id a) (pn_now p) (br_db b) of
        (False, db) \<Rightarrow> b
      | (True, db) \<Rightarrow>
          (case service_Lease red lib (pn_run p) (pn_answer p) (ar_account_id a) (pn_now p) False (b\<lparr>br_db := db\<rparr>) of
             (Inl e, b) \<Rightarrow> recordProfileFailure red a e (pn_done p) b
           | (Inr lease, b) \<Rightarrow>
               (case pn_fetch p of
                  Inl e \<Rightarrow> recordProfileFailure red a e (pn_done p) b
                | Inr profile \<Rightarrow> commitProfile a profile (pn_done p) b)))"

subsection \<open>Running a refresh\<close>

record refresh_run =
  rf_slot :: bool
  rf_start :: int
  rf_run :: runtime_run
  rf_identity :: "go_error + gomap"
  rf_limits :: "go_error + gomap"
  rf_readStartedAt :: int
  rf_observedAt :: int
  rf_now :: int
  rf_snapshotID :: string
  rf_incidentID :: string
  rf_profile :: profile_run

definition identity_error :: "bool \<Rightarrow> state_row \<Rightarrow> go_error + gomap \<Rightarrow> go_error option" where
  "identity_error manual s answer =
     (if \<not> manual then None
      else case answer of
             Inl e \<Rightarrow> Some e
           | Inr identity \<Rightarrow> (case verifyIdentity (as_upstream_email s) identity of Inl e \<Rightarrow> Some e | Inr _ \<Rightarrow> None))"

definition read_limits :: "bool \<Rightarrow> state_row \<Rightarrow> refresh_run \<Rightarrow> broker \<Rightarrow> (go_error + gomap) \<times> broker" where
  "read_limits manual s r b =
     (case identity_error manual s (rf_identity r) of Some e \<Rightarrow> (Inl e, b) | None \<Rightarrow> (rf_limits r, b))"

definition runRefresh :: "redactor \<Rightarrow> cred_lib \<Rightarrow> int \<Rightarrow> refresh_run \<Rightarrow> string \<Rightarrow> string \<Rightarrow> bool \<Rightarrow> broker \<Rightarrow> broker" where
  "runRefresh red lib profilePollSeconds r public operation manual b =
     (let b = OperationState (rf_start r) operation ''RUNNING'' ''READING_USAGE'' ''Reading complete rate limits'' b in
      if \<not> rf_slot r then b
      else
        (case service_account (br_db b) public of
           Inl _ \<Rightarrow> FailOperation red (rf_start r) operation ''USAGE_REFRESH_NOT_ELIGIBLE'' ''Account is no longer eligible for usage refresh'' b
         | Inr (a, s) \<Rightarrow>
             if \<not> manual \<and> \<not> ar_enabled a \<or> \<not> may_refresh manual s
             then FailOperation red (rf_start r) operation ''USAGE_REFRESH_NOT_ELIGIBLE'' ''Account is no longer eligible for usage refresh'' b
             else
               (case managedLocked red lib (rf_run r) (ar_account_id a) (read_limits manual s r) b of
                  (Inl e, b) \<Rightarrow>
                    refreshProfile red lib profilePollSeconds (rf_profile r) a
                      (recordUsageFailure red (rf_snapshotID r) (rf_incidentID r) a operation (rf_start r) e (rf_now r) b)
                | (Inr raw, b) \<Rightarrow>
                    (case commitUsageAt (rf_snapshotID r) a operation raw (rf_observedAt r - rf_readStartedAt r) ''Usage refreshed''
                            None False manual (rf_observedAt r) b of
                       (Inl e, b) \<Rightarrow> recordUsageFailure red (rf_snapshotID r) (rf_incidentID r) a operation (rf_start r) e (rf_now r) b
                     | (Inr _, b) \<Rightarrow> refreshProfile red lib profilePollSeconds (rf_profile r) a b))))"

subsection \<open>Claiming a pulse\<close>

definition pulse_not_eligible :: go_error where
  "pulse_not_eligible = NewError ''WINDOW_PULSE_NOT_ELIGIBLE''
     ''Pulse requires stored credentials, available usage, and an idle account without credential quarantine'' 409"

definition account_busy :: go_error where
  "account_busy = NewError ''ACCOUNT_BUSY'' ''Wait for the current account operation to finish'' 409"

definition may_pulse :: "broker_db \<Rightarrow> string \<Rightarrow> bool" where
  "may_pulse db account \<longleftrightarrow>
     (case (find (\<lambda>a. ar_account_id a = account) (t_accounts db), t_account_state db account) of
        (Some a, Some s) \<Rightarrow>
          ar_deleted_at_ms a = None \<and> as_auth_state s \<in> {''VERIFIED'', ''AUTH_REQUIRED''} \<and> as_worker_state s = ''STOPPED''
          \<and> has_active_bundle db account \<and> t_account_quota_blocks db account = None
          \<and> \<not> spent (Option.bind (t_usage_current db account) uc_short_used_percent_raw)
          \<and> \<not> spent (Option.bind (t_usage_current db account) uc_weekly_used_percent_raw)
      | _ \<Rightarrow> False)"

definition start_release :: "string \<Rightarrow> int \<Rightarrow> broker_db \<Rightarrow> broker_db" where
  "start_release account now db =
     db\<lparr>t_window_pulse_state := (t_window_pulse_state db)(account \<mapsto>
          (case t_window_pulse_state db account of
             None \<Rightarrow> \<lparr>pw_last_attempt_at_ms = now, pw_last_success_at_ms = None, pw_next_pulse_at_ms = None,
                      pw_last_error_code = None, pw_cycle_state = ''RELEASING'', pw_weekly_started_at_ms = None,
                      pw_last_usage_observed_at_ms = None, pw_idle_observation_count = 0\<rparr>
           | Some p \<Rightarrow> p\<lparr>pw_cycle_state := ''RELEASING'', pw_last_attempt_at_ms := now, pw_last_error_code := None\<rparr>))\<rparr>"

definition claim_pulse :: "string \<Rightarrow> int \<Rightarrow> string \<Rightarrow> broker_db \<Rightarrow> go_error + (string \<times> bool) \<times> broker_db" where
  "claim_pulse newID now account db =
     (case find (\<lambda>row. op_account_id row = Some account \<and> op_kind row = ''window.pulse'' \<and> is_open row) (t_operations db) of
        Some row \<Rightarrow> Inr ((op_operation_id row, False), db)
      | None \<Rightarrow>
          if \<not> may_pulse db account then Inl pulse_not_eligible
          else if has_open_operation db account then Inl account_busy
          else Inr ((newID, True), start_release account now
                     (add_operation (queued_operation newID (Some account) ''window.pulse'' ''USER'' now) db)))"

definition Pulse :: "redactor \<Rightarrow> bool \<Rightarrow> string \<Rightarrow> int \<Rightarrow> string \<Rightarrow> broker \<Rightarrow> (go_error + string) \<times> broker" where
  "Pulse red accepting newID now public b =
     (case service_account (br_db b) public of
        Inl e \<Rightarrow> (Inl e, b)
      | Inr (a, s) \<Rightarrow>
          (case Write_b (claim_pulse newID now (ar_account_id a)) b of
             (Inl e, b) \<Rightarrow> (Inl e, b)
           | (Inr (operation, created), b) \<Rightarrow>
               (Inr operation, if created \<and> \<not> accepting then stop_job red now operation b else b)))"

definition idle_with_capacity :: "broker_db \<Rightarrow> account_row \<Rightarrow> bool" where
  "idle_with_capacity db a \<longleftrightarrow>
     ar_enabled a \<and> ar_deleted_at_ms a = None
     \<and> (case t_account_state db (ar_account_id a) of
          None \<Rightarrow> False | Some s \<Rightarrow> as_auth_state s = ''VERIFIED'' \<and> as_worker_state s = ''STOPPED'')
     \<and> (case t_usage_current db (ar_account_id a) of None \<Rightarrow> False | Some u \<Rightarrow> capacity_left u)
     \<and> t_account_quota_blocks db (ar_account_id a) = None
     \<and> \<not> has_open_operation db (ar_account_id a)"

definition releasable :: "int \<Rightarrow> int \<Rightarrow> broker_db \<Rightarrow> account_row \<Rightarrow> bool" where
  "releasable retrySeconds now db a \<longleftrightarrow>
     idle_with_capacity db a
     \<and> (case t_window_pulse_state db (ar_account_id a) of
          None \<Rightarrow> False
        | Some p \<Rightarrow> pw_cycle_state p = ''HELD'' \<and> pw_last_attempt_at_ms p \<le> now - retrySeconds * 1000)
     \<and> \<not> list_ex (\<lambda>row. rv_account_id row = ar_account_id a \<and> now < rv_expires_at_ms row) (t_relay_reservations db)
     \<and> \<not> list_ex (\<lambda>row. op_kind row = ''window.pulse'' \<and> is_open row) (t_operations db)"

record pulse_config =
  pc_WindowPulseEnabled :: bool
  pc_WindowPulseRetrySeconds :: int

text \<open>The account the random order puts first is chosen by \<open>pick\<close>. The result is the claimed job.\<close>

definition claimCyclePulse :: "pulse_config \<Rightarrow> string \<Rightarrow> int \<Rightarrow> nat \<Rightarrow> broker_db \<Rightarrow> (string \<times> string) option \<times> broker_db" where
  "claimCyclePulse cfg newID now pick db =
     (if \<not> pc_WindowPulseEnabled cfg then (None, db)
      else
        (let status = snd (cycleSnapshot db) in
         if cs_MemberCount status = 0 \<or> (case cs_NextPulseAtMS status of None \<Rightarrow> True | Some t \<Rightarrow> now < t) then (None, db)
         else
           (let ready = filter (releasable (pc_WindowPulseRetrySeconds cfg) now db) (t_accounts db) in
            if ready = [] then (None, db)
            else
              (let a = ready ! (pick mod length ready) in
               (Some (ar_public_token a, newID),
                start_release (ar_account_id a) now
                  (add_operation (queued_operation newID (Some (ar_account_id a)) ''window.pulse'' ''CYCLE_RELEASE'' now) db))))))"

definition QueuePulses :: "redactor \<Rightarrow> pulse_config \<Rightarrow> bool \<Rightarrow> string \<Rightarrow> int \<Rightarrow> nat \<Rightarrow> broker \<Rightarrow> (string \<times> string) option \<times> broker" where
  "QueuePulses red cfg accepting newID now pick b =
     (case claimCyclePulse cfg newID now pick (reconcileCycle (pc_WindowPulseEnabled cfg) now (br_db b)) of
        (job, db) \<Rightarrow>
          (let b = b\<lparr>br_db := db\<rparr> in
           case job of
             None \<Rightarrow> (None, b)
           | Some (public, operation) \<Rightarrow>
               if accepting then (job, b) else (None, stop_job red now operation b)))"

subsection \<open>Running a pulse\<close>

record pulse_run =
  pu_slot :: bool
  pu_started :: int
  pu_run :: runtime_run
  pu_identity :: "go_error + gomap"
  pu_preflight :: "go_error + gomap"
  pu_preflightMs :: int
  pu_checked :: int
  pu_pulse :: "go_error + gomap"
  pu_observedAt :: int
  pu_details :: string
  pu_now :: int
  pu_preflightID :: string
  pu_snapshotID :: string
  pu_incidentID :: string
  pu_nextID :: string
  pu_pick :: nat
  pu_accepting :: bool

definition window_unknown :: go_error where
  "window_unknown = NewError ''WINDOW_RESET_UNKNOWN'' ''The weekly window did not report a future reset'' 503"

definition preflight_member :: "Usage \<Rightarrow> int \<Rightarrow> cycleMember" where
  "preflight_member usage now =
     \<lparr>cm_id = [], cm_state = [], cm_createdAtMS = 0, cm_shortUsed = used_of (us_Short usage),
      cm_weeklyUsed = used_of (us_Weekly usage), cm_weeklyResetS = reset_of (us_Weekly usage),
      cm_weeklyDurationMinutes = Option.bind (us_Weekly usage) wi_DurationMinutes, cm_usageReadAtMS = Some now,
      cm_weeklyStartedAtMS = None, cm_lastUsageObservedAtMS = None, cm_idleObservationCount = 0,
      cm_hasActivePulseOperation = False\<rparr>"

definition cycle_running :: "Usage \<Rightarrow> int \<Rightarrow> bool" where
  "cycle_running usage now = fst (snd (usageCycleEvidence (preflight_member usage now) now))"

text \<open>What follows the fresh read: skip (True), pulse, or an error.\<close>

definition pulse_after_check :: "bool \<Rightarrow> account_row \<Rightarrow> pulse_run \<Rightarrow> gomap \<Rightarrow> broker_db \<Rightarrow> go_error + gomap \<times> bool" where
  "pulse_after_check manual a p preflight db =
     (let usage = NormalizeUsage preflight in
      if spent (used_of (us_Short usage)) \<or> spent (used_of (us_Weekly usage)) \<or> \<not> manual \<and> cycle_running usage (pu_checked p)
      then Inr (preflight, True)
      else if (case reset_of (us_Weekly usage) of None \<Rightarrow> True | Some r \<Rightarrow> r \<le> go_div (pu_checked p) 1000)
      then Inl window_unknown
      else if t_account_quota_blocks db (ar_account_id a) \<noteq> None then Inr (preflight, True)
      else map_sum id (\<lambda>raw. (raw, False)) (pu_pulse p))"

definition pulse_call :: "bool \<Rightarrow> account_row \<Rightarrow> state_row \<Rightarrow> pulse_run \<Rightarrow> broker \<Rightarrow> (go_error + gomap \<times> bool) \<times> broker" where
  "pulse_call manual a s p b =
     (case identity_error manual s (pu_identity p) of
        Some e \<Rightarrow> (Inl e, b)
      | None \<Rightarrow>
          (case pu_preflight p of
             Inl e \<Rightarrow> (Inl e, b)
           | Inr preflight \<Rightarrow>
               if \<not> completeUsage (NormalizeUsage preflight)
               then (Inl (NewError ''USAGE_UNKNOWN'' ''Usage windows are incomplete or invalid'' 503), b)
               else
                 (case commitUsageAt (pu_preflightID p) a [] preflight (pu_preflightMs p) ''Usage checked before pulse''
                         None False manual (pu_checked p) b of
                    (Inl e, b) \<Rightarrow> (Inl e, b)
                  | (Inr _, b) \<Rightarrow> (pulse_after_check manual a p preflight (br_db b), b))))"

definition hold_cycle :: "string option \<Rightarrow> string \<Rightarrow> broker_db \<Rightarrow> broker_db" where
  "hold_cycle code account db =
     db\<lparr>t_window_pulse_state := update_row (\<lambda>p. p\<lparr>pw_cycle_state := ''HELD'',
          pw_last_error_code := (case code of None \<Rightarrow> pw_last_error_code p | Some c \<Rightarrow> Some c)\<rparr>) account (t_window_pulse_state db)\<rparr>"

definition pulse_code :: "go_error \<Rightarrow> string" where
  "pulse_code e = (case e of CoreError code _ _ \<Rightarrow> code | OtherError _ \<Rightarrow> ''WINDOW_PULSE_FAILED'')"

definition fail_pulse :: "redactor \<Rightarrow> pulse_run \<Rightarrow> account_row \<Rightarrow> string \<Rightarrow> string \<Rightarrow> go_error \<Rightarrow> broker \<Rightarrow> broker" where
  "fail_pulse red p a operation code e b =
     recordUsageFailure red (pu_snapshotID p) (pu_incidentID p) a operation (pu_started p) e (pu_now p)
       (on_db (hold_cycle (Some code) (ar_account_id a)) b)"

definition skip_pulse :: "pulse_run \<Rightarrow> account_row \<Rightarrow> string \<Rightarrow> broker_db \<Rightarrow> broker_db" where
  "skip_pulse p a operation db =
     on_operation operation (\<lambda>row. row\<lparr>op_state := ''SUCCEEDED'',
       op_progress_summary := Some ''Pulse skipped after fresh usage check'', op_completed_at_ms := Some (pu_now p)\<rparr>)
       (hold_cycle None (ar_account_id a) db)"

definition commit_pulse :: "redactor \<Rightarrow> pulse_run \<Rightarrow> account_row \<Rightarrow> string \<Rightarrow> bool \<Rightarrow> gomap \<Rightarrow> broker \<Rightarrow> broker" where
  "commit_pulse red p a operation manual raw b =
     (case reset_of (us_Weekly (NormalizeUsage raw)) of
        None \<Rightarrow> fail_pulse red p a operation ''WINDOW_RESET_UNKNOWN'' window_unknown b
      | Some reset \<Rightarrow>
          if w64 (reset * 1000) \<le> pu_now p then fail_pulse red p a operation ''WINDOW_RESET_UNKNOWN'' window_unknown b
          else
            (case commitUsageAt (pu_snapshotID p) a operation raw (pu_observedAt p - pu_started p) ''Weekly cycle started''
                    (Some (w64 (reset * 1000))) True manual (pu_observedAt p) b of
               (Inl e, b) \<Rightarrow> recordUsageFailure red (pu_snapshotID p) (pu_incidentID p) a operation (pu_started p) e (pu_now p) b
             | (Inr _, b) \<Rightarrow> b))"

text \<open>The result is the job a skipped pulse passes its turn to.\<close>

definition runPulse :: "redactor \<Rightarrow> cred_lib \<Rightarrow> pulse_config \<Rightarrow> pulse_run \<Rightarrow> string \<Rightarrow> string \<Rightarrow> bool \<Rightarrow> broker
    \<Rightarrow> (string \<times> string) option \<times> broker" where
  "runPulse red lib cfg p public operation manual b =
     (case service_account (br_db b) public of
        Inl _ \<Rightarrow> (None, FailOperation red (pu_now p) operation ''WINDOW_PULSE_FAILED'' ''Account unavailable'' b)
      | Inr (a, s) \<Rightarrow>
          (let b = OperationState (pu_started p) operation ''RUNNING'' ''PULSING_WINDOWS'' ''Keeping usage windows active'' b in
           if \<not> pu_slot p then (None, b)
           else
             (case managedLocked red lib (pu_run p) (ar_account_id a) (pulse_call manual a s p) b of
                (outcome, b) \<Rightarrow>
                  (let b = on_db (on_operation operation (\<lambda>row. row\<lparr>op_result_json := Some (pu_details p)\<rparr>)) b in
                   case outcome of
                     Inl e \<Rightarrow> (None, fail_pulse red p a operation (pulse_code e) e b)
                   | Inr (raw, True) \<Rightarrow>
                       QueuePulses red cfg (pu_accepting p) (pu_nextID p) (pu_now p) (pu_pick p)
                         (on_db (skip_pulse p a operation) b)
                   | Inr (raw, False) \<Rightarrow> (None, commit_pulse red p a operation manual raw b)))))"

end
