(* ===== verification/Usage_Jobs_Correct.thy ===== *)
theory Usage_Jobs_Correct
  imports Usage_Jobs
begin

text \<open>
  The jobs of Usage_Jobs are correct: a job ends its operation, an account never has two open
  jobs, and a quota rejection is lifted only by a read that started long enough after it. The
  locale \<open>job_frame\<close> carries any relation that the handling of credentials and profiles keeps
  through a job.
\<close>

subsection \<open>Frames\<close>

locale job_frame =
  fixes R :: "broker_db \<Rightarrow> broker_db \<Rightarrow> bool"
  assumes R_trans: "R x y \<Longrightarrow> R y z \<Longrightarrow> R x z"
    and R_cred: "cred_frame account x y \<Longrightarrow> R x y"
    and R_profiles: "R x (x\<lparr>t_account_profiles := t\<rparr>)"
begin

lemma R_refl: "R x x"
  by (rule R_cred [OF cred_frame_refl])

lemma R_use: "R (br_db b) (br_db (snd (use_credential account started safe b)))"
  by (rule R_cred [OF use_credential_frame])

lemma R_managed:
  assumes "\<And>b. R (br_db b) (br_db (snd (call b)))"
  shows "R (br_db b) (br_db (snd (managedLocked red lib run account call b)))"
proof -
  obtain r b1 where u: "use_credential account True True b = (r, b1)"
    by (cases "use_credential account True True b") auto
  have 1: "R (br_db b) (br_db b1)" using R_use [of b account True True] u by simp
  obtain p b2 where c: "call b1 = (p, b2)" by (cases "call b1") auto
  have 2: "R (br_db b1) (br_db b2)" using assms [of b1] c by simp
  have 3: "R (br_db b) (br_db (snd (finish_use red lib run fp account p b2)))" for fp
    by (rule R_trans [OF R_trans [OF 1 2] R_cred [OF finish_use_frame]])
  show ?thesis
    using 1 3 R_trans [OF 1 R_use [of b1 account False True]]
    by (simp add: managedLocked_def u c R_refl split: sum.split option.split)
qed

lemma R_Lease: "R (br_db b) (br_db (snd (service_Lease red lib run answer account now force b)))"
  by (rule R_cred [OF service_Lease_frame])

lemma R_claimProfile: "R db (snd (claimProfileRefresh seconds account now db))"
  by (auto simp: claimProfileRefresh_def Let_def R_profiles R_refl split: option.split)

lemma R_profile_results:
  "R (br_db b) (br_db (recordProfileFailure red a e now b))" "R (br_db b) (br_db (commitProfile a profile now b))"
  by (simp_all add: recordProfileFailure_def commitProfile_def on_profile_def R_profiles)

lemma R_refreshProfile: "R (br_db b) (br_db (refreshProfile red lib seconds p a b))"
proof -
  obtain claimed db where c: "claimProfileRefresh seconds (ar_account_id a) (pn_now p) (br_db b) = (claimed, db)" by fastforce
  have 1: "R (br_db b) db" using R_claimProfile [of "br_db b" seconds "ar_account_id a" "pn_now p"] c by simp
  obtain r b1 where l: "service_Lease red lib (pn_run p) (pn_answer p) (ar_account_id a) (pn_now p) False (b\<lparr>br_db := db\<rparr>) = (r, b1)"
    by fastforce
  have "R db (br_db b1)"
    using R_Lease [of "b\<lparr>br_db := db\<rparr>" red lib "pn_run p" "pn_answer p" "ar_account_id a" "pn_now p" False] l by simp
  then have 2: "R (br_db b) (br_db b1)" by (rule R_trans [OF 1])
  show ?thesis
    using R_trans [OF 2 R_profile_results(1)] R_trans [OF 2 R_profile_results(2)]
    by (simp add: refreshProfile_def c l R_refl split: bool.split sum.split)
qed

end

subsection \<open>Storing a read touches little\<close>

lemma adjust_quota_frame: "adjustModelLifetime i m active positive db = Inr db' \<Longrightarrow> quota_frame db db'"
  by (auto simp: adjustModelLifetime_def checked_def Let_def quota_frame_def split: option.splits if_splits)

lemma saveActivity_quota_frame:
  assumes "saveActivity i db = Inr db'"
  shows "quota_frame db db'"
proof (cases "find (same_interval i) (t_quota_intervals db)")
  case (Some p)
  show ?thesis
  proof (cases "active_time (qi_spans i) = qi_active_ms i \<and> qi_model p = qi_model i")
    case False
    then obtain db1 db2 where 1: "adjustModelLifetime i (qi_model p) (qi_active_ms i) False db = Inr db1"
      "adjustModelLifetime i (qi_model i) (active_time (qi_spans i)) True db1 = Inr db2"
      using assms Some by (auto simp: saveActivity_def Let_def split: sum.splits)
    have "quota_frame db2 db'"
      using assms Some False 1 by (auto simp: saveActivity_def Let_def checked_def quota_frame_def split: if_splits)
    then show ?thesis using adjust_quota_frame [OF 1(1)] adjust_quota_frame [OF 1(2)] quota_frame_trans by blast
  qed (use assms Some in \<open>simp add: saveActivity_def Let_def\<close>)
qed (use assms in \<open>simp add: saveActivity_def Let_def\<close>)

lemma open_interval_quota_frame: "open_interval i db = Inr db' \<Longrightarrow> quota_frame db db'"
  by (auto simp: open_interval_def split: if_splits dest!: saveActivity_quota_frame elim!: quota_frame_trans [rotated])
    (simp add: quota_frame_def)

lemma open_measured_quota_frame: "open_measured account sn start spans model kind used db = Inr db' \<Longrightarrow> quota_frame db db'"
  by (auto simp: open_measured_def split: option.splits dest: open_interval_quota_frame)

lemma RecordUsage_quota_frame: "RecordUsage account sn db = Inr db' \<Longrightarrow> quota_frame db db'"
  by (auto simp: RecordUsage_def Let_def split: option.splits if_splits sum.splits
      dest!: open_measured_quota_frame intro: quota_frame_trans)

lemma quota_frame_more:
  assumes "quota_frame db db'"
  shows "t_operations db' = t_operations db" "t_account_quota_blocks db' = t_account_quota_blocks db"
    "t_usage_refresh_requests db' = t_usage_refresh_requests db" "t_account_state db' = t_account_state db"
    "t_incidents db' = t_incidents db" "t_window_pulse_state db' = t_window_pulse_state db"
  by (subst assms [unfolded quota_frame_def]; simp)+


lemma on_operation_frame [simp]:
  "t_accounts (on_operation i f db) = t_accounts db" "t_account_quota_blocks (on_operation i f db) = t_account_quota_blocks db"
  "t_usage_current (on_operation i f db) = t_usage_current db"
  by (simp_all add: on_operation_def)

lemma commit_steps [simp]:
  "t_operations (add_snapshot row db) = t_operations db" "t_operations (on_usage g account db) = t_operations db"
  "t_operations (settle_read account started db) = t_operations db"
  "t_operations (request_recovery account now usage db) = t_operations db"
  "t_operations (scheduleUsageResets account now db) = t_operations db"
  "t_operations (on_state h account db) = t_operations db"
  "t_operations (store_pulse account next rel begun now db) = t_operations db"
  "t_accounts (add_snapshot row db) = t_accounts db" "t_accounts (on_usage g account db) = t_accounts db"
  "t_accounts (settle_read account started db) = t_accounts db"
  "t_accounts (request_recovery account now usage db) = t_accounts db"
  "t_accounts (scheduleUsageResets account now db) = t_accounts db"
  "t_accounts (on_state h account db) = t_accounts db"
  "t_accounts (store_pulse account next rel begun now db) = t_accounts db"
  by (simp_all add: add_snapshot_def on_usage_def settle_read_def settleUsageResets_def request_recovery_def
      scheduleUsageResets_def on_state_def store_pulse_def Let_def)

lemma commit_steps_blocks [simp]:
  "t_account_quota_blocks (add_snapshot row db) = t_account_quota_blocks db"
  "t_account_quota_blocks (on_usage g account db) = t_account_quota_blocks db"
  "t_account_quota_blocks (request_recovery account now usage db) = t_account_quota_blocks db"
  "t_account_quota_blocks (scheduleUsageResets account now db) = t_account_quota_blocks db"
  "t_account_quota_blocks (on_state h account db) = t_account_quota_blocks db"
  "t_account_quota_blocks (store_pulse account next rel begun now db) = t_account_quota_blocks db"
  "t_account_quota_blocks (settle_read account started db) =
     delete_where (\<lambda>a row. a = account \<and> qb_blocked_at_ms row \<le> started - usageResetGrace) (t_account_quota_blocks db)"
  by (simp_all add: add_snapshot_def on_usage_def settle_read_def settleUsageResets_def request_recovery_def
      scheduleUsageResets_def on_state_def store_pulse_def Let_def)

lemma usage_transaction_frame:
  assumes "usage_transaction newID account operation usage duration summary pulseNext rel verified now db = Inr ((), db')"
  shows "t_accounts db' = t_accounts db"
    and "t_operations db' = t_operations (succeed_operation now operation summary db)"
    and "t_account_quota_blocks db' = t_account_quota_blocks db \<or>
         t_account_quota_blocks db' = delete_where (\<lambda>a row. a = account \<and> qb_blocked_at_ms row \<le> now - duration - usageResetGrace)
           (t_account_quota_blocks db)"
proof -
  obtain row db1 where step: "(if rel then Inr (add_snapshot row db)
      else RecordUsage account (quota_snapshot newID now usage) (add_snapshot row db)) = Inr db1"
    and rest: "db' = succeed_operation now operation summary
      (let db = on_usage (store_usage newID usage now) account db1;
           db = (if used_of (us_Short usage) \<noteq> None \<and> used_of (us_Weekly usage) \<noteq> None
                 then settle_read account (now - duration) db else db);
           db = request_recovery account now usage db; db = scheduleUsageResets account now db;
           db = on_state (mark_fresh (enabled_account db account) verified now) account db
       in (case pulseNext of None \<Rightarrow> db
           | Some t \<Rightarrow> store_pulse account t rel (cycle_started_at rel usage now) now db))"
    using assms by (auto simp: usage_transaction_def Let_def split: option.splits if_splits sum.splits)
  have "quota_frame (add_snapshot row db) db1"
    using step by (auto split: if_splits dest: RecordUsage_quota_frame)
  note f = quota_frame_fields [OF this] quota_frame_more [OF this]
  show "t_accounts db' = t_accounts db"
    using f by (simp add: rest succeed_operation_def Let_def split: option.split)
  show "t_operations db' = t_operations (succeed_operation now operation summary db)"
    using f by (simp add: rest succeed_operation_def on_operation_def Let_def split: option.split)
  show "t_account_quota_blocks db' = t_account_quota_blocks db \<or>
         t_account_quota_blocks db' = delete_where (\<lambda>a row. a = account \<and> qb_blocked_at_ms row \<le> now - duration - usageResetGrace)
           (t_account_quota_blocks db)"
    using f by (auto simp: rest succeed_operation_def Let_def split: option.split)
qed

subsection \<open>Jobs end\<close>

definition ended :: "string \<Rightarrow> bool" where
  "ended st \<longleftrightarrow> st = ''SUCCEEDED'' \<or> st = ''FAILED''"

lemma ended_simps [simp]: "ended ''SUCCEEDED''" "ended ''FAILED''"
  by (simp_all add: ended_def)

definition settled :: "string \<Rightarrow> broker_db \<Rightarrow> bool" where
  "settled i db \<longleftrightarrow> (\<forall>row\<in>set (t_operations db). op_operation_id row = i \<longrightarrow> ended (op_state row))"

lemma settled_cong: "t_operations db' = t_operations db \<Longrightarrow> settled i db' = settled i db"
  by (simp add: settled_def)

lemma settled_on_operation:
  assumes "\<And>row. op_operation_id (f row) = op_operation_id row" and "\<And>row. ended (op_state (f row))"
  shows "settled i (on_operation i f db)"
  unfolding settled_def
proof (intro ballI impI)
  fix row
  assume row: "row \<in> set (t_operations (on_operation i f db))" "op_operation_id row = i"
  then have "row \<in> (\<lambda>r. if op_operation_id r = i then (f r)\<lparr>op_state_version := op_state_version r + 1\<rparr> else r) ` set (t_operations db)"
    by (simp add: on_operation_def set_update_where)
  then obtain r where "row = (if op_operation_id r = i then (f r)\<lparr>op_state_version := op_state_version r + 1\<rparr> else r)"
    by blast
  then show "ended (op_state row)"
    using row(2) assms(2) [of r] by (cases "op_operation_id r = i") simp_all
qed

lemma settled_Fail [simp]: "settled i (br_db (FailOperation red now i code summary b))"
  by (simp add: FailOperation_def settled_on_operation)

lemma settled_succeed: "settled i (succeed_operation now i summary db)"
  by (simp add: succeed_operation_def settled_on_operation)

lemma settled_recordFailure [simp]: "settled i (br_db (recordUsageFailure red n inc a i t e now b))"
  by (simp add: recordUsageFailure_def Let_def)

lemma ResolveIncident_db:
  "\<exists>rows. br_db (snd (ResolveIncident now account kind b)) = (br_db b)\<lparr>t_incidents := rows\<rparr>"
proof -
  have same: "\<exists>rows. br_db b = (br_db b)\<lparr>t_incidents := rows\<rparr>" by (intro exI [of _ "t_incidents (br_db b)"]) simp
  show ?thesis
  proof (cases "find (open_incident_of account kind) (t_incidents (br_db b))")
    case None
    show ?thesis unfolding ResolveIncident_def None prod.case option.case snd_conv by (rule same)
  next
    case row: (Some row)
    show ?thesis
    proof (cases "incident_account (br_db b) account")
      case None
      show ?thesis unfolding ResolveIncident_def row None prod.case option.case snd_conv by (rule same)
    next
      case (Some x)
      then show ?thesis using row by (cases x) (auto simp: ResolveIncident_def Let_def)
    qed
  qed
qed

lemma ResolveIncident_keeps [simp]:
  "t_operations (br_db (snd (ResolveIncident now account kind b))) = t_operations (br_db b)"
  "t_accounts (br_db (snd (ResolveIncident now account kind b))) = t_accounts (br_db b)"
  "t_account_quota_blocks (br_db (snd (ResolveIncident now account kind b))) = t_account_quota_blocks (br_db b)"
  using ResolveIncident_db [of now account kind b] by auto

lemma commitUsageAt_cases:
  assumes "commitUsageAt newID a operation raw duration summary pulseNext rel verified now b = (r, b')"
  obtains (error) e where "r = Inl e" "b' = b"
  | (stored) db where "r = Inr ()"
      "usage_transaction newID (ar_account_id a) operation (NormalizeUsage raw) duration summary pulseNext rel verified now (br_db b)
         = Inr ((), db)"
      "t_operations (br_db b') = t_operations db" "t_accounts (br_db b') = t_accounts db"
      "t_account_quota_blocks (br_db b') = t_account_quota_blocks db"
proof (cases "completeUsage (NormalizeUsage raw)")
  case True
  show ?thesis
  proof (cases "usage_transaction newID (ar_account_id a) operation (NormalizeUsage raw) duration summary pulseNext rel verified now (br_db b)")
    case (Inl e)
    then show ?thesis using True assms by (auto simp: commitUsageAt_def Let_def Write_b_def Write_def intro: error)
  next
    case (Inr x)
    then obtain db where "x = ((), db)" by (metis old.unit.exhaust surj_pair)
    then show ?thesis
      using True assms Inr by (intro stored [of db]) (auto simp: commitUsageAt_def Let_def Write_b_def Write_def split: if_splits)
  qed
qed (use assms in \<open>auto simp: commitUsageAt_def Let_def intro: error\<close>)

lemma commitUsageAt_settles:
  "commitUsageAt newID a operation raw duration summary pulseNext rel verified now b = (Inr (), b') \<Longrightarrow> settled operation (br_db b')"
proof (erule commitUsageAt_cases)
  fix db
  assume t: "usage_transaction newID (ar_account_id a) operation (NormalizeUsage raw) duration summary pulseNext rel verified now (br_db b)
      = Inr ((), db)" and same: "t_operations (br_db b') = t_operations db"
  have "t_operations (br_db b') = t_operations (succeed_operation now operation summary (br_db b))"
    using usage_transaction_frame(2) [OF t] same by simp
  then show "settled operation (br_db b')" by (rule settled_cong [THEN iffD2]) (rule settled_succeed)
qed simp

interpretation same_operations: job_frame "\<lambda>x y. t_operations y = t_operations x"
  by unfold_locales (auto simp: cred_frame_fields)


lemma settled_refreshProfile: "settled i (br_db b) \<Longrightarrow> settled i (br_db (refreshProfile red lib seconds p a b))"
  by (rule settled_cong [THEN iffD2, OF same_operations.R_refreshProfile])

lemma runRefresh_settles:
  assumes "rf_slot r"
  shows "settled operation (br_db (runRefresh red lib seconds r public operation manual b))"
proof -
  let ?b = "OperationState (rf_start r) operation ''RUNNING'' ''READING_USAGE'' ''Reading complete rate limits'' b"
  show ?thesis
  proof (cases "service_account (br_db ?b) public")
    case (Inr x)
    obtain a s where x: "x = (a, s)" by fastforce
    show ?thesis
    proof (cases "\<not> manual \<and> \<not> ar_enabled a \<or> \<not> may_refresh manual s")
      case True
      then show ?thesis using assms Inr x by (simp add: runRefresh_def Let_def)
    next
      case False
      obtain outcome b1 where m: "managedLocked red lib (rf_run r) (ar_account_id a) (read_limits manual s r) ?b = (outcome, b1)"
        by fastforce
      show ?thesis
      proof (cases outcome)
        case (Inl e)
        then show ?thesis using assms Inr x False m by (simp add: runRefresh_def Let_def settled_refreshProfile)
      next
        case raw: (Inr raw)
        obtain stored b2 where c: "commitUsageAt (rf_snapshotID r) a operation raw (rf_observedAt r - rf_readStartedAt r) ''Usage refreshed''
            None False manual (rf_observedAt r) b1 = (stored, b2)" by fastforce
        show ?thesis
        proof (cases stored)
          case (Inl e)
          then show ?thesis using assms Inr x False m raw c by (simp add: runRefresh_def Let_def)
        next
          case ok: (Inr u)
          then have "settled operation (br_db b2)" using c by (auto dest: commitUsageAt_settles)
          then show ?thesis using assms Inr x False m raw c ok by (simp add: runRefresh_def Let_def settled_refreshProfile)
        qed
      qed
    qed
  qed (use assms in \<open>simp add: runRefresh_def Let_def\<close>)
qed

lemma add_operation_frame [simp]:
  "t_operations (add_operation row db) = t_operations db @ [row]" "t_accounts (add_operation row db) = t_accounts db"
  "t_account_quota_blocks (add_operation row db) = t_account_quota_blocks db"
  by (simp_all add: add_operation_def)

lemma settled_add_operation: "settled i db \<Longrightarrow> op_operation_id row \<noteq> i \<Longrightarrow> settled i (add_operation row db)"
  unfolding settled_def add_operation_frame by simp

lemma settled_other_operation:
  assumes "settled i db" "i \<noteq> j"
    and "\<And>row. op_operation_id (f row) = op_operation_id row"
  shows "settled i (on_operation j f db)"
  unfolding settled_def
proof (intro ballI impI)
  fix row
  assume row: "row \<in> set (t_operations (on_operation j f db))" "op_operation_id row = i"
  then have "row \<in> (\<lambda>r. if op_operation_id r = j then (f r)\<lparr>op_state_version := op_state_version r + 1\<rparr> else r) ` set (t_operations db)"
    by (simp add: on_operation_def set_update_where)
  then obtain r where r: "r \<in> set (t_operations db)"
    "row = (if op_operation_id r = j then (f r)\<lparr>op_state_version := op_state_version r + 1\<rparr> else r)" by blast
  then have "row = r" using row(2) assms(2,3) by (cases "op_operation_id r = j") auto
  then show "ended (op_state row)" using assms(1) r(1) row(2) unfolding settled_def by blast
qed

lemma op_operation_id_queued [simp]: "op_operation_id (queued_operation i account kind trig now) = i"
  by (simp add: queued_operation_def)

lemma start_release_frame [simp]:
  "t_operations (start_release account now db) = t_operations db" "t_accounts (start_release account now db) = t_accounts db"
  "t_account_quota_blocks (start_release account now db) = t_account_quota_blocks db"
  by (simp_all add: start_release_def)

lemma claimCyclePulse_cases:
  assumes "claimCyclePulse cfg newID now pick db = (job, db')"
  obtains (idle) "job = None" "db' = db"
  | (claimed) a where "a \<in> set (t_accounts db)" "releasable (pc_WindowPulseRetrySeconds cfg) now db a"
      "job = Some (ar_public_token a, newID)"
      "db' = start_release (ar_account_id a) now
         (add_operation (queued_operation newID (Some (ar_account_id a)) ''window.pulse'' ''CYCLE_RELEASE'' now) db)"
proof (cases "filter (releasable (pc_WindowPulseRetrySeconds cfg) now db) (t_accounts db)")
  case Nil
  then show ?thesis using assms by (auto simp: claimCyclePulse_def Let_def intro: idle split: if_splits)
next
  case (Cons x xs)
  let ?ready = "filter (releasable (pc_WindowPulseRetrySeconds cfg) now db) (t_accounts db)"
  have a: "?ready ! (pick mod length ?ready) \<in> set ?ready" using Cons by (intro nth_mem) simp
  show ?thesis
  proof (cases "job = None")
    case True
    then show ?thesis using assms Cons by (auto simp: claimCyclePulse_def Let_def intro: idle split: if_splits)
  next
    case False
    then have "job = Some (ar_public_token (?ready ! (pick mod length ?ready)), newID)"
      "db' = start_release (ar_account_id (?ready ! (pick mod length ?ready))) now
         (add_operation (queued_operation newID (Some (ar_account_id (?ready ! (pick mod length ?ready)))) ''window.pulse'' ''CYCLE_RELEASE'' now) db)"
      using assms Cons by (auto simp: claimCyclePulse_def Let_def split: if_splits)
    then show ?thesis using a by (intro claimed [of "?ready ! (pick mod length ?ready)"]) simp_all
  qed
qed

lemma claimCyclePulse_frame:
  assumes "claimCyclePulse cfg newID now pick db = (job, db')"
  shows "t_accounts db' = t_accounts db" "t_account_quota_blocks db' = t_account_quota_blocks db"
  using assms by (cases rule: claimCyclePulse_cases; simp)+

lemma settled_QueuePulses:
  assumes "settled i (br_db b)" "i \<noteq> newID"
  shows "settled i (br_db (snd (QueuePulses red cfg accepting newID now pick b)))"
proof -
  obtain job db where c: "claimCyclePulse cfg newID now pick (reconcileCycle (pc_WindowPulseEnabled cfg) now (br_db b)) = (job, db)"
    by fastforce
  have 0: "settled i (reconcileCycle (pc_WindowPulseEnabled cfg) now (br_db b))"
    using assms(1) by (simp add: settled_def)
  have 1: "settled i db"
    using c
  proof (cases rule: claimCyclePulse_cases)
    case (claimed a)
    have "settled i (add_operation (queued_operation newID (Some (ar_account_id a)) ''window.pulse'' ''CYCLE_RELEASE'' now)
        (reconcileCycle (pc_WindowPulseEnabled cfg) now (br_db b)))"
      using 0 assms(2) by (intro settled_add_operation) simp_all
    then show ?thesis using claimed(4) by (simp add: settled_def)
  qed (use 0 in simp)
  have "settled i (br_db (stop_job red now newID (b\<lparr>br_db := db\<rparr>)))"
    unfolding stop_job_def FailOperation_def br_db_publish br_db_on_db
    by (rule settled_other_operation) (use 1 assms(2) in simp_all)
  then show ?thesis
    using 1 c
    by (cases rule: claimCyclePulse_cases [OF c]) (simp_all add: QueuePulses_def Let_def)
qed

lemma commit_pulse_settles: "settled operation (br_db (commit_pulse red p a operation manual raw b))"
proof (cases "reset_of (us_Weekly (NormalizeUsage raw))")
  case (Some reset)
  obtain stored b1 where c: "commitUsageAt (pu_snapshotID p) a operation raw (pu_observedAt p - pu_started p) ''Weekly cycle started''
     (Some (w64 (reset * 1000))) True manual (pu_observedAt p) b = (stored, b1)" by fastforce
  show ?thesis
  proof (cases stored)
    case (Inr u)
    then have "settled operation (br_db b1)" using c by (auto dest: commitUsageAt_settles)
    then show ?thesis using Some c Inr by (simp add: commit_pulse_def fail_pulse_def)
  qed (simp add: commit_pulse_def fail_pulse_def Some c)
qed (simp add: commit_pulse_def fail_pulse_def)

lemma runPulse_settles:
  assumes "pu_slot p" "pu_nextID p \<noteq> operation"
  shows "settled operation (br_db (snd (runPulse red lib cfg p public operation manual b)))"
proof (cases "service_account (br_db b) public")
  case (Inr x)
  obtain a s where x: "x = (a, s)" by fastforce
  let ?b = "OperationState (pu_started p) operation ''RUNNING'' ''PULSING_WINDOWS'' ''Keeping usage windows active'' b"
  obtain outcome b1 where m: "managedLocked red lib (pu_run p) (ar_account_id a) (pulse_call manual a s p) ?b = (outcome, b1)"
    by fastforce
  let ?b1 = "on_db (on_operation operation (\<lambda>row. row\<lparr>op_result_json := Some (pu_details p)\<rparr>)) b1"
  have "settled operation (br_db (on_db (skip_pulse p a operation) ?b1))"
    by (simp add: skip_pulse_def settled_on_operation)
  note skip = settled_QueuePulses [OF this assms(2) [symmetric]]
  show ?thesis
  proof (cases outcome)
    case (Inl e)
    then show ?thesis using assms(1) Inr x m by (simp add: runPulse_def Let_def fail_pulse_def)
  next
    case ok: (Inr y)
    obtain raw skipped where y: "y = (raw, skipped)" by fastforce
    show ?thesis
      using assms(1) Inr x m ok y skip commit_pulse_settles by (cases skipped) (simp_all add: runPulse_def Let_def)
  qed
qed (use assms in \<open>simp add: runPulse_def\<close>)


subsection \<open>What a job may change\<close>

definition keeps_job :: "(operation_row \<Rightarrow> operation_row) \<Rightarrow> bool" where
  "keeps_job f \<longleftrightarrow> (\<forall>row. op_operation_id (f row) = op_operation_id row \<and> op_account_id (f row) = op_account_id row
     \<and> op_kind (f row) = op_kind row \<and> (is_open (f row) \<longrightarrow> is_open row))"

text \<open>
  A relation that the transactions of a job for \<open>operation\<close> keep, as long as the usage it stores
  was read from no later than \<open>latest\<close> on.
\<close>

locale run_frame = job_frame R for R :: "broker_db \<Rightarrow> broker_db \<Rightarrow> bool" +
  fixes operation :: string and latest :: int
  assumes R_operation: "keeps_job f \<Longrightarrow> R db (on_operation operation f db)"
    and R_commit: "i = operation \<or> i = [] \<Longrightarrow> now - duration \<le> latest \<Longrightarrow>
          R (br_db b) (br_db (snd (commitUsageAt n a i raw duration summary pulseNext rel verified now b)))"
    and R_failure: "R db (store_failure n account code summary duration now db)"
    and R_pulse: "R db (db\<lparr>t_window_pulse_state := t\<rparr>)"
begin

lemma R_Fail: "R (br_db b) (br_db (FailOperation red now operation code summary b))"
  unfolding FailOperation_def br_db_publish br_db_on_db
  by (rule R_operation) (simp add: keeps_job_def is_open_def open_states_def)

lemma R_record: "R (br_db b) (br_db (recordUsageFailure red n inc a operation started e now b))"
proof -
  let ?b = "on_db (store_failure n (ar_account_id a) (failure_code e) (failure_summary red e) (now - started) now) b"
  let ?b2 = "if failure_code e = ''CODEX_AUTH_REQUIRED''
     then snd (OpenIncident red inc now (ar_account_id a) ''authentication_failed'' ''ERROR'' ''Codex authentication must be renewed'' ?b) else ?b"
  have "R (br_db b) (br_db ?b)" by (simp add: R_failure)
  moreover have "R (br_db ?b) (br_db ?b2)"
    by (cases "failure_code e = ''CODEX_AUTH_REQUIRED''") (simp_all only: simp_thms if_True if_False R_refl R_cred [OF OpenIncident_frame])
  ultimately have "R (br_db b) (br_db ?b2)" by (rule R_trans)
  from R_trans [OF this R_Fail] show ?thesis by (simp add: recordUsageFailure_def Let_def)
qed

lemma R_runRefresh:
  assumes "rf_readStartedAt r \<le> latest"
  shows "R (br_db (OperationState (rf_start r) operation ''RUNNING'' ''READING_USAGE'' ''Reading complete rate limits'' b))
           (br_db (runRefresh red lib seconds r public operation manual b))"
proof -
  let ?b = "OperationState (rf_start r) operation ''RUNNING'' ''READING_USAGE'' ''Reading complete rate limits'' b"
  show ?thesis
  proof (cases "rf_slot r \<and> (\<exists>a s. service_account (br_db ?b) public = Inr (a, s) \<and> \<not> (\<not> manual \<and> \<not> ar_enabled a \<or> \<not> may_refresh manual s))")
    case False
    then show ?thesis
      by (auto simp: runRefresh_def Let_def R_refl R_Fail split: sum.split prod.split)
  next
    case True
    then obtain a s where as: "service_account (br_db ?b) public = Inr (a, s)" "\<not> (\<not> manual \<and> \<not> ar_enabled a \<or> \<not> may_refresh manual s)"
      by blast
    have slot: "rf_slot r" using True by blast
    obtain outcome b1 where m: "managedLocked red lib (rf_run r) (ar_account_id a) (read_limits manual s r) ?b = (outcome, b1)"
      by fastforce
    have read: "br_db (snd (read_limits manual s r b)) = br_db b" for b
      by (simp add: read_limits_def split: option.split)
    have 1: "R (br_db ?b) (br_db b1)"
      using R_managed [of "read_limits manual s r" ?b red lib "rf_run r" "ar_account_id a"] m by (simp add: read R_refl)
    show ?thesis
    proof (cases outcome)
      case (Inl e)
      then show ?thesis
        using slot as m R_trans [OF 1 R_trans [OF R_record R_refreshProfile]]
        by (cases manual) (simp_all add: runRefresh_def Let_def)
    next
      case raw: (Inr raw)
      obtain stored b2 where c: "commitUsageAt (rf_snapshotID r) a operation raw (rf_observedAt r - rf_readStartedAt r) ''Usage refreshed''
          None False manual (rf_observedAt r) b1 = (stored, b2)" by fastforce
      have "R (br_db b1) (br_db b2)"
        using R_commit [of operation "rf_observedAt r" "rf_observedAt r - rf_readStartedAt r" b1 "rf_snapshotID r" a raw "''Usage refreshed''" None False manual]
          assms c by simp
      then have 2: "R (br_db ?b) (br_db b2)" by (rule R_trans [OF 1])
      show ?thesis
        using slot as m raw c R_trans [OF 2 R_record] R_trans [OF 2 R_refreshProfile]
        by (cases stored; cases manual) (simp_all add: runRefresh_def Let_def)
    qed
  qed
qed

lemma R_hold: "R db (hold_cycle code account db)"
  by (simp add: hold_cycle_def R_pulse)

lemma R_fail_pulse: "R (br_db b) (br_db (fail_pulse red p a operation code e b))"
  unfolding fail_pulse_def by (rule R_trans [OF _ R_record]) (simp add: R_hold)

lemma R_pulse_call:
  assumes "pu_checked p - pu_preflightMs p \<le> latest"
  shows "R (br_db b) (br_db (snd (pulse_call manual a s p b)))"
proof -
  have "R (br_db b) (br_db (snd (commitUsageAt (pu_preflightID p) a [] raw (pu_preflightMs p) ''Usage checked before pulse''
      None False manual (pu_checked p) b)))" for raw
    by (rule R_commit) (use assms in simp_all)
  then show ?thesis
    by (auto simp: pulse_call_def R_refl split: option.split sum.split prod.split) (metis snd_conv)+
qed

lemma R_commit_pulse:
  assumes "pu_started p \<le> latest"
  shows "R (br_db b) (br_db (commit_pulse red p a operation manual raw b))"
proof (cases "reset_of (us_Weekly (NormalizeUsage raw))")
  case (Some reset)
  obtain stored b1 where c: "commitUsageAt (pu_snapshotID p) a operation raw (pu_observedAt p - pu_started p) ''Weekly cycle started''
     (Some (w64 (reset * 1000))) True manual (pu_observedAt p) b = (stored, b1)" by fastforce
  have "R (br_db b) (br_db b1)"
    using R_commit [of operation "pu_observedAt p" "pu_observedAt p - pu_started p" b "pu_snapshotID p" a raw "''Weekly cycle started''"
        "Some (w64 (reset * 1000))" True manual] assms c by simp
  then show ?thesis
    using Some c R_fail_pulse R_trans [OF _ R_record] by (cases stored) (simp_all add: commit_pulse_def)
qed (simp add: commit_pulse_def R_fail_pulse)

lemma R_runPulse:
  assumes "pu_started p \<le> latest" "pu_checked p - pu_preflightMs p \<le> latest"
  obtains b1 where "R (br_db (if (\<exists>e. service_account (br_db b) public = Inl e) then b
        else OperationState (pu_started p) operation ''RUNNING'' ''PULSING_WINDOWS'' ''Keeping usage windows active'' b)) (br_db b1)"
    and "runPulse red lib cfg p public operation manual b = (None, b1)
      \<or> runPulse red lib cfg p public operation manual b = QueuePulses red cfg (pu_accepting p) (pu_nextID p) (pu_now p) (pu_pick p) b1"
proof (cases "service_account (br_db b) public")
  case (Inl e)
  then show ?thesis
    by (intro that [of "FailOperation red (pu_now p) operation ''WINDOW_PULSE_FAILED'' ''Account unavailable'' b"])
      (simp_all add: runPulse_def R_Fail)
next
  case (Inr x)
  obtain a s where x: "x = (a, s)" by fastforce
  let ?b = "OperationState (pu_started p) operation ''RUNNING'' ''PULSING_WINDOWS'' ''Keeping usage windows active'' b"
  show ?thesis
  proof (cases "pu_slot p")
    case False
    then show ?thesis using Inr x by (intro that [of ?b]) (simp_all add: runPulse_def Let_def R_refl)
  next
    case slot: True
    obtain outcome b1 where m: "managedLocked red lib (pu_run p) (ar_account_id a) (pulse_call manual a s p) ?b = (outcome, b1)"
      by fastforce
    let ?b1 = "on_db (on_operation operation (\<lambda>row. row\<lparr>op_result_json := Some (pu_details p)\<rparr>)) b1"
    have "R (br_db ?b) (br_db b1)"
      using R_managed [of "pulse_call manual a s p" ?b red lib "pu_run p" "ar_account_id a"] m R_pulse_call [OF assms(2)] by simp
    moreover have "R (br_db b1) (br_db ?b1)" by (simp add: R_operation keeps_job_def is_open_def)
    ultimately have 1: "R (br_db ?b) (br_db ?b1)" by (rule R_trans)
    have skip: "R (br_db ?b) (br_db (on_db (skip_pulse p a operation) ?b1))"
      by (rule R_trans [OF 1]) (simp add: skip_pulse_def R_trans [OF R_hold R_operation] keeps_job_def is_open_def open_states_def)
    show ?thesis
    proof (cases outcome)
      case (Inl e)
      then show ?thesis
        using R_trans [OF 1 R_fail_pulse] Inr x slot m
        by (intro that [of "fail_pulse red p a operation (pulse_code e) e ?b1"]) (simp_all add: runPulse_def Let_def)
    next
      case ok: (Inr y)
      obtain raw skipped where y: "y = (raw, skipped)" by fastforce
      show ?thesis
      proof (cases skipped)
        case True
        then show ?thesis
          using skip Inr x slot m ok y
          by (intro that [of "on_db (skip_pulse p a operation) ?b1"]) (simp_all add: runPulse_def Let_def)
      next
        case False
        then show ?thesis
          using R_trans [OF 1 R_commit_pulse [OF assms(1)]] Inr x slot m ok y
          by (intro that [of "commit_pulse red p a operation manual raw ?b1"]) (simp_all add: runPulse_def Let_def)
      qed
    qed
  qed
qed

end


subsection \<open>Quota rejections\<close>

definition blocks_kept :: "int \<Rightarrow> broker_db \<Rightarrow> broker_db \<Rightarrow> bool" where
  "blocks_kept latest db db' \<longleftrightarrow>
     (\<forall>k row. t_account_quota_blocks db k = Some row \<longrightarrow>
        t_account_quota_blocks db' k = Some row \<or> qb_blocked_at_ms row + usageResetGrace \<le> latest)"

lemma blocks_kept_same: "t_account_quota_blocks db' = t_account_quota_blocks db \<Longrightarrow> blocks_kept latest db db'"
  by (simp add: blocks_kept_def)

lemma commitUsageAt_blocks:
  assumes "now - duration \<le> latest"
  shows "blocks_kept latest (br_db b) (br_db (snd (commitUsageAt n a i raw duration summary pulseNext rel verified now b)))"
proof -
  obtain r b' where c: "commitUsageAt n a i raw duration summary pulseNext rel verified now b = (r, b')" by fastforce
  then show ?thesis
  proof (cases rule: commitUsageAt_cases)
    case (error e)
    then show ?thesis using c by (simp add: blocks_kept_same)
  next
    case (stored db)
    from usage_transaction_frame(3) [OF stored(2)] show ?thesis
      using assms c stored(5) by (auto simp: blocks_kept_def delete_where_def)
  qed
qed

lemma store_failure_frame [simp]:
  "t_account_quota_blocks (store_failure n account code summary duration now db) = t_account_quota_blocks db"
  "t_operations (store_failure n account code summary duration now db) = t_operations db"
  "t_accounts (store_failure n account code summary duration now db) = t_accounts db"
  by (simp_all add: store_failure_def)

interpretation kept_blocks: run_frame "blocks_kept latest" operation latest for latest operation
  by unfold_locales
    (auto simp: blocks_kept_same cred_frame_fields commitUsageAt_blocks, auto simp: blocks_kept_def)

lemma OperationState_blocks [simp]:
  "t_account_quota_blocks (br_db (OperationState now operation state code summary b)) = t_account_quota_blocks (br_db b)"
  by (simp add: OperationState_def)

lemma QueuePulses_blocks:
  "t_account_quota_blocks (br_db (snd (QueuePulses red cfg accepting newID now pick b))) = t_account_quota_blocks (br_db b)"
proof -
  obtain job db where c: "claimCyclePulse cfg newID now pick (reconcileCycle (pc_WindowPulseEnabled cfg) now (br_db b)) = (job, db)"
    by fastforce
  show ?thesis
    using claimCyclePulse_frame(2) [OF c] c
    by (cases job) (auto simp: QueuePulses_def Let_def stop_job_def FailOperation_def)
qed

text \<open>
  C7: a usage read that was already running when the upstream rejected an account's quota does not
  undo the rejection. A refresh or a pulse lifts a quota block only if one of its reads began at
  least 45 s after the rejection, whatever the read reports.
\<close>

theorem read_in_flight_keeps_quota_rejection:
  assumes "t_account_quota_blocks (br_db b) k = Some row"
  shows "(rf_readStartedAt r < qb_blocked_at_ms row + usageResetGrace \<longrightarrow>
       t_account_quota_blocks (br_db (runRefresh red lib seconds r public operation manual b)) k = Some row)
     \<and> (pu_started p < qb_blocked_at_ms row + usageResetGrace \<and>
         pu_checked p - pu_preflightMs p < qb_blocked_at_ms row + usageResetGrace \<longrightarrow>
         t_account_quota_blocks (br_db (snd (runPulse red lib cfg p public operation manual b))) k = Some row)"
proof (intro conjI impI)
  assume "rf_readStartedAt r < qb_blocked_at_ms row + usageResetGrace"
  then show "t_account_quota_blocks (br_db (runRefresh red lib seconds r public operation manual b)) k = Some row"
    using kept_blocks.R_runRefresh [of r "rf_readStartedAt r" operation b red lib seconds public manual] assms
    by (fastforce simp: blocks_kept_def)
next
  let ?latest = "max (pu_started p) (pu_checked p - pu_preflightMs p)"
  assume late: "pu_started p < qb_blocked_at_ms row + usageResetGrace \<and>
    pu_checked p - pu_preflightMs p < qb_blocked_at_ms row + usageResetGrace"
  obtain b1 where kept: "blocks_kept ?latest (br_db (if (\<exists>e. service_account (br_db b) public = Inl e) then b
        else OperationState (pu_started p) operation ''RUNNING'' ''PULSING_WINDOWS'' ''Keeping usage windows active'' b)) (br_db b1)"
    and r: "runPulse red lib cfg p public operation manual b = (None, b1)
      \<or> runPulse red lib cfg p public operation manual b = QueuePulses red cfg (pu_accepting p) (pu_nextID p) (pu_now p) (pu_pick p) b1"
    by (rule kept_blocks.R_runPulse [of p ?latest b public operation red lib cfg manual]) simp_all
  have "t_account_quota_blocks (br_db b1) k = Some row \<or> qb_blocked_at_ms row + usageResetGrace \<le> ?latest"
    using kept assms by (auto simp: blocks_kept_def split: if_splits)
  then have "t_account_quota_blocks (br_db b1) k = Some row" using late by auto
  then show "t_account_quota_blocks (br_db (snd (runPulse red lib cfg p public operation manual b))) k = Some row"
    using r by (auto simp: QueuePulses_blocks)
qed

end
