(* ===== verification/Usage_One_Job.thy ===== *)
theory Usage_One_Job
  imports Usage_Jobs_Correct
begin

text \<open>
  The jobs of Usage_Jobs as a system: claims from every lane, jobs that run in any order, and
  other services in between. An account never has two open jobs.
\<close>

subsection \<open>One job at a time\<close>

text \<open>What a job does to the operations: it changes only its own, and opens none.\<close>

definition op_step :: "string set \<Rightarrow> operation_row \<Rightarrow> operation_row \<Rightarrow> bool" where
  "op_step I r r' \<longleftrightarrow> (op_operation_id r \<notin> I \<longrightarrow> r' = r) \<and> op_operation_id r' = op_operation_id r
     \<and> op_account_id r' = op_account_id r \<and> op_kind r' = op_kind r \<and> (is_open r' \<longrightarrow> is_open r)"

definition ops_frame :: "string set \<Rightarrow> broker_db \<Rightarrow> broker_db \<Rightarrow> bool" where
  "ops_frame I db db' \<longleftrightarrow> t_accounts db' = t_accounts db \<and> list_all2 (op_step I) (t_operations db) (t_operations db')"

lemma op_step_refl [simp]: "op_step I r r"
  by (simp add: op_step_def)

lemma ops_frame_same: "t_accounts db' = t_accounts db \<Longrightarrow> t_operations db' = t_operations db \<Longrightarrow> ops_frame I db db'"
  by (simp add: ops_frame_def list_all2_same)

lemma ops_frame_trans: "ops_frame I x y \<Longrightarrow> ops_frame I y z \<Longrightarrow> ops_frame I x z"
proof -
  assume "ops_frame I x y" "ops_frame I y z"
  moreover have "op_step I a b \<Longrightarrow> op_step I b c \<Longrightarrow> op_step I a c" for a b c by (auto simp: op_step_def)
  ultimately show ?thesis
    using list_all2_trans [of "op_step I" "op_step I" "op_step I" "t_operations x" "t_operations y" "t_operations z"]
    unfolding ops_frame_def by metis
qed

lemma op_steps:
  assumes "list_all2 (op_step I) xs ys"
  shows "map op_operation_id ys = map op_operation_id xs" and "y \<in> set ys \<Longrightarrow> \<exists>x\<in>set xs. op_step I x y"
  using assms by (induction rule: list_all2_induct) (auto simp: op_step_def)

lemma ops_frame_operation:
  assumes "i \<in> I"
    and "\<And>row. row \<in> set (t_operations db) \<Longrightarrow> op_operation_id row = i \<Longrightarrow>
      op_operation_id (f row) = i \<and> op_account_id (f row) = op_account_id row \<and> op_kind (f row) = op_kind row
      \<and> (is_open (f row) \<longrightarrow> is_open row)"
  shows "ops_frame I db (on_operation i f db)"
  using assms
  by (auto simp: ops_frame_def on_operation_def update_where_def list_all2_map2 op_step_def is_open_def intro!: list.rel_refl_strong)

lemma commitUsageAt_ops:
  assumes "i \<in> I"
  shows "ops_frame I (br_db b) (br_db (snd (commitUsageAt n a i raw duration summary pulseNext rel verified now b)))"
proof -
  obtain r b' where c: "commitUsageAt n a i raw duration summary pulseNext rel verified now b = (r, b')" by fastforce
  then show ?thesis
  proof (cases rule: commitUsageAt_cases)
    case (error e)
    then show ?thesis using c by (simp add: ops_frame_same)
  next
    case (stored db)
    have "ops_frame I (br_db b) (succeed_operation now i summary (br_db b))"
      unfolding succeed_operation_def
      by (rule ops_frame_operation) (use assms in \<open>simp_all add: is_open_def open_states_def\<close>)
    moreover have "ops_frame I (succeed_operation now i summary (br_db b)) (br_db b')"
      using usage_transaction_frame(1,2) [OF stored(2)] stored(3,4)
      by (intro ops_frame_same) (simp_all add: succeed_operation_def)
    ultimately show ?thesis using c ops_frame_trans by fastforce
  qed
qed

interpretation own_operation: run_frame "ops_frame {operation, []}" operation latest for operation latest
proof unfold_locales
  show "ops_frame {operation, []} x z" if "ops_frame {operation, []} x y" "ops_frame {operation, []} y z" for x y z
    using that by (rule ops_frame_trans)
  show "ops_frame {operation, []} x y" if "cred_frame account x y" for account x y
    using cred_frame_fields [OF that] by (simp add: ops_frame_same)
  show "ops_frame {operation, []} db (on_operation operation f db)" if "keeps_job f" for f db
    using that by (intro ops_frame_operation) (simp_all add: keeps_job_def)
  show "ops_frame {operation, []} (br_db b) (br_db (snd (commitUsageAt n a i raw duration summary pulseNext rel verified now b)))"
    if "i = operation \<or> i = []" for i b n a raw duration summary pulseNext rel verified now
    using that by (intro commitUsageAt_ops) auto
qed (simp_all add: ops_frame_same)

lemma ops_frame_start:
  assumes "\<forall>row\<in>set (t_operations (br_db b)). op_operation_id row = operation \<longrightarrow> is_open row"
  shows "ops_frame {operation, []} (br_db b) (br_db (OperationState now operation ''RUNNING'' code summary b))"
  unfolding OperationState_def br_db_publish br_db_on_db
  by (rule ops_frame_operation) (use assms in \<open>auto simp: progress_operation_def\<close>)

lemma one_job_ops_frame:
  assumes "one_job db" "ops_frame I db db'"
  shows "one_job db'"
proof -
  have "length (filter P ys) \<le> length (filter P xs)"
    if "list_all2 (op_step I) xs ys" "\<And>r r'. op_step I r r' \<Longrightarrow> P r' \<Longrightarrow> P r" for xs ys P
    using that(1) by (induction rule: list_all2_induct) (auto dest: that(2))
  from this [of "t_operations db" "t_operations db'" "\<lambda>row. op_account_id row = Some account \<and> is_job row" for account]
  have "length (jobs_of account (t_operations db')) \<le> length (jobs_of account (t_operations db))" for account
    using assms(2) by (auto simp: ops_frame_def jobs_of_def op_step_def is_job_def)
  then show ?thesis using assms(1) unfolding one_job_def by (meson order_trans)
qed

lemma open_ops_frame:
  assumes "\<forall>row\<in>set (t_operations db). op_operation_id row = i \<longrightarrow> is_open row" "ops_frame I db db'" "i \<notin> I"
  shows "\<forall>row\<in>set (t_operations db'). op_operation_id row = i \<longrightarrow> is_open row"
proof (intro ballI impI)
  fix r'
  assume "r' \<in> set (t_operations db')" "op_operation_id r' = i"
  then obtain r where "r \<in> set (t_operations db)" "op_step I r r'"
    using assms(2) op_steps(2) unfolding ops_frame_def by metis
  then show "is_open r'" using assms(1,3) \<open>op_operation_id r' = i\<close> by (auto simp: op_step_def)
qed

lemma ids_ops_frame: "ops_frame I db db' \<Longrightarrow> op_operation_id ` set (t_operations db') = op_operation_id ` set (t_operations db)"
  unfolding ops_frame_def by (metis op_steps(1) list.set_map)


text \<open>
  The jobs that are claimed and not yet run, and the broker. A claim uses a new identifier; any
  pending job may run next, and other services may change the database between steps, without
  adding a job or touching the operations of pending ones.
\<close>

datatype job = RefreshJob (job_public: string) (job_operation: string) bool | PulseJob (job_public: string) (job_operation: string) bool

definition fresh_id :: "string \<Rightarrow> broker_db \<Rightarrow> bool" where
  "fresh_id i db \<longleftrightarrow> i \<noteq> [] \<and> i \<notin> op_operation_id ` set (t_operations db)"

inductive usage_step :: "redactor \<Rightarrow> cred_lib \<Rightarrow> pulse_config \<Rightarrow> int \<Rightarrow> job list \<times> broker \<Rightarrow> job list \<times> broker \<Rightarrow> bool"
  for red lib cfg seconds where
  refresh: "fresh_id i (br_db b) \<Longrightarrow> Refresh red accepting i now public trig b = (outcome, b') \<Longrightarrow>
     usage_step red lib cfg seconds (js, b) (if outcome = Inr i \<and> accepting then js @ [RefreshJob public i (trig = ''USER'')] else js, b')"
| pulse: "fresh_id i (br_db b) \<Longrightarrow> Pulse red accepting i now public b = (outcome, b') \<Longrightarrow>
     usage_step red lib cfg seconds (js, b) (if outcome = Inr i \<and> accepting then js @ [PulseJob public i True] else js, b')"
| queue: "fresh_id i (br_db b) \<Longrightarrow> QueuePulses red cfg accepting i now pick b = (claim, b') \<Longrightarrow>
     usage_step red lib cfg seconds (js, b) (js @ (case claim of None \<Rightarrow> [] | Some (public, operation) \<Rightarrow> [PulseJob public operation False]), b')"
| scheduled: "fresh_id i (br_db b) \<Longrightarrow> claimScheduledRefresh (pc_WindowPulseEnabled cfg) i now daily (br_db b) = (claim, db) \<Longrightarrow>
     usage_step red lib cfg seconds (js, b)
       (js @ (case claim of None \<Rightarrow> [] | Some r \<Rightarrow> [RefreshJob (rr_public r) (rr_operation r) False]), b\<lparr>br_db := db\<rparr>)"
| resets: "inj ids \<Longrightarrow> (\<And>n. fresh_id (ids n) (br_db b)) \<Longrightarrow>
     claimResetRefreshes (pc_WindowPulseEnabled cfg) ids now (br_db b) = (claims, db) \<Longrightarrow>
     usage_step red lib cfg seconds (js, b) (js @ map (\<lambda>r. RefreshJob (rr_public r) (rr_operation r) False) claims, b\<lparr>br_db := db\<rparr>)"
| stopped: "j \<in> set js \<Longrightarrow> usage_step red lib cfg seconds (js, b) (remove1 j js, FailOperation red now (job_operation j) code summary b)"
| run_refresh: "RefreshJob public operation manual \<in> set js \<Longrightarrow>
     usage_step red lib cfg seconds (js, b)
       (remove1 (RefreshJob public operation manual) js, runRefresh red lib seconds r public operation manual b)"
| run_pulse: "PulseJob public operation manual \<in> set js \<Longrightarrow> fresh_id (pu_nextID p) (br_db b) \<Longrightarrow>
     runPulse red lib cfg p public operation manual b = (claim, b') \<Longrightarrow>
     usage_step red lib cfg seconds (js, b)
       (remove1 (PulseJob public operation manual) js
          @ (case claim of None \<Rightarrow> [] | Some (public, operation) \<Rightarrow> [PulseJob public operation False]), b')"
| elsewhere: "distinct (map ar_account_id (t_accounts (br_db b'))) \<Longrightarrow>
     t_operations (br_db b') = t_operations (br_db b) @ rows \<Longrightarrow> list_all (\<lambda>row. \<not> is_job row) rows \<Longrightarrow>
     (\<And>row. row \<in> set rows \<Longrightarrow> fresh_id (op_operation_id row) (br_db b)) \<Longrightarrow>
     usage_step red lib cfg seconds (js, b) (js, b')"

definition pending_ok :: "broker_db \<Rightarrow> job \<Rightarrow> bool" where
  "pending_ok db j \<longleftrightarrow> job_operation j \<noteq> [] \<and> job_operation j \<in> op_operation_id ` set (t_operations db)
     \<and> (\<forall>row\<in>set (t_operations db). op_operation_id row = job_operation j \<longrightarrow> is_open row)"

definition usage_inv :: "job list \<Rightarrow> broker_db \<Rightarrow> bool" where
  "usage_inv js db \<longleftrightarrow> one_job db \<and> distinct (map ar_account_id (t_accounts db)) \<and> distinct (map job_operation js)
     \<and> (\<forall>j\<in>set js. pending_ok db j)"

lemma usage_inv_same:
  "t_accounts db' = t_accounts db \<Longrightarrow> t_operations db' = t_operations db \<Longrightarrow> usage_inv js db' = usage_inv js db"
  by (simp add: usage_inv_def pending_ok_def one_job_def)

text \<open>A claim: a queued operation with a new identifier for an account without an open one.\<close>

lemma usage_inv_claim:
  assumes "usage_inv js db" "fresh_id i db" "\<not> has_open_operation db account" "job_operation j = i"
    and "t_operations db' = t_operations (add_operation (queued_operation i (Some account) kind trig now) db)" "t_accounts db' = t_accounts db"
  shows "usage_inv (js @ [j]) db'"
proof -
  let ?db = "add_operation (queued_operation i (Some account) kind trig now) db"
  have "one_job ?db" using assms(1,3) by (intro one_job_add) (simp_all add: usage_inv_def)
  moreover have "pending_ok ?db k" if "k \<in> set js" for k
    using that assms(1,2) by (auto simp: usage_inv_def pending_ok_def fresh_id_def)
  moreover have "pending_ok ?db j" using assms(2,4) by (auto simp: pending_ok_def fresh_id_def image_iff)
  moreover have "i \<notin> job_operation ` set js" using assms(1,2) by (auto simp: usage_inv_def pending_ok_def fresh_id_def)
  ultimately have "usage_inv (js @ [j]) ?db" using assms(1,4) by (auto simp: usage_inv_def)
  then show ?thesis using assms(5,6) usage_inv_same [of ?db db'] by simp
qed

text \<open>Running a pending job or failing it: its operation is among those \<open>I\<close> of the frame.\<close>

lemma usage_inv_frame:
  assumes "usage_inv js db" "ops_frame I db db'" "\<And>j. j \<in> set js' \<Longrightarrow> j \<in> set js \<and> job_operation j \<notin> I" "distinct js'"
  shows "usage_inv js' db'"
proof -
  have inj: "inj_on job_operation (set js)" using assms(1) by (simp add: usage_inv_def distinct_map)
  have "pending_ok db' j" if "j \<in> set js'" for j
  proof -
    have "pending_ok db j" "job_operation j \<notin> I" using assms(1) assms(3) [OF that] by (auto simp: usage_inv_def)
    then show ?thesis using assms(2) ids_ops_frame [OF assms(2)] open_ops_frame [OF _ assms(2)] unfolding pending_ok_def by metis
  qed
  moreover have "one_job db'" using assms(1) one_job_ops_frame [OF _ assms(2)] by (simp add: usage_inv_def)
  moreover have "distinct (map job_operation js')"
    using assms(3,4) inj by (auto simp: distinct_map intro: inj_on_subset)
  ultimately show ?thesis using assms(1,2) by (simp add: usage_inv_def ops_frame_def)
qed


lemma usage_inv_distinct: "usage_inv js db \<Longrightarrow> distinct js"
  by (simp add: usage_inv_def distinct_map)

lemma ops_frame_Fail: "i \<in> I \<Longrightarrow> ops_frame I (br_db b) (br_db (FailOperation red now i code summary b))"
  unfolding FailOperation_def br_db_publish br_db_on_db
  by (rule ops_frame_operation) (simp_all add: is_open_def open_states_def)

text \<open>A claim that the scheduler rejects is failed at once.\<close>

lemma usage_inv_stop:
  assumes "usage_inv (js @ [j]) (br_db b)"
  shows "usage_inv js (br_db (FailOperation red now (job_operation j) code summary b))"
proof (rule usage_inv_frame [OF assms ops_frame_Fail [of _ "{job_operation j}"]])
  show "distinct js" using usage_inv_distinct [OF assms] by simp
  show "k \<in> set (js @ [j]) \<and> job_operation k \<notin> {job_operation j}" if "k \<in> set js" for k
    using that assms by (auto simp: usage_inv_def image_iff)
qed simp

lemma usage_inv_started:
  assumes "usage_inv js (br_db b)" "fresh_id i (br_db b)" "\<not> has_open_operation (br_db b) account" "job_operation j = i"
    and "t_operations (br_db b1) = t_operations (add_operation (queued_operation i (Some account) kind trig now) (br_db b))"
    and "t_accounts (br_db b1) = t_accounts (br_db b)"
  shows "usage_inv (if accepting then js @ [j] else js) (br_db (if accepting then b1 else stop_job red now' i b1))"
  using usage_inv_claim [OF assms] usage_inv_stop [of js j b1] assms(4) by (auto simp: stop_job_def)

lemma find_SomeD: "find P xs = Some x \<Longrightarrow> P x" "find P xs = Some x \<Longrightarrow> x \<in> set xs"
  by (auto simp: find_Some_iff)

lemma open_job_ids:
  "open_job account kind db = Some row \<Longrightarrow> op_operation_id row \<in> op_operation_id ` set (t_operations db)"
  by (auto simp: open_job_def dest!: find_SomeD(2))

lemma Refresh_cases:
  assumes "Refresh red accepting i now public trig b = (outcome, b')"
  obtains (error) e where "outcome = Inl e" "b' = b"
  | (claim) a :: account_row and operation created db where "claim_refresh i now (ar_account_id a) trig (br_db b) = Inr ((operation, created), db)"
      "outcome = Inr operation"
      "b' = (if created \<and> \<not> accepting then stop_job red now operation (b\<lparr>br_db := db\<rparr>) else b\<lparr>br_db := db\<rparr>)"
proof (cases "service_account (br_db b) public")
  case (Inl e)
  then show ?thesis using assms by (intro error [of e]) (simp_all add: Refresh_def)
next
  case (Inr x)
  obtain a s where x: "x = (a, s)" by fastforce
  show ?thesis
  proof (cases "claim_refresh i now (ar_account_id a) trig (br_db b)")
    case (Inl e)
    then show ?thesis using assms Inr x
      by (auto simp: Refresh_def Write_b_def Write_def intro: error split: if_splits)
  next
    case c: (Inr y)
    obtain operation created db where y: "y = ((operation, created), db)" by (metis surj_pair)
    show ?thesis using assms Inr x c y
      by (auto simp: Refresh_def Write_b_def Write_def intro: error claim [OF c [unfolded y]] split: if_splits)
  qed
qed

lemma Refresh_inv:
  assumes "Refresh red accepting i now public trig b = (outcome, b')" "fresh_id i (br_db b)" "usage_inv js (br_db b)"
  shows "usage_inv (if outcome = Inr i \<and> accepting then js @ [RefreshJob public i manual] else js) (br_db b')"
  using assms(1)
proof (cases rule: Refresh_cases)
  case (claim a operation created db)
  note c = claim(1) and r = claim(2,3)
  let ?b1 = "b\<lparr>br_db := db\<rparr>"
  show ?thesis
  proof (cases "open_job (ar_account_id a) ''usage.refresh'' (br_db b)")
    case (Some row)
    then have same: "db = br_db b" "\<not> created" "operation = op_operation_id row" using c by (simp_all add: claim_refresh_def)
    then have "operation \<noteq> i" using open_job_ids [OF Some] assms(2) by (auto simp: fresh_id_def)
    then show ?thesis using r same assms(3) by simp
  next
    case None
    then have new: "\<not> has_open_operation (br_db b) (ar_account_id a)" "operation = i" "created"
      "db = add_operation (queued_operation i (Some (ar_account_id a)) ''usage.refresh'' trig now) (br_db b)"
      using c by (auto simp: claim_refresh_def split: if_splits)
    show ?thesis
      using usage_inv_started [OF assms(3,2) new(1), of "RefreshJob public i manual" ?b1 "''usage.refresh''" trig now accepting red now] r new
      by (cases accepting) simp_all
  qed
qed (use assms(3) in auto)

lemma Pulse_cases:
  assumes "Pulse red accepting i now public b = (outcome, b')"
  obtains (error) e where "outcome = Inl e" "b' = b"
  | (claim) a :: account_row and operation created db where "claim_pulse i now (ar_account_id a) (br_db b) = Inr ((operation, created), db)"
      "outcome = Inr operation"
      "b' = (if created \<and> \<not> accepting then stop_job red now operation (b\<lparr>br_db := db\<rparr>) else b\<lparr>br_db := db\<rparr>)"
proof (cases "service_account (br_db b) public")
  case (Inl e)
  then show ?thesis using assms by (intro error [of e]) (simp_all add: Pulse_def)
next
  case (Inr x)
  obtain a s where x: "x = (a, s)" by fastforce
  show ?thesis
  proof (cases "claim_pulse i now (ar_account_id a) (br_db b)")
    case (Inl e)
    then show ?thesis using assms Inr x
      by (auto simp: Pulse_def Write_b_def Write_def intro: error split: if_splits)
  next
    case c: (Inr y)
    obtain operation created db where y: "y = ((operation, created), db)" by (metis surj_pair)
    show ?thesis using assms Inr x c y
      by (auto simp: Pulse_def Write_b_def Write_def intro: error claim [OF c [unfolded y]] split: if_splits)
  qed
qed

lemma Pulse_inv:
  assumes "Pulse red accepting i now public b = (outcome, b')" "fresh_id i (br_db b)" "usage_inv js (br_db b)"
  shows "usage_inv (if outcome = Inr i \<and> accepting then js @ [PulseJob public i manual] else js) (br_db b')"
  using assms(1)
proof (cases rule: Pulse_cases)
  case (claim a operation created db)
  note c = claim(1) and r = claim(2,3)
  let ?b1 = "b\<lparr>br_db := db\<rparr>"
  show ?thesis
  proof (cases "find (\<lambda>row. op_account_id row = Some (ar_account_id a) \<and> op_kind row = ''window.pulse'' \<and> is_open row) (t_operations (br_db b))")
    case (Some row)
    then have same: "db = br_db b" "\<not> created" "operation = op_operation_id row" using c by (simp_all add: claim_pulse_def)
    then have "operation \<noteq> i" using find_SomeD(2) [OF Some] assms(2) by (auto simp: fresh_id_def)
    then show ?thesis using r same assms(3) by simp
  next
    case None
    then have new: "\<not> has_open_operation (br_db b) (ar_account_id a)" "operation = i" "created"
      "db = start_release (ar_account_id a) now
         (add_operation (queued_operation i (Some (ar_account_id a)) ''window.pulse'' ''USER'' now) (br_db b))"
      using c by (auto simp: claim_pulse_def split: if_splits)
    show ?thesis
      using usage_inv_started [OF assms(3,2) new(1), of "PulseJob public i manual" ?b1 "''window.pulse''" "''USER''" now accepting red now] r new
      by (cases accepting) simp_all
  qed
qed (use assms(3) in auto)

lemma QueuePulses_inv:
  assumes "QueuePulses red cfg accepting i now pick b = (claim, b')" "fresh_id i (br_db b)" "usage_inv js (br_db b)"
  shows "usage_inv (js @ (case claim of None \<Rightarrow> [] | Some (public, operation) \<Rightarrow> [PulseJob public operation False])) (br_db b')"
proof -
  let ?db = "reconcileCycle (pc_WindowPulseEnabled cfg) now (br_db b)"
  obtain job db where c: "claimCyclePulse cfg i now pick ?db = (job, db)" by fastforce
  have inv: "usage_inv js ?db" and fresh: "fresh_id i ?db"
    using assms(2,3) usage_inv_same [of ?db "br_db b" js] by (simp_all add: fresh_id_def)
  show ?thesis
    using c
  proof (cases rule: claimCyclePulse_cases)
    case idle
    then show ?thesis using assms(1) c inv by (auto simp: QueuePulses_def Let_def)
  next
    case (claimed a)
    have "\<not> has_open_operation ?db (ar_account_id a)" using claimed(2) by (simp add: releasable_def idle_with_capacity_def)
    from usage_inv_started [of js "b\<lparr>br_db := ?db\<rparr>" i "ar_account_id a" "PulseJob (ar_public_token a) i False" "b\<lparr>br_db := db\<rparr>"
        "''window.pulse''" "''CYCLE_RELEASE''" now accepting red now]
    have "usage_inv (if accepting then js @ [PulseJob (ar_public_token a) i False] else js)
        (br_db (if accepting then b\<lparr>br_db := db\<rparr> else stop_job red now i (b\<lparr>br_db := db\<rparr>)))"
      using inv fresh \<open>\<not> has_open_operation ?db (ar_account_id a)\<close> claimed by simp
    then show ?thesis using assms(1) c claimed by (cases accepting) (auto simp: QueuePulses_def Let_def)
  qed
qed


abbreviation refresh_job :: "resetRefresh \<Rightarrow> job" where
  "refresh_job r \<equiv> RefreshJob (rr_public r) (rr_operation r) False"

lemma claimUsageRefresh_frame:
  assumes "claimUsageRefresh i a reason now db = (r, db')"
  shows "t_operations db' = t_operations (add_operation (queued_operation i (Some (ar_account_id a)) ''usage.refresh'' reason now) db)"
    and "t_accounts db' = t_accounts db" "rr_operation r = i"
  using assms by (auto simp: claimUsageRefresh_def)

lemma claimUsageRefresh_inv:
  assumes "claimUsageRefresh i a reason now db = (r, db')" "usage_inv js db" "fresh_id i db" "\<not> has_open_operation db (ar_account_id a)"
  shows "usage_inv (js @ [refresh_job r]) db'"
  using assms(2-4) claimUsageRefresh_frame [OF assms(1)] by (intro usage_inv_claim) simp_all

lemma next_index_less: "xs \<noteq> [] \<Longrightarrow> next_index cursor xs < length xs"
  by (auto simp: next_index_def split: option.split)

lemma may_read_of:
  "a \<in> set (oldest_read now db) \<Longrightarrow> may_read db now a" "a \<in> set (rotation_accounts e now db) \<Longrightarrow> may_read db now a"
  by (auto simp: oldest_read_def rotation_accounts_def by_start_def Let_def dest!: in_set_takeD)

lemma set_poll_frame [simp]: "t_operations (set_poll daily next db) = t_operations db" "t_accounts (set_poll daily next db) = t_accounts db"
  by (simp_all add: set_poll_def)

lemma claimScheduledRefresh_inv:
  assumes "claimScheduledRefresh e i now daily db = (claim, db')" "fresh_id i db" "usage_inv js db"
  shows "usage_inv (js @ (case claim of None \<Rightarrow> [] | Some r \<Rightarrow> [refresh_job r])) db'"
proof -
  define interval where "interval = (if daily then max 1000 (go_div day_ms (int (length (filter (healthy db) (t_accounts db))))) else usageRefreshInterval)"
  let ?db = "set_poll daily (now + interval) db"
  define ready where "ready = (if daily then oldest_read now ?db else rotation_accounts e now ?db)"
  define a where "a = ready ! (if daily then 0 else next_index (pl_regular_cursor (t_usage_poll_state db)) ready)"
  have inv: "usage_inv js ?db" "fresh_id i ?db" using assms(2,3) usage_inv_same [of ?db db js] by (simp_all add: fresh_id_def)
  obtain r db1 where c: "claimUsageRefresh i a (if daily then ''DAILY_SWEEP'' else ''SCHEDULED'') now ?db = (r, db1)" by fastforce
  consider "claim = None" "db' = db" | "claim = None" "db' = ?db"
    | "ready \<noteq> []" "claim = Some r" "t_operations db' = t_operations db1" "t_accounts db' = t_accounts db1"
    using assms(1) c unfolding claimScheduledRefresh_def Let_def interval_def [symmetric] ready_def [symmetric] a_def [symmetric]
    by (auto split: if_splits)
  then show ?thesis
  proof cases
    case 3
    then have "a \<in> set ready" unfolding a_def by (auto intro!: nth_mem next_index_less)
    then have "\<not> has_open_operation ?db (ar_account_id a)"
      unfolding ready_def using may_read_of by (auto simp: may_read_def split: if_splits)
    from claimUsageRefresh_inv [OF c inv this] show ?thesis using 3 usage_inv_same [of db' db1] by simp
  qed (use assms(3) inv in simp_all)
qed

lemma claim_all_inv:
  assumes "claim_all now ids cands db = (rs, db')" "usage_inv js db" "inj ids" "\<And>n. n < length cands \<Longrightarrow> fresh_id (ids n) db"
    and "\<And>a row. (a, row) \<in> set cands \<Longrightarrow> \<not> has_open_operation db (ar_account_id a)"
    and "distinct (map (\<lambda>(a, _). ar_account_id a) cands)"
  shows "usage_inv (js @ map refresh_job rs) db'"
  using assms
proof (induction now ids cands db arbitrary: js rs db' rule: claim_all.induct)
  case (2 now ids a row rest db)
  obtain r db1 where c: "claimUsageRefresh (ids (length rest)) a (rq_reason row) now db = (r, db1)" by fastforce
  let ?db = "settleUsageResets (ar_account_id a) now (postpone_request (now + usageRetryDelay) (ar_account_id a) db1)"
  obtain rs1 db2 where rest: "claim_all now ids rest ?db = (rs1, db2)" by fastforce
  have result: "rs = r # rs1" "db' = db2" using 2(2) c rest by simp_all
  have same: "t_operations ?db = t_operations db1" "t_accounts ?db = t_accounts db1"
    by (simp_all add: settleUsageResets_def postpone_request_def)
  have ops: "t_operations ?db = t_operations db @ [queued_operation (ids (length rest)) (Some (ar_account_id a)) ''usage.refresh'' (rq_reason row) now]"
    using claimUsageRefresh_frame [OF c] same by simp
  have "usage_inv (js @ [refresh_job r]) db1"
    by (rule claimUsageRefresh_inv [OF c 2(3)]) (use 2(5) [of "length rest"] 2(6) [of a row] in simp_all)
  then have inv: "usage_inv (js @ [refresh_job r]) ?db" using usage_inv_same [OF same(2,1)] by simp
  have "usage_inv ((js @ [refresh_job r]) @ map refresh_job rs1) db2"
  proof (rule 2(1) [OF c [symmetric] rest inv 2(4)])
    show "fresh_id (ids n) ?db" if "n < length rest" for n
      using that 2(5) [of n] 2(4) by (auto simp: fresh_id_def ops dest: injD)
    show "\<not> has_open_operation ?db (ar_account_id a')" if "(a', row') \<in> set rest" for a' row'
    proof -
      have "ar_account_id a' \<noteq> ar_account_id a" using 2(7) that by force
      moreover have "\<not> has_open_operation db (ar_account_id a')" using 2(6) [of a' row'] that by simp
      ultimately show ?thesis by (simp add: has_open_operation_def ops)
    qed
  qed (use 2(7) in simp)
  then show ?case by (simp add: result)
qed simp

lemma claimResetRefreshes_inv:
  assumes "claimResetRefreshes e ids now db = (rs, db')" "usage_inv js db" "inj ids" "\<And>n. fresh_id (ids n) db"
  shows "usage_inv (js @ map refresh_job rs) db'"
proof -
  let ?db = "request_resets e now (scheduleUsageResets [] now db)"
  let ?cands = "List.map_filter (\<lambda>a. map_option (Pair a) (refresh_candidate now ?db a)) (t_accounts ?db)"
  have same: "t_operations ?db = t_operations db" "t_accounts ?db = t_accounts db"
    by (simp_all add: request_resets_def scheduleUsageResets_def)
  have accounts: "distinct (map ar_account_id (t_accounts db))" using assms(2) by (simp add: usage_inv_def)
  have ids: "map (\<lambda>(a, _). ar_account_id a) (List.map_filter (\<lambda>a. map_option (Pair a) (g a)) xs)
      = map ar_account_id (filter (\<lambda>a. g a \<noteq> None) xs)" for g xs
    by (induction xs) (auto simp: map_filter_simps split: option.split)
  show ?thesis
  proof (rule claim_all_inv [of now ids ?cands ?db])
    show "claim_all now ids ?cands ?db = (rs, db')" using assms(1) by (simp add: claimResetRefreshes_def Let_def)
    show "usage_inv js ?db" using assms(2) usage_inv_same [OF same(2,1)] by simp
    show "fresh_id (ids n) ?db" for n using assms(4) by (simp add: fresh_id_def same)
    show "\<not> has_open_operation ?db (ar_account_id a)" if "(a, row) \<in> set ?cands" for a row
      using that by (auto simp: map_filter_def refresh_candidate_def split: option.splits if_splits)
    show "distinct (map (\<lambda>(a, _). ar_account_id a) ?cands)"
      using accounts by (simp add: ids same distinct_map_filter)
  qed (fact assms(3))
qed


lemma usage_inv_run:
  assumes "usage_inv js (br_db b)" "j \<in> set js" "ops_frame {job_operation j, []} (br_db b) (br_db b')"
  shows "usage_inv (remove1 j js) (br_db b')"
proof (rule usage_inv_frame [OF assms(1,3)])
  have d: "distinct (map job_operation js)" using assms(1) by (simp add: usage_inv_def)
  show "k \<in> set js \<and> job_operation k \<notin> {job_operation j, []}" if "k \<in> set (remove1 j js)" for k
  proof -
    have k: "k \<in> set js" "k \<noteq> j" using that usage_inv_distinct [OF assms(1)] by auto
    then have "job_operation k \<noteq> job_operation j" using d assms(2) by (auto simp: distinct_map dest: inj_onD)
    then show ?thesis using k assms(1) by (auto simp: usage_inv_def pending_ok_def)
  qed
  show "distinct (remove1 j js)" using usage_inv_distinct [OF assms(1)] by (rule distinct_remove1)
qed

lemma pending_open:
  "usage_inv js db \<Longrightarrow> j \<in> set js \<Longrightarrow> \<forall>row\<in>set (t_operations db). op_operation_id row = job_operation j \<longrightarrow> is_open row"
  by (simp add: usage_inv_def pending_ok_def)

lemma fresh_ops_frame: "fresh_id i db \<Longrightarrow> ops_frame I db db' \<Longrightarrow> fresh_id i db'"
  by (simp add: fresh_id_def ids_ops_frame)

lemma run_pulse_inv:
  assumes "usage_inv js (br_db b)" "PulseJob public operation manual \<in> set js" "fresh_id (pu_nextID p) (br_db b)"
    and "runPulse red lib cfg p public operation manual b = (claim, b')"
  shows "usage_inv (remove1 (PulseJob public operation manual) js
      @ (case claim of None \<Rightarrow> [] | Some (public, operation) \<Rightarrow> [PulseJob public operation False])) (br_db b')"
proof -
  let ?j = "PulseJob public operation manual" and ?I = "{operation, []}"
  let ?latest = "max (pu_started p) (pu_checked p - pu_preflightMs p)"
  let ?b = "if \<exists>e. service_account (br_db b) public = Inl e then b
    else OperationState (pu_started p) operation ''RUNNING'' ''PULSING_WINDOWS'' ''Keeping usage windows active'' b"
  obtain b1 where 1: "ops_frame ?I (br_db ?b) (br_db b1)"
    and r: "runPulse red lib cfg p public operation manual b = (None, b1)
      \<or> runPulse red lib cfg p public operation manual b = QueuePulses red cfg (pu_accepting p) (pu_nextID p) (pu_now p) (pu_pick p) b1"
    by (rule own_operation.R_runPulse [of p ?latest operation b public red lib cfg manual]) simp_all
  have "ops_frame ?I (br_db b) (br_db ?b)"
    using ops_frame_start [of b operation "pu_started p" "''PULSING_WINDOWS''" "''Keeping usage windows active''"]
      pending_open [OF assms(1,2)] by (simp add: ops_frame_same)
  then have f: "ops_frame ?I (br_db b) (br_db b1)" using 1 by (rule ops_frame_trans)
  have inv: "usage_inv (remove1 ?j js) (br_db b1)" using usage_inv_run [OF assms(1,2)] f by simp
  from r show ?thesis
  proof
    assume "runPulse red lib cfg p public operation manual b = (None, b1)"
    then show ?thesis using inv assms(4) by simp
  next
    assume "runPulse red lib cfg p public operation manual b = QueuePulses red cfg (pu_accepting p) (pu_nextID p) (pu_now p) (pu_pick p) b1"
    then have "QueuePulses red cfg (pu_accepting p) (pu_nextID p) (pu_now p) (pu_pick p) b1 = (claim, b')" using assms(4) by simp
    from QueuePulses_inv [OF this fresh_ops_frame [OF assms(3) f] inv] show ?thesis .
  qed
qed

lemma elsewhere_inv:
  assumes "usage_inv js db" "distinct (map ar_account_id (t_accounts db'))" "t_operations db' = t_operations db @ rows"
    "list_all (\<lambda>row. \<not> is_job row) rows" "\<And>row. row \<in> set rows \<Longrightarrow> fresh_id (op_operation_id row) db"
  shows "usage_inv js db'"
proof -
  have "jobs_of account rows = []" for account using assms(4) by (auto simp: jobs_of_def filter_empty_conv list_all_iff)
  then have "one_job db'" using assms(1) by (simp add: usage_inv_def one_job_def jobs_of_def assms(3))
  moreover have "pending_ok db' j" if "j \<in> set js" for j
  proof -
    have j: "pending_ok db j" using that assms(1) by (simp add: usage_inv_def)
    have "op_operation_id row \<noteq> job_operation j" if "row \<in> set rows" for row
      using assms(5) [OF that] j by (auto simp: pending_ok_def fresh_id_def)
    then show ?thesis using j by (auto simp: pending_ok_def assms(3))
  qed
  ultimately show ?thesis using assms(1,2) by (simp add: usage_inv_def)
qed

lemma usage_step_inv: "usage_step red lib cfg seconds s t \<Longrightarrow> usage_inv (fst s) (br_db (snd s)) \<Longrightarrow> usage_inv (fst t) (br_db (snd t))"
proof (induction rule: usage_step.induct)
  case (refresh i b accepting now public trig outcome b' js)
  then show ?case using Refresh_inv [OF refresh(2,1)] by simp
next
  case (pulse i b accepting now public outcome b' js)
  then show ?case using Pulse_inv [OF pulse(2,1)] by simp
next
  case (queue i b accepting now pick claim b' js)
  then show ?case using QueuePulses_inv [OF queue(2,1)] by simp
next
  case (scheduled i b now daily claim db js)
  then show ?case using claimScheduledRefresh_inv [OF scheduled(2,1)] by simp
next
  case (resets ids b now claims db js)
  then show ?case using claimResetRefreshes_inv [OF resets(3) _ resets(1,2)] by simp
next
  case (stopped j js b now code summary)
  then have "usage_inv js (br_db b)" by simp
  from usage_inv_run [OF this stopped(1) ops_frame_Fail] show ?case by simp
next
  case (run_refresh public operation manual js b r)
  let ?I = "{operation, []}"
  have "ops_frame ?I (br_db b) (br_db (OperationState (rf_start r) operation ''RUNNING'' ''READING_USAGE'' ''Reading complete rate limits'' b))"
    using ops_frame_start [of b operation] pending_open [OF _ run_refresh(1)] run_refresh(2) by simp
  note f = ops_frame_trans [OF this own_operation.R_runRefresh [OF order_refl]]
  have "usage_inv js (br_db b)" using run_refresh(2) by simp
  from usage_inv_run [OF this run_refresh(1), unfolded job.sel, OF f] show ?case by (simp only: fst_conv snd_conv)
next
  case (run_pulse public operation manual js p b claim b')
  then show ?case using run_pulse_inv [of js b public operation manual p red lib cfg claim b'] by simp
next
  case (elsewhere b' b rows js)
  then show ?case using elsewhere_inv [of js "br_db b" "br_db b'" rows] by simp
qed

definition usage_start :: "job list \<times> broker \<Rightarrow> bool" where
  "usage_start s \<longleftrightarrow> fst s = [] \<and> one_job (br_db (snd s)) \<and> distinct (map ar_account_id (t_accounts (br_db (snd s))))"

interpretation usage_system: inv_system usage_start "usage_step red lib cfg seconds" "\<lambda>s. usage_inv (fst s) (br_db (snd s))"
  for red lib cfg seconds
proof
  show "usage_inv (fst s) (br_db (snd s))" if "usage_start s" for s
    using that by (simp add: usage_start_def usage_inv_def)
qed (rule usage_step_inv)




subsection \<open>Jobs of the example pool\<close>

definition ex_profile_run :: profile_run where
  "ex_profile_run = \<lparr>pn_now = 1600, pn_run = ex_run, pn_answer = Inr (), pn_fetch = Inl no_rows, pn_done = 1700\<rparr>"

definition ex_refresh_run :: refresh_run where
  "ex_refresh_run = \<lparr>rf_slot = True, rf_start = 1500, rf_run = ex_run, rf_identity = Inr [], rf_limits = Inr [],
     rf_readStartedAt = 1550, rf_observedAt = 1600, rf_now = 1600, rf_snapshotID = ''s1'', rf_incidentID = ''i1'',
     rf_profile = ex_profile_run\<rparr>"

definition ex_pulse_run :: pulse_run where
  "ex_pulse_run = \<lparr>pu_slot = True, pu_started = 1500, pu_run = ex_run, pu_identity = Inr [], pu_preflight = Inr [],
     pu_preflightMs = 10, pu_checked = 1550, pu_pulse = Inr [], pu_observedAt = 1600, pu_details = [], pu_now = 1600,
     pu_preflightID = ''s1'', pu_snapshotID = ''s2'', pu_incidentID = ''i1'', pu_nextID = ''op2'', pu_pick = 0, pu_accepting = True\<rparr>"

definition ex_busy_pool :: broker where
  "ex_busy_pool = on_db (\<lambda>db. add_operation (queued_operation ''op1'' (Some ''a'') ''usage.refresh'' ''USER'' 1400)
     (db\<lparr>t_account_quota_blocks := [''a'' \<mapsto> \<lparr>qb_blocked_at_ms = 1450, qb_retry_at_ms = 9000\<rparr>]\<rparr>)) ex_pool"

abbreviation ex_pulse_cfg :: pulse_config where
  "ex_pulse_cfg \<equiv> \<lparr>pc_WindowPulseEnabled = True, pc_WindowPulseRetrySeconds = 60\<rparr>"


theorem read_in_flight_keeps_quota_rejection_witness:
  "t_account_quota_blocks (br_db (runRefresh ex_red ex_lib 0 ex_refresh_run ''pa'' ''op1'' True ex_busy_pool)) ''a'' =
     Some \<lparr>qb_blocked_at_ms = 1450, qb_retry_at_ms = 9000\<rparr>"
proof -
  have "t_account_quota_blocks (br_db ex_busy_pool) ''a'' = Some \<lparr>qb_blocked_at_ms = 1450, qb_retry_at_ms = 9000\<rparr>"
    by (simp add: ex_busy_pool_def)
  from read_in_flight_keeps_quota_rejection [OF this, of ex_refresh_run ex_red ex_lib 0 "''pa''" "''op1''" True]
  show ?thesis by (simp add: ex_refresh_run_def usageResetGrace_def)
qed

lemma ex_pool_refresh:
  "Refresh ex_red True ''op1'' 1400 ''pa'' ''USER'' ex_pool =
     (Inr ''op1'', on_db (add_operation (queued_operation ''op1'' (Some ''a'') ''usage.refresh'' ''USER'' 1400)) ex_pool)"
  by (simp add: Refresh_def service_account_def may_refresh_def claim_refresh_def open_job_def Write_b_def Write_def on_db_def
      has_open_operation_def ex_pool_simps)


end
