(* ===== verification/Public_Address.thy ===== *)
theory Public_Address
  imports Prelude "HOL-Library.Word"
begin

text \<open>
  \<open>publicAddress\<close> of internal/webhook/webhook.go, with the addresses and prefixes of net/netip it
  is built from: an address is 32 or 128 bits, the latter with a zone. The check is shown to be
  membership in explicit ranges of addresses.
\<close>

unbundle bit_operations_syntax

subsection \<open>net/netip\<close>

datatype Addr = NoAddr | Addr4 "32 word" | Addr6 "128 word" string

datatype Prefix = Prefix4 "32 word" nat | Prefix6 "128 word" nat

definition v4 :: "32 word \<Rightarrow> nat \<Rightarrow> 8 word" where
  "v4 a i = ucast (drop_bit (24 - 8 * i) a)"

definition v6 :: "128 word \<Rightarrow> nat \<Rightarrow> 8 word" where
  "v6 a i = ucast (drop_bit (120 - 8 * i) a)"

definition v6u16 :: "128 word \<Rightarrow> nat \<Rightarrow> 16 word" where
  "v6u16 a i = ucast (drop_bit (112 - 16 * i) a)"

definition Unmap :: "Addr \<Rightarrow> Addr" where
  "Unmap a = (case a of Addr6 w z \<Rightarrow> if drop_bit 32 w = 0xFFFF then Addr4 (ucast w) else a | _ \<Rightarrow> a)"

fun IsLoopback :: "Addr \<Rightarrow> bool" where
  "IsLoopback NoAddr = False"
| "IsLoopback (Addr4 a) = (v4 a 0 = 127)"
| "IsLoopback (Addr6 a z) = (if drop_bit 32 a = 0xFFFF then v4 (ucast a) 0 = 127 else a = 1)"

fun IsMulticast :: "Addr \<Rightarrow> bool" where
  "IsMulticast NoAddr = False"
| "IsMulticast (Addr4 a) = (v4 a 0 AND 0xF0 = 0xE0)"
| "IsMulticast (Addr6 a z) = (if drop_bit 32 a = 0xFFFF then v4 (ucast a) 0 AND 0xF0 = 0xE0 else v6 a 0 = 0xFF)"

fun IsLinkLocalUnicast :: "Addr \<Rightarrow> bool" where
  "IsLinkLocalUnicast NoAddr = False"
| "IsLinkLocalUnicast (Addr4 a) = (v4 a 0 = 169 \<and> v4 a 1 = 254)"
| "IsLinkLocalUnicast (Addr6 a z) =
     (if drop_bit 32 a = 0xFFFF then v4 (ucast a) 0 = 169 \<and> v4 (ucast a) 1 = 254 else v6u16 a 0 AND 0xFFC0 = 0xFE80)"

definition IsUnspecified :: "Addr \<Rightarrow> bool" where
  "IsUnspecified a \<longleftrightarrow> a = Addr4 0 \<or> a = Addr6 0 []"

definition IsGlobalUnicast :: "Addr \<Rightarrow> bool" where
  "IsGlobalUnicast a \<longleftrightarrow> a \<noteq> NoAddr \<and> a \<noteq> Addr4 0 \<and> a \<noteq> Addr4 0xFFFFFFFF \<and> a \<noteq> Addr6 0 []
     \<and> \<not> IsLoopback a \<and> \<not> IsMulticast a \<and> \<not> IsLinkLocalUnicast a"

fun IsPrivate :: "Addr \<Rightarrow> bool" where
  "IsPrivate NoAddr = False"
| "IsPrivate (Addr4 a) =
     (v4 a 0 = 10 \<or> v4 a 0 = 172 \<and> v4 a 1 AND 0xF0 = 16 \<or> v4 a 0 = 192 \<and> v4 a 1 = 168)"
| "IsPrivate (Addr6 a z) =
     (if drop_bit 32 a = 0xFFFF
      then v4 (ucast a) 0 = 10 \<or> v4 (ucast a) 0 = 172 \<and> v4 (ucast a) 1 AND 0xF0 = 16 \<or> v4 (ucast a) 0 = 192 \<and> v4 (ucast a) 1 = 168
      else v6 a 0 AND 0xFE = 0xFC)"

text \<open>An address with a zone is in no prefix.\<close>

fun prefix_contains :: "Prefix \<Rightarrow> Addr \<Rightarrow> bool" where
  "prefix_contains (Prefix4 p n) (Addr4 a) = (drop_bit (32 - n) (a XOR p) = 0)"
| "prefix_contains (Prefix6 p n) (Addr6 a z) = (z = [] \<and> drop_bit (128 - n) (a XOR p) = 0)"
| "prefix_contains _ _ = False"

subsection \<open>Public addresses\<close>

definition addr4 :: "nat \<Rightarrow> nat \<Rightarrow> nat \<Rightarrow> nat \<Rightarrow> 32 word" where
  "addr4 a b c d = word_of_nat (((a * 256 + b) * 256 + c) * 256 + d)"

definition specialNetworks :: "Prefix list" where
  "specialNetworks =
     [Prefix4 (addr4 0 0 0 0) 8, Prefix4 (addr4 100 64 0 0) 10,
      Prefix4 (addr4 192 0 0 0) 24, Prefix4 (addr4 192 0 2 0) 24,
      Prefix4 (addr4 198 18 0 0) 15, Prefix4 (addr4 198 51 100 0) 24,
      Prefix4 (addr4 203 0 113 0) 24, Prefix4 (addr4 240 0 0 0) 4,
      Prefix6 0x0064FF9B000100000000000000000000 48, Prefix6 0x01000000000000000000000000000000 64,
      Prefix6 0x20010DB8000000000000000000000000 32, Prefix6 0x20010010000000000000000000000000 28]"

definition publicAddress :: "Addr \<Rightarrow> bool" where
  "publicAddress address =
     (let address = Unmap address in
      IsGlobalUnicast address \<and> \<not> IsPrivate address \<and> \<not> IsLoopback address \<and> \<not> IsLinkLocalUnicast address
      \<and> \<not> IsUnspecified address \<and> \<not> list_ex (\<lambda>network. prefix_contains network address) specialNetworks)"

subsection \<open>Ranges\<close>

lemmas nat_drop_bit = drop_bit_eq_div [where ?'a = nat]

lemma drop_bit_unat:
  fixes a b :: "'n::len word"
  shows "drop_bit n a = drop_bit n b \<longleftrightarrow> unat a div 2 ^ n = unat b div 2 ^ n"
  by (simp only: word_unat_eq_iff unat_drop_bit_eq nat_drop_bit)

lemma word_xor_eq_0: "a XOR b = 0 \<longleftrightarrow> a = b" for a b :: "'n::len word"
  by (auto simp: bit_eq_iff bit_simps)

lemma in_prefix:
  fixes a p :: "'n::len word"
  shows "drop_bit n (a XOR p) = 0 \<longleftrightarrow> unat a div 2 ^ n = unat p div 2 ^ n"
proof -
  have "drop_bit n (a XOR p) = 0 \<longleftrightarrow> drop_bit n a = drop_bit n p"
    by (auto simp only: drop_bit_xor word_xor_eq_0)
  then show ?thesis by (simp only: drop_bit_unat)
qed

lemma and_high_eq:
  fixes x c :: "'n::len word"
  assumes "c AND mask n = 0"
  shows "x AND NOT (mask n) = c \<longleftrightarrow> unat x div 2 ^ n = unat c div 2 ^ n"
proof -
  have "drop_bit n (x AND NOT (mask n)) = drop_bit n x"
    by (rule bit_word_eqI, simp add: bit_simps) (meson bit_imp_le_length)
  moreover have "y AND NOT (mask n) = push_bit n (drop_bit n y)" for y :: "'n word"
    by (rule bit_word_eqI) (auto simp: bit_simps)
  moreover have "c = c AND NOT (mask n)"
    using assms by (metis and.commute and.right_neutral bit.conj_disj_distrib bit.disj_cancel_right or.left_neutral)
  ultimately have "x AND NOT (mask n) = c \<longleftrightarrow> drop_bit n x = drop_bit n c" by metis
  then show ?thesis by (simp only: drop_bit_unat)
qed

lemma bytes_eq:
  "v4 a i = b \<longleftrightarrow> unat a div 2 ^ (24 - 8 * i) mod 256 = unat b"
  "v6 d i = b \<longleftrightarrow> unat d div 2 ^ (120 - 8 * i) mod 256 = unat b"
  "v6u16 d i = e \<longleftrightarrow> unat d div 2 ^ (112 - 16 * i) mod 65536 = unat e"
  unfolding v4_def v6_def v6u16_def word_unat_eq_iff
  by (simp_all only: unsigned_ucast_eq unat_drop_bit_eq nat_drop_bit) (simp_all add: take_bit_eq_mod)

lemma unat_bytes:
  "unat (v4 a i) = unat a div 2 ^ (24 - 8 * i) mod 256"
  "unat (v6 d i) = unat d div 2 ^ (120 - 8 * i) mod 256"
  "unat (v6u16 d i) = unat d div 2 ^ (112 - 16 * i) mod 65536"
  using bytes_eq(1) [of a i "v4 a i"] bytes_eq(2) [of d i "v6 d i"] bytes_eq(3) [of d i "v6u16 d i"] by simp_all

lemma div_range:
  fixes n k c :: nat
  assumes "0 < k"
  shows "n div k = c \<longleftrightarrow> c * k \<le> n \<and> n < c * k + k"
proof
  assume "n div k = c"
  then show "c * k \<le> n \<and> n < c * k + k"
    using assms by (metis div_times_less_eq_dividend dividend_less_div_times add.commute)
next
  assume "c * k \<le> n \<and> n < c * k + k"
  then show "n div k = c" by (intro div_nat_eqI) (simp_all add: algebra_simps)
qed

lemma div_within: "0 < k \<Longrightarrow> n div k = c \<longleftrightarrow> n \<in> {c * k .. c * k + (k - 1 :: nat)}"
  by (auto simp: div_range)

lemma digits:
  fixes m b c k :: nat
  assumes "c < k"
  shows "m div k = b \<and> m mod k = c \<longleftrightarrow> m = b * k + c"
  using assms by (metis add.commute add.right_neutral div_less div_mult_mod_eq div_mult_self3 mod_less mod_mult_self3 not_less_zero)

lemma quotients:
  fixes n :: nat
  shows "n div 16777216 = n div 65536 div 256" "n div 1048576 = n div 65536 div 16" "n div 16777216 = n div 1048576 div 16"
    "n < 4294967296 \<Longrightarrow> n div 16777216 < 256"
  by (simp_all add: div_mult2_eq [symmetric] less_mult_imp_div_less)

lemma byte_pair:
  fixes n b c :: nat
  assumes "n < 4294967296" "c < 256"
  shows "n div 16777216 mod 256 = b \<and> n div 65536 mod 256 = c \<longleftrightarrow> n div 65536 = b * 256 + c"
  using digits [OF assms(2), of "n div 65536" b] quotients(4) [OF assms(1)] quotients(1) [of n] by simp

lemma byte_nibble:
  fixes n b c :: nat
  assumes "n < 4294967296" "c < 16"
  shows "n div 16777216 mod 256 = b \<and> n div 65536 mod 256 div 16 = c \<longleftrightarrow> n div 1048576 = b * 16 + c"
proof -
  have "n div 65536 mod 256 div 16 = n div 1048576 mod 16"
    using mod_mult2_eq [of "n div 65536" 16 16] unfolding quotients(2) by simp
  then show ?thesis
    using digits [OF assms(2), of "n div 1048576" b] quotients(4) [OF assms(1)] quotients(3) [of n] by simp
qed

lemma one_byte: "n < 4294967296 \<Longrightarrow> n div 16777216 mod 256 = b \<longleftrightarrow> n div 16777216 = (b :: nat)"
  using quotients(4) [of n] by simp

lemma high_bits:
  fixes x :: "8 word" and y :: "16 word"
  shows "c AND 15 = 0 \<Longrightarrow> x AND 0xF0 = c \<longleftrightarrow> unat x div 16 = unat c div 16"
    "c AND 1 = 0 \<Longrightarrow> x AND 0xFE = c \<longleftrightarrow> unat x div 2 = unat c div 2"
    "e AND 63 = 0 \<Longrightarrow> y AND 0xFFC0 = e \<longleftrightarrow> unat y div 64 = unat e div 64"
proof -
  have masks: "mask 4 = (15 :: 8 word)" "NOT 15 = (0xF0 :: 8 word)" "mask 1 = (1 :: 8 word)" "NOT 1 = (0xFE :: 8 word)"
    "mask 6 = (63 :: 16 word)" "NOT 63 = (0xFFC0 :: 16 word)"
    by (simp_all add: mask_eq_exp_minus_1)
  show "c AND 15 = 0 \<Longrightarrow> x AND 0xF0 = c \<longleftrightarrow> unat x div 16 = unat c div 16"
    using and_high_eq [of c 4 x, unfolded masks] by simp
  show "c AND 1 = 0 \<Longrightarrow> x AND 0xFE = c \<longleftrightarrow> unat x div 2 = unat c div 2"
    using and_high_eq [of c 1 x, unfolded masks] by simp
  show "e AND 63 = 0 \<Longrightarrow> y AND 0xFFC0 = e \<longleftrightarrow> unat y div 64 = unat e div 64"
    using and_high_eq [of e 6 y, unfolded masks] by simp
qed

subsection \<open>The reserved ranges\<close>

definition reserved4 :: "(nat \<times> nat) list" where
  "reserved4 = map (\<lambda>(a, b). (unat a, unat b))
     [(addr4 0 0 0 0, addr4 0 255 255 255), (addr4 10 0 0 0, addr4 10 255 255 255),
      (addr4 100 64 0 0, addr4 100 127 255 255), (addr4 127 0 0 0, addr4 127 255 255 255),
      (addr4 169 254 0 0, addr4 169 254 255 255), (addr4 172 16 0 0, addr4 172 31 255 255),
      (addr4 192 0 0 0, addr4 192 0 0 255), (addr4 192 0 2 0, addr4 192 0 2 255),
      (addr4 192 168 0 0, addr4 192 168 255 255), (addr4 198 18 0 0, addr4 198 19 255 255),
      (addr4 198 51 100 0, addr4 198 51 100 255), (addr4 203 0 113 0, addr4 203 0 113 255),
      (addr4 224 0 0 0, addr4 239 255 255 255), (addr4 240 0 0 0, addr4 255 255 255 255)]"

lemma reserved4_list:
  "reserved4 = [(0, 16777215), (167772160, 184549375), (1681915904, 1686110207), (2130706432, 2147483647),
     (2851995648, 2852061183), (2886729728, 2887778303), (3221225472, 3221225727), (3221225984, 3221226239),
     (3232235520, 3232301055), (3323068416, 3323199487), (3325256704, 3325256959), (3405803776, 3405804031),
     (3758096384, 4026531839), (4026531840, 4294967295)]"
  by (simp add: reserved4_def addr4_def)

definition reserved6 :: "(nat \<times> nat) list" where
  "reserved6 = map (\<lambda>(a, b). (unat a, unat b)) [(1 :: 128 word, 1 :: 128 word),
      (0xFC000000000000000000000000000000, 0xFDFFFFFFFFFFFFFFFFFFFFFFFFFFFFFF),
      (0xFE800000000000000000000000000000, 0xFEBFFFFFFFFFFFFFFFFFFFFFFFFFFFFF),
      (0xFF000000000000000000000000000000, 0xFFFFFFFFFFFFFFFFFFFFFFFFFFFFFFFF)]"

text \<open>The ranges that only count for an address without a zone.\<close>

definition reserved6_unzoned :: "(nat \<times> nat) list" where
  "reserved6_unzoned = map (\<lambda>(a, b). (unat a, unat b)) [(0 :: 128 word, 0 :: 128 word),
      (0x0064FF9B000100000000000000000000, 0x0064FF9B0001FFFFFFFFFFFFFFFFFFFF),
      (0x01000000000000000000000000000000, 0x0100000000000000FFFFFFFFFFFFFFFF),
      (0x20010DB8000000000000000000000000, 0x20010DB8FFFFFFFFFFFFFFFFFFFFFFFF),
      (0x20010010000000000000000000000000, 0x2001001FFFFFFFFFFFFFFFFFFFFFFFFF)]"

definition outside :: "nat \<Rightarrow> (nat \<times> nat) list \<Rightarrow> bool" where
  "outside n ranges \<longleftrightarrow> list_all (\<lambda>(lo, hi). n \<notin> {lo..hi}) ranges"

lemma reserved6_lists:
  "reserved6 = [(1, 1), (0xFC000000000000000000000000000000, 0xFDFFFFFFFFFFFFFFFFFFFFFFFFFFFFFF),
      (0xFE800000000000000000000000000000, 0xFEBFFFFFFFFFFFFFFFFFFFFFFFFFFFFF),
      (0xFF000000000000000000000000000000, 0xFFFFFFFFFFFFFFFFFFFFFFFFFFFFFFFF)]"
  "reserved6_unzoned = [(0, 0), (0x0064FF9B000100000000000000000000, 0x0064FF9B0001FFFFFFFFFFFFFFFFFFFF),
      (0x01000000000000000000000000000000, 0x0100000000000000FFFFFFFFFFFFFFFF),
      (0x20010DB8000000000000000000000000, 0x20010DB8FFFFFFFFFFFFFFFFFFFFFFFF),
      (0x20010010000000000000000000000000, 0x2001001FFFFFFFFFFFFFFFFFFFFFFFFF)]"
  by (simp_all add: reserved6_def reserved6_unzoned_def)

lemma special4:
  "list_ex (\<lambda>network. prefix_contains network (Addr4 a)) specialNetworks \<longleftrightarrow>
     unat a div 16777216 = 0 \<or> unat a div 4194304 = 401 \<or> unat a div 256 = 12582912 \<or> unat a div 256 = 12582914
     \<or> unat a div 131072 = 25353 \<or> unat a div 256 = 12989284 \<or> unat a div 256 = 13303921 \<or> unat a div 268435456 = 15"
proof -
  have "prefix_contains (Prefix4 p n) (Addr4 a) \<longleftrightarrow> unat a div 2 ^ (32 - n) = unat p div 2 ^ (32 - n)" for p n
    by (simp only: prefix_contains.simps in_prefix)
  then show ?thesis
    by (simp add: specialNetworks_def addr4_def del: prefix_contains.simps(1))
qed

lemma special6:
  "list_ex (\<lambda>network. prefix_contains network (Addr6 a z)) specialNetworks \<longleftrightarrow>
     z = [] \<and> (unat a div 2 ^ 80 = 0x64FF9B0001 \<or> unat a div 2 ^ 64 = 0x0100000000000000
              \<or> unat a div 2 ^ 96 = 0x20010DB8 \<or> unat a div 2 ^ 100 = 0x2001001)"
proof -
  have "prefix_contains (Prefix6 p n) (Addr6 a z) \<longleftrightarrow> z = [] \<and> unat a div 2 ^ (128 - n) = unat p div 2 ^ (128 - n)" for p n
    by (simp only: prefix_contains.simps in_prefix)
  then show ?thesis
    by (auto simp: specialNetworks_def simp del: prefix_contains.simps(2))
qed

lemma tests4:
  "IsLoopback (Addr4 a) \<longleftrightarrow> unat a div 16777216 = 127"
  "IsMulticast (Addr4 a) \<longleftrightarrow> unat a div 268435456 = 14"
  "IsLinkLocalUnicast (Addr4 a) \<longleftrightarrow> unat a div 65536 = 43518"
  "IsPrivate (Addr4 a) \<longleftrightarrow> unat a div 16777216 = 10 \<or> unat a div 1048576 = 2753 \<or> unat a div 65536 = 49320"
proof -
  have n: "unat a < 4294967296" using unsigned_less [of a] by simp
  show "IsLoopback (Addr4 a) \<longleftrightarrow> unat a div 16777216 = 127"
    using one_byte [OF n] by (simp add: bytes_eq)
  have "unat a div 268435456 = unat a div 16777216 div 16" by (simp add: div_mult2_eq [symmetric])
  then show "IsMulticast (Addr4 a) \<longleftrightarrow> unat a div 268435456 = 14"
    using quotients(4) [OF n] by (simp add: high_bits unat_bytes)
  show "IsLinkLocalUnicast (Addr4 a) \<longleftrightarrow> unat a div 65536 = 43518"
    using byte_pair [OF n, of 254 169] by (simp add: bytes_eq)
  show "IsPrivate (Addr4 a) \<longleftrightarrow> unat a div 16777216 = 10 \<or> unat a div 1048576 = 2753 \<or> unat a div 65536 = 49320"
    using one_byte [OF n, of 10] byte_nibble [OF n, of 1 172] byte_pair [OF n, of 168 192]
    by (simp add: bytes_eq high_bits unat_bytes)
qed

lemma public4:
  "publicAddress (Addr4 a) \<longleftrightarrow> outside (unat a) reserved4"
proof -
  define n where "n = unat a"
  have zero: "a = 0 \<longleftrightarrow> n = 0" and top: "a = 0xFFFFFFFF \<longleftrightarrow> n = 4294967295"
    by (simp_all add: word_unat_eq_iff n_def)
  have ends: "n \<notin> {0..16777215} \<Longrightarrow> n \<noteq> 0" "n \<notin> {4026531840..4294967295} \<Longrightarrow> n \<noteq> 4294967295" by auto
  have blocks: "n div 16777216 = 0 \<longleftrightarrow> n \<in> {0..16777215}" "n div 4194304 = 401 \<longleftrightarrow> n \<in> {1681915904..1686110207}"
    "n div 256 = 12582912 \<longleftrightarrow> n \<in> {3221225472..3221225727}" "n div 256 = 12582914 \<longleftrightarrow> n \<in> {3221225984..3221226239}"
    "n div 131072 = 25353 \<longleftrightarrow> n \<in> {3323068416..3323199487}" "n div 256 = 12989284 \<longleftrightarrow> n \<in> {3325256704..3325256959}"
    "n div 256 = 13303921 \<longleftrightarrow> n \<in> {3405803776..3405804031}" "n div 268435456 = 15 \<longleftrightarrow> n \<in> {4026531840..4294967295}"
    "n div 16777216 = 127 \<longleftrightarrow> n \<in> {2130706432..2147483647}" "n div 268435456 = 14 \<longleftrightarrow> n \<in> {3758096384..4026531839}"
    "n div 65536 = 43518 \<longleftrightarrow> n \<in> {2851995648..2852061183}" "n div 16777216 = 10 \<longleftrightarrow> n \<in> {167772160..184549375}"
    "n div 1048576 = 2753 \<longleftrightarrow> n \<in> {2886729728..2887778303}" "n div 65536 = 49320 \<longleftrightarrow> n \<in> {3232235520..3232301055}"
    by (simp_all only: div_within) simp_all
  show ?thesis
    using ends
    by (simp only: publicAddress_def Unmap_def Let_def IsGlobalUnicast_def IsUnspecified_def special4 tests4 Addr.case Addr.simps
        outside_def reserved4_list list.pred_inject prod.case zero top n_def [symmetric] blocks simp_thms) blast
qed

lemma tests6:
  assumes "drop_bit 32 a \<noteq> 0xFFFF"
  shows "IsLoopback (Addr6 a z) \<longleftrightarrow> a = 1" "IsMulticast (Addr6 a z) \<longleftrightarrow> unat a div 2 ^ 120 = 255"
    "IsLinkLocalUnicast (Addr6 a z) \<longleftrightarrow> unat a div 2 ^ 118 = 1018" "IsPrivate (Addr6 a z) \<longleftrightarrow> unat a div 2 ^ 121 = 126"
proof -
  have "unat a < 2 ^ 128" using unsigned_less [of a] by simp
  then have small: "unat a div 2 ^ 120 < 256" "unat a div 2 ^ 112 < 65536" by (simp_all add: less_mult_imp_div_less)
  have "unat a div 2 ^ 118 = unat a div 2 ^ 112 div 64" "unat a div 2 ^ 121 = unat a div 2 ^ 120 div 2"
    by (simp_all add: div_mult2_eq [symmetric])
  then show "IsLoopback (Addr6 a z) \<longleftrightarrow> a = 1" "IsMulticast (Addr6 a z) \<longleftrightarrow> unat a div 2 ^ 120 = 255"
    "IsLinkLocalUnicast (Addr6 a z) \<longleftrightarrow> unat a div 2 ^ 118 = 1018" "IsPrivate (Addr6 a z) \<longleftrightarrow> unat a div 2 ^ 121 = 126"
    using assms small by (simp_all add: bytes_eq high_bits unat_bytes)
qed

lemma public6:
  assumes plain: "drop_bit 32 a \<noteq> 0xFFFF"
  shows "publicAddress (Addr6 a z) \<longleftrightarrow> outside (unat a) reserved6 \<and> (z = [] \<longrightarrow> outside (unat a) reserved6_unzoned)"
proof -
  define n where "n = unat a"
  have zero: "a = 0 \<longleftrightarrow> n \<in> {0..0}" "a = 1 \<longleftrightarrow> n \<in> {1..1}"
    by (auto simp: word_unat_eq_iff n_def)
  have blocks: "n div 2 ^ 80 = 0x64FF9B0001 \<longleftrightarrow> n \<in> {0x0064FF9B000100000000000000000000..0x0064FF9B0001FFFFFFFFFFFFFFFFFFFF}"
    "n div 2 ^ 64 = 0x0100000000000000 \<longleftrightarrow> n \<in> {0x01000000000000000000000000000000..0x0100000000000000FFFFFFFFFFFFFFFF}"
    "n div 2 ^ 96 = 0x20010DB8 \<longleftrightarrow> n \<in> {0x20010DB8000000000000000000000000..0x20010DB8FFFFFFFFFFFFFFFFFFFFFFFF}"
    "n div 2 ^ 100 = 0x2001001 \<longleftrightarrow> n \<in> {0x20010010000000000000000000000000..0x2001001FFFFFFFFFFFFFFFFFFFFFFFFF}"
    "n div 2 ^ 120 = 255 \<longleftrightarrow> n \<in> {0xFF000000000000000000000000000000..0xFFFFFFFFFFFFFFFFFFFFFFFFFFFFFFFF}"
    "n div 2 ^ 118 = 1018 \<longleftrightarrow> n \<in> {0xFE800000000000000000000000000000..0xFEBFFFFFFFFFFFFFFFFFFFFFFFFFFFFF}"
    "n div 2 ^ 121 = 126 \<longleftrightarrow> n \<in> {0xFC000000000000000000000000000000..0xFDFFFFFFFFFFFFFFFFFFFFFFFFFFFFFF}"
    by (simp_all only: div_within zero_less_power zero_less_numeral) simp_all
  show ?thesis
    by (simp only: publicAddress_def Unmap_def Let_def IsGlobalUnicast_def IsUnspecified_def special6 tests6 [OF plain] plain
        Addr.case Addr.simps if_False reserved6_lists outside_def list.pred_inject prod.case zero n_def [symmetric] blocks simp_thms)
      blast
qed

text \<open>
  C11: whether a webhook may be sent to an address. An address is public exactly when, read as a
  number after unmapping an IPv4 address from IPv6, it lies outside every reserved range; the
  bit tests of the code miss none of them. A zone takes an IPv6 address out of the ranges that
  are given as prefixes.
\<close>

theorem publicAddress_by_ranges:
  "publicAddress address \<longleftrightarrow>
     (case Unmap address of
        NoAddr \<Rightarrow> False
      | Addr4 a \<Rightarrow> outside (unat a) reserved4
      | Addr6 a z \<Rightarrow> outside (unat a) (if z = [] then reserved6_unzoned @ reserved6 else reserved6))"
proof (cases address)
  case NoAddr
  then show ?thesis by (simp add: publicAddress_def Unmap_def IsGlobalUnicast_def)
next
  case (Addr4 a)
  then show ?thesis by (simp add: Unmap_def public4)
next
  case (Addr6 a z)
  have "publicAddress (Addr6 a z) = publicAddress (Addr4 (ucast a))" if "drop_bit 32 a = 0xFFFF"
    using that by (simp add: publicAddress_def Unmap_def)
  then show ?thesis using Addr6 by (auto simp: Unmap_def public4 public6 outside_def)
qed

end
