(* ===== verification/Webhook.thy ===== *)
theory Webhook
  imports Public_Address Broker_Gateway
begin

text \<open>
  internal/webhook/webhook.go: destinations, the events queued for them, and the dispatcher that
  delivers each event to each destination with retries.

  The three tables are a record of their own; a transaction of the broker that emits an event
  runs \<open>EmitTx\<close> on them. URL and address parsing, the sealing cipher, digests and the formats of
  times and floats are the fields of \<open>webhook_lib\<close>; what resolving a name and posting a request
  meet is a \<open>delivery_run\<close>. New identifiers are arguments. Of deliveries that are due at the same
  moment the first inserted is claimed.
\<close>

record go_url =
  gu_Scheme :: string
  gu_User :: bool
  gu_Hostname :: string
  gu_Port :: string
  gu_Path :: string
  gu_RawQuery :: string
  gu_Fragment :: string

record webhook_lib =
  wl_url :: "string \<Rightarrow> go_url option"
  wl_addr :: "string \<Rightarrow> Addr option"
  wl_seal :: "string \<Rightarrow> string \<Rightarrow> go_error + string"
  wl_open :: "string \<Rightarrow> string option"
  wl_hmac_hex :: "string \<Rightarrow> string \<Rightarrow> string"
  wl_json_float :: "rat \<Rightarrow> string"
  wl_print :: "any \<Rightarrow> string"
  wl_iso :: "int \<Rightarrow> string"
  wl_rfc3339 :: "int \<Rightarrow> string"

record destination_row =
  wd_destination_id :: string
  wd_display_name :: string
  wd_kind :: string
  wd_enabled :: bool
  wd_encrypted_url :: string
  wd_encrypted_signing_secret :: "string option"
  wd_created_at_ms :: int

record hook_event_row =
  we_event_id :: string
  we_event_type :: string
  we_subject :: string
  we_occurred_at_ms :: int
  we_canonical_body :: string
  we_incident_id :: "string option"

record delivery_row =
  dl_delivery_id :: string
  dl_event_id :: string
  dl_destination_id :: string
  dl_state :: string
  dl_attempt_count :: nat
  dl_next_attempt_at_ms :: int
  dl_immutable_body :: string
  dl_content_type :: string
  dl_lease_token :: "string option"
  dl_lease_expires_at_ms :: nullint
  dl_last_status_code :: nullint
  dl_last_error_code :: "string option"
  dl_last_response_excerpt :: "string option"
  dl_created_at_ms :: int
  dl_completed_at_ms :: nullint

record webhook_db =
  t_webhook_destinations :: "destination_row list"
  t_webhook_events :: "hook_event_row list"
  t_webhook_deliveries :: "delivery_row list"

definition hook_Write :: "(webhook_db \<Rightarrow> go_error + 'a \<times> webhook_db) \<Rightarrow> webhook_db \<Rightarrow> (go_error + 'a) \<times> webhook_db" where
  "hook_Write work db = (case work db of Inl e \<Rightarrow> (Inl e, db) | Inr (x, db') \<Rightarrow> (Inr x, db'))"

subsection \<open>Destinations\<close>

definition HasSuffix :: "string \<Rightarrow> string \<Rightarrow> bool" where
  "HasSuffix s suf \<longleftrightarrow> HasPrefix (rev s) (rev suf)"

definition not_public :: go_error where
  "not_public = OtherError ''webhook URL host must be public''"

definition destination_missing :: go_error where
  "destination_missing = OtherError ''webhook destination not found''"

definition validateURL :: "webhook_lib \<Rightarrow> string \<Rightarrow> go_error option" where
  "validateURL lib url =
     (case wl_url lib url of
        None \<Rightarrow> Some (OtherError ''webhook URL must be an absolute HTTPS URL without credentials'')
      | Some parsed \<Rightarrow>
          if gu_Scheme parsed \<noteq> ''https'' \<or> gu_Hostname parsed = [] \<or> gu_User parsed
          then Some (OtherError ''webhook URL must be an absolute HTTPS URL without credentials'')
          else if (case wl_addr lib (gu_Hostname parsed) of None \<Rightarrow> False | Some a \<Rightarrow> \<not> publicAddress a) then Some not_public
          else (let host = ToLower (gu_Hostname parsed) in
                if host = ''localhost'' \<or> HasSuffix host ''.localhost'' then Some not_public else None))"

definition hook_Create :: "webhook_lib \<Rightarrow> string \<Rightarrow> int \<Rightarrow> string \<Rightarrow> string \<Rightarrow> string \<Rightarrow> string \<Rightarrow> webhook_db
    \<Rightarrow> (go_error + string) \<times> webhook_db" where
  "hook_Create lib newID now name target secret kind db =
     (case validateURL lib target of
        Some e \<Rightarrow> (Inl e, db)
      | None \<Rightarrow>
          (let kind = ToLower kind in
           if kind \<notin> {''generic'', ''slack'', ''discord''} then (Inl (OtherError ''webhook destination kind is unsupported''), db)
           else
             (case (wl_seal lib (''webhook:'' @ newID @ '':url'') target,
                    if secret = [] then Inr None else map_sum id Some (wl_seal lib (''webhook:'' @ newID @ '':secret'') secret)) of
                (Inl e, _) \<Rightarrow> (Inl e, db)
              | (Inr _, Inl e) \<Rightarrow> (Inl e, db)
              | (Inr sealedURL, Inr sealedSecret) \<Rightarrow>
                  hook_Write (\<lambda>db. Inr (newID, db\<lparr>t_webhook_destinations := t_webhook_destinations db
                      @ [\<lparr>wd_destination_id = newID, wd_display_name = truncate_runes 80 (squeeze_spaces name), wd_kind = kind,
                          wd_enabled = True, wd_encrypted_url = sealedURL, wd_encrypted_signing_secret = sealedSecret,
                          wd_created_at_ms = now\<rparr>]\<rparr>)) db)))"

definition has_destination :: "string \<Rightarrow> webhook_db \<Rightarrow> bool" where
  "has_destination i db \<longleftrightarrow> i \<in> wd_destination_id ` set (t_webhook_destinations db)"

definition hook_SetEnabled :: "string \<Rightarrow> bool \<Rightarrow> webhook_db \<Rightarrow> (go_error + unit) \<times> webhook_db" where
  "hook_SetEnabled i enabled =
     hook_Write (\<lambda>db. if \<not> has_destination i db then Inl destination_missing
       else Inr ((), db\<lparr>t_webhook_destinations :=
              update_where (\<lambda>d. wd_destination_id d = i) (\<lambda>d. d\<lparr>wd_enabled := enabled\<rparr>) (t_webhook_destinations db)\<rparr>))"

text \<open>The deliveries of a destination are deleted with it (ON DELETE CASCADE).\<close>

definition hook_Delete :: "string \<Rightarrow> webhook_db \<Rightarrow> (go_error + unit) \<times> webhook_db" where
  "hook_Delete i =
     hook_Write (\<lambda>db. if \<not> has_destination i db then Inl destination_missing
       else Inr ((), db\<lparr>t_webhook_destinations := filter (\<lambda>d. wd_destination_id d \<noteq> i) (t_webhook_destinations db),
              t_webhook_deliveries := filter (\<lambda>r. dl_destination_id r \<noteq> i) (t_webhook_deliveries db)\<rparr>))"

subsection \<open>The text of a notification\<close>

definition eventCode :: "string \<Rightarrow> string" where
  "eventCode kind =
     (if kind = ''account.enrolled'' then ''CB-201''
      else if kind = ''account.enrollment_failed'' then ''CB-202''
      else if kind = ''incident.opened'' then ''CB-101''
      else if kind = ''incident.updated'' then ''CB-102''
      else if kind = ''incident.resolved'' then ''CB-103''
      else if kind = ''codex-broker.test'' then ''CB-900''
      else ''CB-999'')"

text \<open>\<open>fmt.Sprint\<close>; values other than strings and integers are printed by the library.\<close>

definition sprint :: "webhook_lib \<Rightarrow> any \<Rightarrow> string" where
  "sprint lib v = (case v of AStr s \<Rightarrow> s | AInt n \<Rightarrow> itoa n | _ \<Rightarrow> wl_print lib v)"

definition textValue :: "webhook_lib \<Rightarrow> any \<Rightarrow> nat \<Rightarrow> string" where
  "textValue lib v limit = (if v = ANil then [] else truncate_runes limit (squeeze_spaces (sprint lib v)))"

definition or_else :: "string \<Rightarrow> string \<Rightarrow> string" where
  "or_else s t = (if s = [] then t else s)"

definition emdash :: string where "emdash = [CHR 0x20, CHR 0xE2, CHR 0x80, CHR 0x94, CHR 0x20]"

definition usage_line :: "webhook_lib \<Rightarrow> gomap \<Rightarrow> string \<Rightarrow> string \<Rightarrow> string" where
  "usage_line lib usage key name =
     (let window = as_map (lookup usage key);
          text = (if lookup window ''used_percent'' \<noteq> ANil
                  then textValue lib (lookup window ''used_percent'') 32 @ ''% used'' else ''Unavailable'')
      in name @ '' usage: '' @ text
         @ (case lookup window ''resets_at_s'' of AInt reset \<Rightarrow> middot @ ''resets '' @ wl_rfc3339 lib reset | _ \<Rightarrow> []))"

definition status_line :: "webhook_lib \<Rightarrow> gomap \<Rightarrow> string list" where
  "status_line lib details =
     (let status = or_else (textValue lib (lookup details ''incident_status'') 600) (textValue lib (lookup details ''delivery_status'') 600);
          severity = textValue lib (lookup details ''severity'') 600
      in if status = [] \<and> severity = [] then []
         else [''Status: '' @ or_else status ''UNKNOWN'' @ middot @ ''Severity: '' @ or_else severity ''INFO''])"

definition notificationText :: "webhook_lib \<Rightarrow> gomap \<Rightarrow> string" where
  "notificationText lib event =
     (let details = as_map (lookup event ''data'');
          notification = as_map (lookup event ''notification'');
          line = (\<lambda>key limit. textValue lib (lookup details key) limit);
          account = or_else (line ''account_name'' 600) (textValue lib (lookup event ''subject'') 600);
          account = (if line ''account_email'' 600 = [] then account else account @ '' <'' @ line ''account_email'' 600 @ ''>'');
          summary = or_else (or_else (line ''summary'' 600) (line ''message'' 600)) (textValue lib (lookup event ''subject'') 600)
      in join_with [CHR 0x0A]
           ([''CODEX BROKER'' @ middot @ textValue lib (lookup notification ''code'') 600,
             textValue lib (lookup notification ''title'') 600, [], ''Account: '' @ account]
            @ (case lookup details ''labels'' of
                 AStrs labels \<Rightarrow> [''Labels: '' @ textValue lib (AStr (or_else (join_with '', '' labels) ''None'')) 1000]
               | _ \<Rightarrow> [])
            @ (case lookup details ''usage'' of
                 AMap usage \<Rightarrow> [usage_line lib usage ''short'' ''5h'', usage_line lib usage ''weekly'' ''7d'']
               | _ \<Rightarrow> [])
            @ status_line lib details
            @ [''What happened: '' @ summary]
            @ (if line ''cause_summary'' 600 \<noteq> [] \<and> line ''cause_summary'' 600 \<noteq> summary
               then [''Cause: '' @ line ''cause_code'' 600 @ emdash @ line ''cause_summary'' 600] else [])
            @ (if line ''reason'' 600 \<noteq> [] then [''Why it matters: '' @ line ''reason'' 600] else [])
            @ (if line ''recommended_action'' 600 \<noteq> [] then [''How to fix: '' @ line ''recommended_action'' 600] else [])
            @ (if lookup details ''occurrence_count'' \<noteq> ANil then [''Occurrences: '' @ line ''occurrence_count'' 600] else [])
            @ (if line ''incident_id'' 64 \<noteq> [] then [''Incident ID: '' @ line ''incident_id'' 64] else [])
            @ [''Event ID: '' @ textValue lib (lookup event ''event_id'') 64,
               ''Occurred: '' @ textValue lib (lookup event ''occurred_at'') 600]))"

definition escape_slack :: "string \<Rightarrow> string" where
  "escape_slack s = concat (map (\<lambda>c. if c = CHR ''&'' then ''&amp;'' else if c = CHR ''<'' then ''&lt;''
     else if c = CHR ''>'' then ''&gt;'' else [c]) s)"

text \<open>The first line of a message and the rest of it.\<close>

definition head_and_body :: "string \<Rightarrow> string \<times> string" where
  "head_and_body message = (case Cut message [CHR 0x0A] of None \<Rightarrow> (message, []) | Some (h, b) \<Rightarrow> (h, TrimSpace b))"

definition providerBody :: "webhook_lib \<Rightarrow> string \<Rightarrow> gomap \<Rightarrow> string" where
  "providerBody lib kind event =
     (let message = notificationText lib event;
          slack = head_and_body (escape_slack message);
          discord = head_and_body message;
          notification = as_map (lookup event ''notification'');
          shown =
            (if kind = ''slack'' then
               [(''text'', AStr (truncate_runes 3000 (escape_slack message))),
                (''blocks'', AArr
                  [AMap [(''type'', AStr ''header''),
                         (''text'', AMap [(''type'', AStr ''plain_text''), (''text'', AStr (truncate_runes 150 (fst slack)))])],
                   AMap [(''type'', AStr ''section''),
                         (''text'', AMap [(''type'', AStr ''mrkdwn''), (''text'', AStr (truncate_runes 3000 (snd slack)))])]])]
             else if kind = ''discord'' then
               [(''content'', AStr (fst discord)), (''allowed_mentions'', AMap [(''parse'', AArr [])]),
                (''embeds'', AArr
                  [AMap [(''title'', AStr (textValue lib (lookup notification ''title'') 600)),
                         (''description'', AStr (truncate_runes 4000 (snd discord))),
                         (''footer'', AMap [(''text'', AStr (''Codex Broker event '' @ textValue lib (lookup event ''event_id'') 64))])]])]
             else event)
      in json_text (encode_any (wl_json_float lib) (AMap shown)))"

subsection \<open>Emitting\<close>

definition hook_event :: "webhook_lib \<Rightarrow> redactor \<Rightarrow> string \<Rightarrow> int \<Rightarrow> string \<Rightarrow> string \<Rightarrow> gomap \<Rightarrow> gomap" where
  "hook_event lib red newID now eventType subject details =
     [(''schema'', AStr ''codex-broker.webhook/v1''), (''event_id'', AStr newID), (''event_type'', AStr eventType),
      (''subject'', AStr subject), (''occurred_at_ms'', AInt now), (''occurred_at'', AStr (wl_iso lib now)),
      (''notification'', AMap [(''source'', AStr ''CODEX_BROKER''), (''code'', AStr (eventCode eventType)),
         (''title'', AStr (if eventType = ''codex-broker.test'' then ''WEBHOOK TEST''
             else map fold_char (map (\<lambda>c. if c = CHR ''.'' then CHR '' '' else c) eventType)))]),
      (''data'', Redact red (AMap details))]"

definition new_delivery :: "string \<Rightarrow> string \<Rightarrow> int \<Rightarrow> string \<Rightarrow> string \<Rightarrow> delivery_row" where
  "new_delivery i event now destination body =
     \<lparr>dl_delivery_id = i, dl_event_id = event, dl_destination_id = destination, dl_state = ''PENDING'', dl_attempt_count = 0,
      dl_next_attempt_at_ms = now, dl_immutable_body = body, dl_content_type = ''application/json'', dl_lease_token = None,
      dl_lease_expires_at_ms = None, dl_last_status_code = None, dl_last_error_code = None, dl_last_response_excerpt = None,
      dl_created_at_ms = now, dl_completed_at_ms = None\<rparr>"

text \<open>\<open>newIDs\<close> are the identifiers of the deliveries, by the position of the destination.\<close>

definition emit_targets :: "string \<Rightarrow> webhook_db \<Rightarrow> destination_row list" where
  "emit_targets destinationID db =
     filter (\<lambda>d. if destinationID = [] then wd_enabled d else wd_destination_id d = destinationID) (t_webhook_destinations db)"

definition EmitTx :: "webhook_lib \<Rightarrow> redactor \<Rightarrow> string \<Rightarrow> (nat \<Rightarrow> string) \<Rightarrow> int \<Rightarrow> string \<Rightarrow> string \<Rightarrow> gomap \<Rightarrow> string \<Rightarrow> string
    \<Rightarrow> webhook_db \<Rightarrow> go_error + string \<times> webhook_db" where
  "EmitTx lib red newID newIDs now eventType subject details incidentID destinationID db =
     (let event = hook_event lib red newID now eventType subject details;
          targets = emit_targets destinationID db
      in if destinationID \<noteq> [] \<and> targets = [] then Inl destination_missing
         else Inr (newID, db\<lparr>
           t_webhook_events := t_webhook_events db
             @ [\<lparr>we_event_id = newID, we_event_type = eventType, we_subject = subject, we_occurred_at_ms = now,
                 we_canonical_body = json_text (encode_any (wl_json_float lib) (AMap event)),
                 we_incident_id = (if incidentID = [] then None else Some incidentID)\<rparr>],
           t_webhook_deliveries := t_webhook_deliveries db
             @ map (\<lambda>(k, d). new_delivery (newIDs k) newID now (wd_destination_id d) (providerBody lib (wd_kind d) event))
                 (enumerate 0 targets)\<rparr>))"

definition Emit :: "webhook_lib \<Rightarrow> redactor \<Rightarrow> string \<Rightarrow> (nat \<Rightarrow> string) \<Rightarrow> int \<Rightarrow> string \<Rightarrow> string \<Rightarrow> gomap \<Rightarrow> string \<Rightarrow> string
    \<Rightarrow> webhook_db \<Rightarrow> (go_error + string) \<times> webhook_db" where
  "Emit lib red newID newIDs now eventType subject details incidentID destinationID =
     hook_Write (EmitTx lib red newID newIDs now eventType subject details incidentID destinationID)"

definition hook_Test :: "webhook_lib \<Rightarrow> redactor \<Rightarrow> string \<Rightarrow> (nat \<Rightarrow> string) \<Rightarrow> int \<Rightarrow> string \<Rightarrow> webhook_db \<Rightarrow> (go_error + string) \<times> webhook_db" where
  "hook_Test lib red newID newIDs now i =
     Emit lib red newID newIDs now ''codex-broker.test'' (''destination:'' @ i)
       [(''destination_id'', AStr i), (''message'', AStr ''Codex Broker successfully created a test notification.''),
        (''delivery_status'', AStr ''DELIVERED''), (''severity'', AStr ''INFO''),
        (''recommended_action'', AStr ''No action required. This confirms the destination accepts Codex Broker webhooks.'')] [] i"

subsection \<open>Delivering\<close>

definition retrySeconds :: "int list" where
  "retrySeconds = [60, 300, 1800, 7200, 21600, 43200, 86400, 86400]"

record hook_item =
  it_id :: string
  it_event :: string
  it_destination :: string
  it_attempt :: nat
  it_body :: string
  it_contentType :: string
  it_encryptedURL :: string
  it_encryptedSecret :: "string option"
  it_lease :: string

definition waiting :: "delivery_row \<Rightarrow> bool" where
  "waiting r \<longleftrightarrow> dl_state r = ''PENDING'' \<or> dl_state r = ''RETRY_SCHEDULED''"

definition destination_of :: "webhook_db \<Rightarrow> delivery_row \<Rightarrow> destination_row option" where
  "destination_of db r = find (\<lambda>d. wd_destination_id d = dl_destination_id r) (t_webhook_destinations db)"

definition claimable :: "int \<Rightarrow> webhook_db \<Rightarrow> delivery_row \<Rightarrow> bool" where
  "claimable now db r \<longleftrightarrow> waiting r \<and> dl_next_attempt_at_ms r \<le> now
     \<and> (case destination_of db r of None \<Rightarrow> False | Some d \<Rightarrow> wd_enabled d)"

definition lease_row :: "int \<Rightarrow> string \<Rightarrow> delivery_row \<Rightarrow> delivery_row" where
  "lease_row now lease r = r\<lparr>dl_state := ''LEASED'', dl_lease_token := Some lease, dl_lease_expires_at_ms := Some (now + 30000)\<rparr>"

definition lease_delivery :: "int \<Rightarrow> string \<Rightarrow> string \<Rightarrow> webhook_db \<Rightarrow> webhook_db" where
  "lease_delivery now lease i db =
     db\<lparr>t_webhook_deliveries := update_where (\<lambda>r. dl_delivery_id r = i \<and> waiting r)
          (lease_row now lease) (t_webhook_deliveries db)\<rparr>"

definition claim_item :: "string \<Rightarrow> delivery_row \<Rightarrow> destination_row \<Rightarrow> hook_item" where
  "claim_item lease r d =
     \<lparr>it_id = dl_delivery_id r, it_event = dl_event_id r, it_destination = dl_destination_id r, it_attempt = dl_attempt_count r,
      it_body = dl_immutable_body r, it_contentType = dl_content_type r, it_encryptedURL = wd_encrypted_url d,
      it_encryptedSecret = wd_encrypted_signing_secret d, it_lease = lease\<rparr>"

definition hook_claim :: "int \<Rightarrow> string \<Rightarrow> webhook_db \<Rightarrow> hook_item option \<times> webhook_db" where
  "hook_claim now lease db =
     (case sort_key dl_next_attempt_at_ms (filter (claimable now db) (t_webhook_deliveries db)) of
        [] \<Rightarrow> (None, db)
      | r # _ \<Rightarrow> (Some (claim_item lease r (the (destination_of db r))), lease_delivery now lease (dl_delivery_id r) db))"

text \<open>\<open>providerDelay\<close> is 0 where the caller gives none.\<close>

definition finish_row :: "int \<Rightarrow> nat \<Rightarrow> int \<Rightarrow> string \<Rightarrow> string \<Rightarrow> int \<Rightarrow> delivery_row \<Rightarrow> delivery_row" where
  "finish_row now attempt status code excerpt providerDelay r =
     (let state = (if code = [] \<and> 200 \<le> status \<and> status < 300 then ''SUCCEEDED''
                   else if length retrySeconds \<le> attempt then ''FAILED'' else ''RETRY_SCHEDULED'');
          retry = (state = ''RETRY_SCHEDULED'');
          delay = (if 0 < providerDelay then providerDelay else retrySeconds ! (attempt - 1))
      in r\<lparr>dl_state := state, dl_attempt_count := attempt, dl_next_attempt_at_ms := (if retry then now + delay * 1000 else now),
           dl_lease_token := None, dl_lease_expires_at_ms := None, dl_last_status_code := (if 0 < status then Some status else None),
           dl_last_error_code := (if code = [] then None else Some code), dl_last_response_excerpt := Some excerpt,
           dl_completed_at_ms := (if retry then None else Some now)\<rparr>)"

definition hook_finish :: "int \<Rightarrow> hook_item \<Rightarrow> int \<Rightarrow> string \<Rightarrow> string \<Rightarrow> int \<Rightarrow> webhook_db \<Rightarrow> webhook_db" where
  "hook_finish now item status code excerpt providerDelay db =
     db\<lparr>t_webhook_deliveries := update_where (\<lambda>r. dl_delivery_id r = it_id item \<and> dl_lease_token r = Some (it_lease item))
          (finish_row now (it_attempt item + 1) status code excerpt providerDelay) (t_webhook_deliveries db)\<rparr>"

definition retryAfter :: "string \<Rightarrow> int" where
  "retryAfter s = (case ParseInt s of None \<Rightarrow> 0 | Some n \<Rightarrow> n)"

text \<open>What resolving the host and posting the request meet; a request that failed has no response.\<close>

record delivery_run =
  dr_addresses :: "Addr list option"
  dr_response :: "(int \<times> string \<times> string) option"
  dr_now :: int

record webhook_request =
  wq_address :: Addr
  wq_port :: string
  wq_target :: string
  wq_headers :: "(string \<times> string) list"
  wq_body :: string

definition hook_request :: "webhook_lib \<Rightarrow> hook_item \<Rightarrow> string \<Rightarrow> go_url \<Rightarrow> Addr \<Rightarrow> webhook_request" where
  "hook_request lib item target parsed address =
     (let secret = (case Option.bind (it_encryptedSecret item) (wl_open lib) of None \<Rightarrow> [] | Some s \<Rightarrow> s) in
      \<lparr>wq_address = address, wq_port = (if gu_Port parsed = [] then ''443'' else gu_Port parsed), wq_target = target,
       wq_headers = [(''Content-Type'', it_contentType item), (''User-Agent'', ''codex-broker/0.1''),
           (''X-Codex-Broker-Event-ID'', it_event item)]
         @ (if secret = [] then [] else [(''X-Codex-Broker-Signature'', ''sha256='' @ wl_hmac_hex lib secret (it_body item))]),
       wq_body = it_body item\<rparr>)"

definition finish_answered :: "redactor \<Rightarrow> delivery_run \<Rightarrow> hook_item \<Rightarrow> int \<times> string \<times> string \<Rightarrow> webhook_db \<Rightarrow> webhook_db" where
  "finish_answered red run item answer db =
     (case answer of (status, excerpt, retry) \<Rightarrow>
        (let delay = (if status = 429 then retryAfter retry else 0);
             delay = (if delay < 1 \<or> 86400 < delay then 0 else delay)
         in hook_finish (dr_now run) item status (if status < 200 \<or> 300 \<le> status then ''WEBHOOK_HTTP_ERROR'' else [])
              (as_string (Redact red (AStr excerpt))) delay db))"

text \<open>The result is the request sent, if one was. A target that does not parse was never created.\<close>

definition deliver :: "webhook_lib \<Rightarrow> redactor \<Rightarrow> delivery_run \<Rightarrow> hook_item \<Rightarrow> webhook_db \<Rightarrow> webhook_request option \<times> webhook_db" where
  "deliver lib red run item db =
     (case wl_open lib (it_encryptedURL item) of
        None \<Rightarrow> (None, hook_finish (dr_now run) item 0 ''WEBHOOK_DECRYPT_FAILED'' [] 0 db)
      | Some target \<Rightarrow>
          (case (wl_url lib target, dr_addresses run) of
             (Some parsed, Some (selected # addresses)) \<Rightarrow>
               if \<not> list_all publicAddress (selected # addresses)
               then (None, hook_finish (dr_now run) item 0 ''WEBHOOK_DESTINATION_BLOCKED'' [] 0 db)
               else (Some (hook_request lib item target parsed selected),
                     case dr_response run of
                       None \<Rightarrow> hook_finish (dr_now run) item 0 ''WEBHOOK_NETWORK_ERROR'' [] 0 db
                     | Some answer \<Rightarrow> finish_answered red run item answer db)
           | _ \<Rightarrow> (None, hook_finish (dr_now run) item 0 ''WEBHOOK_RESOLUTION_FAILED'' [] 0 db)))"

text \<open>One turn of the dispatcher's loop, and what a restart of the service does to leases.\<close>

record hook_turn =
  ht_now :: int
  ht_lease :: string
  ht_run :: delivery_run

definition hook_turn_step :: "webhook_lib \<Rightarrow> redactor \<Rightarrow> hook_turn \<Rightarrow> webhook_db \<Rightarrow> webhook_request option \<times> webhook_db" where
  "hook_turn_step lib red t db =
     (case hook_claim (ht_now t) (ht_lease t) db of
        (None, db) \<Rightarrow> (None, db)
      | (Some item, db) \<Rightarrow> deliver lib red (ht_run t) item db)"

definition release_row :: "int \<Rightarrow> delivery_row \<Rightarrow> delivery_row" where
  "release_row now r = r\<lparr>dl_state := ''RETRY_SCHEDULED'', dl_lease_token := None, dl_lease_expires_at_ms := None,
     dl_next_attempt_at_ms := now\<rparr>"

definition release_leases :: "int \<Rightarrow> webhook_db \<Rightarrow> webhook_db" where
  "release_leases now db =
     db\<lparr>t_webhook_deliveries := update_where (\<lambda>r. dl_state r = ''LEASED'') (release_row now) (t_webhook_deliveries db)\<rparr>"

text \<open>Old events are pruned (maintenanceLoop in internal/broker/service.go), with their deliveries.\<close>

definition prune_events :: "int \<Rightarrow> webhook_db \<Rightarrow> webhook_db" where
  "prune_events cutoff db =
     (let old = we_event_id ` set (take 250 (sort_key we_occurred_at_ms
                  (filter (\<lambda>e. we_occurred_at_ms e < cutoff) (t_webhook_events db))))
      in db\<lparr>t_webhook_events := filter (\<lambda>e. we_event_id e \<notin> old) (t_webhook_events db),
            t_webhook_deliveries := filter (\<lambda>r. dl_event_id r \<notin> old) (t_webhook_deliveries db)\<rparr>)"

end
