(* ===== verification/Webhook_Correct.thy ===== *)
theory Webhook_Correct
  imports Webhook
begin

text \<open>
  The dispatcher beside the operations that change its tables, as a step relation. The state adds
  to the tables the delivery in flight, the requests sent so far with the delivery they belong to,
  and the number of restarts. A restart may fall after the request was sent and before its result
  was stored.
\<close>

subsection \<open>Steps\<close>

record hook_state =
  hs_db :: webhook_db
  hs_item :: "hook_item option"
  hs_log :: "(string \<times> webhook_request) list"
  hs_restarts :: nat

abbreviation deliveries :: "hook_state \<Rightarrow> delivery_row list" where
  "deliveries s \<equiv> t_webhook_deliveries (hs_db s)"

definition used_ids :: "hook_state \<Rightarrow> string set" where
  "used_ids s = dl_delivery_id ` set (deliveries s) \<union> fst ` set (hs_log s)
     \<union> (case hs_item s of None \<Rightarrow> {} | Some item \<Rightarrow> {it_id item})"

definition fresh_ids :: "(nat \<Rightarrow> string) \<Rightarrow> hook_state \<Rightarrow> bool" where
  "fresh_ids newIDs s \<longleftrightarrow> inj newIDs \<and> range newIDs \<inter> used_ids s = {}"

definition log_of :: "hook_item \<Rightarrow> webhook_request option \<Rightarrow> (string \<times> webhook_request) list" where
  "log_of item q = (case q of None \<Rightarrow> [] | Some request \<Rightarrow> [(it_id item, request)])"

inductive hook_step :: "webhook_lib \<Rightarrow> redactor \<Rightarrow> hook_state \<Rightarrow> hook_state \<Rightarrow> bool"
  for lib red where
  create: "hook_Create lib newID now name target secret kind (hs_db s) = (result, db) \<Longrightarrow>
     hook_step lib red s (s\<lparr>hs_db := db\<rparr>)"
| set_enabled: "hook_SetEnabled i enabled (hs_db s) = (result, db) \<Longrightarrow> hook_step lib red s (s\<lparr>hs_db := db\<rparr>)"
| delete: "hook_Delete i (hs_db s) = (result, db) \<Longrightarrow> hook_step lib red s (s\<lparr>hs_db := db\<rparr>)"
| prune: "hook_step lib red s (s\<lparr>hs_db := prune_events cutoff (hs_db s)\<rparr>)"
| emit: "fresh_ids newIDs s \<Longrightarrow>
     EmitTx lib red newID newIDs now eventType subject details incident destination (hs_db s) = Inr (i, db) \<Longrightarrow>
     hook_step lib red s (s\<lparr>hs_db := db\<rparr>)"
| claim: "hs_item s = None \<Longrightarrow> hook_claim now lease (hs_db s) = (item, db) \<Longrightarrow>
     hook_step lib red s (s\<lparr>hs_db := db, hs_item := item\<rparr>)"
| deliver: "hs_item s = Some item \<Longrightarrow> deliver lib red run item (hs_db s) = (q, db) \<Longrightarrow>
     hook_step lib red s (s\<lparr>hs_db := db, hs_item := None, hs_log := hs_log s @ log_of item q\<rparr>)"
| restart: "hook_step lib red s (s\<lparr>hs_db := release_leases now (hs_db s), hs_item := None, hs_restarts := Suc (hs_restarts s)\<rparr>)"
| restart_after_send: "hs_item s = Some item \<Longrightarrow> deliver lib red run item (hs_db s) = (q, db) \<Longrightarrow>
     hook_step lib red s (s\<lparr>hs_db := release_leases now (hs_db s), hs_item := None,
       hs_log := hs_log s @ log_of item q, hs_restarts := Suc (hs_restarts s)\<rparr>)"

definition hook_start :: "hook_state \<Rightarrow> bool" where
  "hook_start s \<longleftrightarrow> deliveries s = [] \<and> hs_item s = None \<and> hs_log s = [] \<and> hs_restarts s = 0"

subsection \<open>The invariant\<close>

definition sent :: "string \<Rightarrow> hook_state \<Rightarrow> nat" where
  "sent i s = length (filter (\<lambda>entry. fst entry = i) (hs_log s))"

definition terminal :: "delivery_row \<Rightarrow> bool" where
  "terminal r \<longleftrightarrow> dl_state r = ''SUCCEEDED'' \<or> dl_state r = ''FAILED''"

definition leased :: "delivery_row \<Rightarrow> bool" where
  "leased r \<longleftrightarrow> dl_state r = ''LEASED''"

definition row_ok :: "delivery_row \<Rightarrow> bool" where
  "row_ok r \<longleftrightarrow> (if terminal r then 1 \<le> dl_attempt_count r \<and> dl_attempt_count r \<le> 8 \<and> dl_completed_at_ms r \<noteq> None
                  else (waiting r \<or> leased r) \<and> dl_attempt_count r < 8 \<and> dl_completed_at_ms r = None)
     \<and> (leased r \<longleftrightarrow> dl_lease_token r \<noteq> None)"

definition carries :: "hook_item \<Rightarrow> delivery_row \<Rightarrow> bool" where
  "carries item r \<longleftrightarrow> leased r \<and> dl_lease_token r = Some (it_lease item) \<and> dl_attempt_count r = it_attempt item
     \<and> dl_immutable_body r = it_body item"

definition flight_ok :: "hook_state \<Rightarrow> bool" where
  "flight_ok s \<longleftrightarrow>
     (case hs_item s of
        None \<Rightarrow> \<forall>r\<in>set (deliveries s). \<not> leased r
      | Some item \<Rightarrow> it_attempt item < 8 \<and> sent (it_id item) s \<le> it_attempt item + hs_restarts s
          \<and> (\<forall>r\<in>set (deliveries s). if dl_delivery_id r = it_id item then carries item r else \<not> leased r)
          \<and> (\<forall>(i, q)\<in>set (hs_log s). i = it_id item \<longrightarrow> wq_body q = it_body item))"

definition log_ok :: "hook_state \<Rightarrow> bool" where
  "log_ok s \<longleftrightarrow> (\<forall>i. sent i s \<le> 8 + hs_restarts s)
     \<and> (\<forall>(i, q)\<in>set (hs_log s). publicAddress (wq_address q))
     \<and> (\<forall>r\<in>set (deliveries s). sent (dl_delivery_id r) s \<le> dl_attempt_count r + hs_restarts s
          \<and> (\<forall>(i, q)\<in>set (hs_log s). i = dl_delivery_id r \<longrightarrow> wq_body q = dl_immutable_body r))"

definition hook_inv :: "hook_state \<Rightarrow> bool" where
  "hook_inv s \<longleftrightarrow> (\<forall>r\<in>set (deliveries s). row_ok r) \<and> distinct (map dl_delivery_id (deliveries s)) \<and> flight_ok s \<and> log_ok s"

text \<open>Deleting deliveries and adding fresh ones keeps it.\<close>

lemma hook_inv_subset:
  assumes "hook_inv s" "set (t_webhook_deliveries db) \<subseteq> set (deliveries s)" "distinct (map dl_delivery_id (t_webhook_deliveries db))"
  shows "hook_inv (s\<lparr>hs_db := db\<rparr>)"
  using assms unfolding hook_inv_def flight_ok_def log_ok_def sent_def
  by (auto split: option.splits; blast)

lemma deliveries_create [simp]:
  "hook_Create lib newID now name target secret kind db = (result, db') \<Longrightarrow> t_webhook_deliveries db' = t_webhook_deliveries db"
  by (auto simp: hook_Create_def hook_Write_def Let_def split: option.splits if_splits prod.splits sum.splits)

lemma deliveries_set_enabled [simp]:
  "hook_SetEnabled i enabled db = (result, db') \<Longrightarrow> t_webhook_deliveries db' = t_webhook_deliveries db"
  by (auto simp: hook_SetEnabled_def hook_Write_def split: if_splits)

lemma deliveries_delete:
  "hook_Delete i db = (result, db') \<Longrightarrow> \<exists>P. t_webhook_deliveries db' = filter P (t_webhook_deliveries db)"
  by (auto simp: hook_Delete_def hook_Write_def split: if_splits intro: exI [of _ "\<lambda>_. True"])

lemma deliveries_prune: "\<exists>P. t_webhook_deliveries (prune_events cutoff db) = filter P (t_webhook_deliveries db)"
  by (auto simp: prune_events_def Let_def)

lemma deliveries_emit:
  assumes "EmitTx lib red newID newIDs now eventType subject details incident destination db = Inr (i, db')"
  obtains n bodies where "t_webhook_deliveries db' = t_webhook_deliveries db
    @ map (\<lambda>k. new_delivery (newIDs k) newID now (fst (bodies k)) (snd (bodies k))) [0..<n]"
proof -
  let ?targets = "emit_targets destination db"
  let ?bodies = "\<lambda>k. (wd_destination_id (?targets ! k),
    providerBody lib (wd_kind (?targets ! k)) (hook_event lib red newID now eventType subject details))"
  have "map (\<lambda>(k, d). new_delivery (newIDs k) newID now (wd_destination_id d)
        (providerBody lib (wd_kind d) (hook_event lib red newID now eventType subject details))) (enumerate 0 ?targets)
    = map (\<lambda>k. new_delivery (newIDs k) newID now (fst (?bodies k)) (snd (?bodies k))) [0..<length ?targets]"
    by (rule nth_equalityI) (auto simp: nth_enumerate_eq)
  then show ?thesis using that [of ?bodies "length ?targets"] assms by (auto simp: EmitTx_def Let_def split: if_splits)
qed

text \<open>A delivery whose identifier was never used can be added.\<close>

lemma new_delivery_ok [simp]:
  "row_ok (new_delivery i event now destination body)" "\<not> leased (new_delivery i event now destination body)"
  "dl_delivery_id (new_delivery i event now destination body) = i"
  by (simp_all add: row_ok_def new_delivery_def waiting_def leased_def terminal_def)

lemma sent_unused: "i \<notin> used_ids s \<Longrightarrow> sent i s = 0"
  by (auto simp: sent_def used_ids_def filter_empty_conv image_iff)

lemma used_ids_mem:
  "r \<in> set (deliveries s) \<Longrightarrow> dl_delivery_id r \<in> used_ids s"
  "(i, q) \<in> set (hs_log s) \<Longrightarrow> i \<in> used_ids s"
  "hs_item s = Some item \<Longrightarrow> it_id item \<in> used_ids s"
  unfolding used_ids_def by (simp, simp, metis Un_iff fst_conv imageI, simp)

lemma hook_inv_add:
  assumes inv: "hook_inv s" and rows: "t_webhook_deliveries db = deliveries s @ map f ks"
    and f: "\<And>k. row_ok (f k) \<and> \<not> leased (f k)" and ids: "\<And>k. dl_delivery_id (f k) = newIDs k"
    and ks: "distinct ks" and fresh: "fresh_ids newIDs s"
  shows "hook_inv (s\<lparr>hs_db := db\<rparr>)"
proof -
  have unused: "newIDs k \<notin> used_ids s" for k using fresh by (auto simp: fresh_ids_def)
  have "inj newIDs" using fresh by (simp add: fresh_ids_def)
  then have news: "distinct (map newIDs ks)" using ks by (simp add: distinct_map inj_on_subset [OF _ subset_UNIV])
  have other: "dl_delivery_id r \<noteq> newIDs k" if "r \<in> set (deliveries s)" for r k
    using unused [of k] used_ids_mem(1) [OF that] by metis
  have dist: "distinct (map dl_delivery_id (t_webhook_deliveries db))"
  proof -
    have "map dl_delivery_id (map f ks) = map newIDs ks" by (simp add: ids)
    moreover have "set (map dl_delivery_id (deliveries s)) \<inter> set (map newIDs ks) = {}"
      using other by (simp add: disjoint_iff) (metis imageE)
    ultimately show ?thesis
      using inv news by (simp add: rows hook_inv_def comp_def ids)
  qed
  have zero: "sent (newIDs k) s = 0" for k by (rule sent_unused [OF unused])
  have unlogged: "i \<noteq> newIDs k" if "(i, q) \<in> set (hs_log s)" for i q k
    using unused [of k] used_ids_mem(2) [OF that] by metis
  have aloft: "it_id item \<noteq> newIDs k" if "hs_item s = Some item" for item k
    using unused [of k] used_ids_mem(3) [OF that] by metis
  have new: "r \<in> set (t_webhook_deliveries db) \<Longrightarrow> r \<notin> set (deliveries s) \<Longrightarrow> \<exists>k. r = f k" for r
    by (auto simp: rows)
  have flight: "flight_ok (s\<lparr>hs_db := db\<rparr>)"
  proof (cases "hs_item s")
    case None
    then show ?thesis using inv f by (auto simp: hook_inv_def flight_ok_def rows)
  next
    case (Some item)
    have "if dl_delivery_id r = it_id item then carries item r else \<not> leased r" if mem: "r \<in> set (t_webhook_deliveries db)" for r
    proof (cases "r \<in> set (deliveries s)")
      case True
      then show ?thesis using inv Some by (simp add: hook_inv_def flight_ok_def)
    next
      case False
      then obtain k where "r = f k" using new [OF mem] by blast
      then show ?thesis using f ids aloft [OF Some, of k] by auto
    qed
    then show ?thesis using inv Some by (simp add: hook_inv_def flight_ok_def sent_def)
  qed
  have log: "log_ok (s\<lparr>hs_db := db\<rparr>)"
  proof -
    have "sent (dl_delivery_id r) s \<le> dl_attempt_count r + hs_restarts s
        \<and> (\<forall>(i, q)\<in>set (hs_log s). i = dl_delivery_id r \<longrightarrow> wq_body q = dl_immutable_body r)"
      if mem: "r \<in> set (t_webhook_deliveries db)" for r
    proof (cases "r \<in> set (deliveries s)")
      case True
      then show ?thesis using inv by (simp add: hook_inv_def log_ok_def)
    next
      case False
      then obtain k where "r = f k" using new [OF mem] by blast
      then show ?thesis using zero [of k] unlogged by (auto simp: ids)
    qed
    then show ?thesis using inv by (simp add: hook_inv_def log_ok_def sent_def)
  qed
  have "\<forall>r\<in>set (t_webhook_deliveries db). row_ok r"
    using inv f by (auto simp: hook_inv_def rows)
  with dist flight log show ?thesis by (simp add: hook_inv_def)
qed

text \<open>Rows that keep their identifier, body and attempts keep the log.\<close>

lemma log_ok_rows:
  assumes "log_ok s" "hs_log t = hs_log s" "hs_restarts s \<le> hs_restarts t"
    and "\<And>r. r \<in> set (deliveries t) \<Longrightarrow> \<exists>r'\<in>set (deliveries s). dl_delivery_id r = dl_delivery_id r'
           \<and> dl_immutable_body r = dl_immutable_body r' \<and> dl_attempt_count r' \<le> dl_attempt_count r"
  shows "log_ok t"
proof -
  have same: "sent i t = sent i s" for i using assms(2) by (simp add: sent_def)
  have "sent (dl_delivery_id r) t \<le> dl_attempt_count r + hs_restarts t
      \<and> (\<forall>(i, q)\<in>set (hs_log t). i = dl_delivery_id r \<longrightarrow> wq_body q = dl_immutable_body r)"
    if mem: "r \<in> set (deliveries t)" for r
  proof -
    obtain r' where r': "r' \<in> set (deliveries s)" "dl_delivery_id r = dl_delivery_id r'"
      "dl_immutable_body r = dl_immutable_body r'" "dl_attempt_count r' \<le> dl_attempt_count r"
      using assms(4) [OF mem] by blast
    then have "sent (dl_delivery_id r') s \<le> dl_attempt_count r' + hs_restarts s"
      "\<forall>(i, q)\<in>set (hs_log s). i = dl_delivery_id r' \<longrightarrow> wq_body q = dl_immutable_body r'"
      using assms(1) by (simp_all add: log_ok_def)
    then show ?thesis using r' assms(2,3) by (auto simp: same)
  qed
  moreover have "sent i t \<le> 8 + hs_restarts t" for i
    using assms(1,3) unfolding log_ok_def same by (meson add_left_mono le_trans)
  ultimately show ?thesis using assms(1,2) by (simp add: log_ok_def)
qed

lemma claim_None: "hook_claim now lease db = (None, db') \<Longrightarrow> db' = db"
  by (auto simp: hook_claim_def split: list.splits)

lemma claim_Some:
  assumes "hook_claim now lease db = (Some item, db')"
  obtains r d where "r \<in> set (t_webhook_deliveries db)" "claimable now db r" "destination_of db r = Some d"
    "item = claim_item lease r d" "db' = lease_delivery now lease (dl_delivery_id r) db"
proof -
  obtain r rest where sorted: "sort_key dl_next_attempt_at_ms (filter (claimable now db) (t_webhook_deliveries db)) = r # rest"
    and item: "item = claim_item lease r (the (destination_of db r))" "db' = lease_delivery now lease (dl_delivery_id r) db"
    using assms by (auto simp: hook_claim_def split: list.splits)
  have "r \<in> set (filter (claimable now db) (t_webhook_deliveries db))"
    using sorted by (metis list.set_intros(1) set_sort)
  then show ?thesis using that [of r "the (destination_of db r)"] item
    by (auto simp: claimable_def split: option.splits)
qed

lemma mem_update_where: "y \<in> set (update_where P f rows) \<longleftrightarrow> (\<exists>x\<in>set rows. y = (if P x then f x else x))"
  unfolding set_update_where image_iff ..

lemma row_updates [simp]:
  "dl_delivery_id (lease_row now lease r) = dl_delivery_id r" "dl_immutable_body (lease_row now lease r) = dl_immutable_body r"
  "dl_attempt_count (lease_row now lease r) = dl_attempt_count r"
  "dl_delivery_id (release_row now r) = dl_delivery_id r" "dl_immutable_body (release_row now r) = dl_immutable_body r"
  "dl_attempt_count (release_row now r) = dl_attempt_count r"
  "dl_delivery_id (finish_row now n status code excerpt delay r) = dl_delivery_id r"
  "dl_immutable_body (finish_row now n status code excerpt delay r) = dl_immutable_body r"
  "dl_attempt_count (finish_row now n status code excerpt delay r) = n"
  by (simp_all add: lease_row_def release_row_def finish_row_def Let_def)

lemma leased_row_updates [simp]:
  "leased (lease_row now lease r)" "\<not> leased (release_row now r)" "\<not> leased (finish_row now n status code excerpt delay r)"
  "dl_lease_token (lease_row now lease r) = Some lease"
  by (simp_all add: lease_row_def release_row_def finish_row_def leased_def Let_def)

lemma row_ok_updates:
  "row_ok r \<Longrightarrow> waiting r \<Longrightarrow> row_ok (lease_row now lease r)"
  "row_ok r \<Longrightarrow> leased r \<Longrightarrow> row_ok (release_row now r)"
  "n < 8 \<Longrightarrow> row_ok (finish_row now (n + 1) status code excerpt delay r)"
  by (auto simp: row_ok_def lease_row_def release_row_def finish_row_def terminal_def waiting_def leased_def
      retrySeconds_def Let_def)

lemma map_ids_update_where:
  "(\<And>r. dl_delivery_id (f r) = dl_delivery_id r) \<Longrightarrow> map dl_delivery_id (update_where P f rows) = map dl_delivery_id rows"
  by (simp add: map_update_where)

lemma distinct_row:
  "distinct (map dl_delivery_id rows) \<Longrightarrow> r \<in> set rows \<Longrightarrow> r' \<in> set rows \<Longrightarrow> dl_delivery_id r = dl_delivery_id r' \<Longrightarrow> r = r'"
  by (auto simp: distinct_map inj_on_def)

lemma hook_inv_claim:
  assumes inv: "hook_inv s" and none: "hs_item s = None" and claim: "hook_claim now lease (hs_db s) = (Some item, db)"
  shows "hook_inv (s\<lparr>hs_db := db, hs_item := Some item\<rparr>)"
proof -
  obtain r d where r: "r \<in> set (deliveries s)" "claimable now (hs_db s) r"
    and item: "item = claim_item lease r d" and db: "db = lease_delivery now lease (dl_delivery_id r) (hs_db s)"
    by (rule claim_Some [OF claim])
  have waiting: "waiting r" using r(2) by (simp add: claimable_def)
  have dist: "distinct (map dl_delivery_id (deliveries s))" using inv by (simp add: hook_inv_def)
  have ok: "row_ok r" and idle: "\<forall>r\<in>set (deliveries s). \<not> leased r" and log: "log_ok s"
    using inv none r(1) by (auto simp: hook_inv_def flight_ok_def)
  have rows: "\<exists>x\<in>set (deliveries s). y = (if x = r then lease_row now lease r else x)"
    if y: "y \<in> set (t_webhook_deliveries db)" for y
  proof -
    obtain x where x: "x \<in> set (deliveries s)"
      "y = (if dl_delivery_id x = dl_delivery_id r \<and> waiting x then lease_row now lease x else x)"
      using y by (auto simp: db lease_delivery_def mem_update_where)
    have "dl_delivery_id x = dl_delivery_id r \<and> waiting x \<longleftrightarrow> x = r"
      using distinct_row [OF dist x(1) r(1)] waiting by auto
    then show ?thesis using x by (intro bexI [of _ x]) auto
  qed
  have "distinct (map dl_delivery_id (t_webhook_deliveries db))"
    using dist by (simp add: db lease_delivery_def map_ids_update_where)
  moreover have "row_ok y" if y: "y \<in> set (t_webhook_deliveries db)" for y
    using rows [OF y] inv row_ok_updates(1) [OF ok waiting] by (auto simp: hook_inv_def split: if_splits)
  moreover have "log_ok (s\<lparr>hs_db := db, hs_item := Some item\<rparr>)"
    by (rule log_ok_rows [OF log]) (auto dest!: rows split: if_splits)
  moreover have "flight_ok (s\<lparr>hs_db := db, hs_item := Some item\<rparr>)"
  proof -
    have attempts: "dl_attempt_count r < 8" using ok waiting by (auto simp: row_ok_def waiting_def terminal_def split: if_splits)
    have "if dl_delivery_id y = dl_delivery_id r then carries item y else \<not> leased y"
      if y: "y \<in> set (t_webhook_deliveries db)" for y
    proof -
      obtain x where x: "x \<in> set (deliveries s)" "y = (if x = r then lease_row now lease r else x)"
        using rows [OF y] by blast
      show ?thesis
      proof (cases "x = r")
        case True
        then show ?thesis using x by (simp add: carries_def item claim_item_def)
      next
        case False
        then show ?thesis using x idle distinct_row [OF dist x(1) r(1)] by auto
      qed
    qed
    moreover have "sent (dl_delivery_id r) s \<le> dl_attempt_count r + hs_restarts s"
      "\<forall>(i, q)\<in>set (hs_log s). i = dl_delivery_id r \<longrightarrow> wq_body q = dl_immutable_body r"
      using log r(1) by (simp_all add: log_ok_def)
    moreover have "it_id item = dl_delivery_id r" "it_attempt item = dl_attempt_count r" "it_body item = dl_immutable_body r"
      by (simp_all add: item claim_item_def)
    ultimately show ?thesis using attempts by (simp add: flight_ok_def sent_def)
  qed
  ultimately show ?thesis by (simp add: hook_inv_def)
qed

text \<open>What delivering an item does: at most one request, to a public address, and one row settled.\<close>

definition settled_by :: "delivery_run \<Rightarrow> hook_item \<Rightarrow> webhook_db \<Rightarrow> webhook_db \<Rightarrow> bool" where
  "settled_by run item db db' \<longleftrightarrow>
     (\<exists>status code excerpt delay. db' = hook_finish (dr_now run) item status code excerpt delay db \<and> delay \<le> 86400)"

lemma finish_settles: "delay \<le> 86400 \<Longrightarrow> settled_by run item db (hook_finish (dr_now run) item status code excerpt delay db)"
  unfolding settled_by_def by blast

lemma answered_settles: "settled_by run item db (finish_answered red run item answer db)"
  by (cases answer) (simp add: finish_answered_def Let_def finish_settles)

lemma deliver_settles: "settled_by run item db (snd (deliver lib red run item db))"
  unfolding deliver_def by (simp split: option.split list.split add: finish_settles answered_settles)

lemma deliver_outcome:
  assumes "deliver lib red run item db = (q, db')"
  obtains status code excerpt delay where "db' = hook_finish (dr_now run) item status code excerpt delay db" "delay \<le> 86400"
  using deliver_settles [of run item db lib red] assms unfolding settled_by_def by auto

lemma deliver_request:
  assumes "deliver lib red run item db = (Some q, db')"
  shows "publicAddress (wq_address q) \<and> wq_body q = it_body item"
  using assms by (auto simp: deliver_def hook_request_def Let_def split: option.splits list.splits if_splits)

lemma log_of_request:
  assumes "deliver lib red run item db = (q, db')"
  shows "\<forall>(i, r)\<in>set (log_of item q). i = it_id item \<and> publicAddress (wq_address r) \<and> wq_body r = it_body item"
    and "length (log_of item q) \<le> 1"
  using deliver_request [of lib red run item db _ db'] assms by (auto simp: log_of_def split: option.splits)

lemma sent_append:
  assumes "hs_log t = hs_log s @ new" and "\<forall>(i, r)\<in>set new. i = k" "length new \<le> 1"
  shows "sent i t \<le> sent i s + (if i = k then 1 else 0)"
proof -
  have "i \<noteq> k \<Longrightarrow> filter (\<lambda>entry. fst entry = i) new = []" using assms(2) by (auto simp: filter_empty_conv)
  then show ?thesis
    using assms(1,3) by (auto simp: sent_def intro: le_trans [OF length_filter_le])
qed

text \<open>
  The end of a flight: the rows of the item are settled with one attempt more or given back by a
  restart, and the log has at most one request more.
\<close>

lemma hook_inv_landed:
  assumes inv: "hook_inv s" and item: "hs_item s = Some item"
    and log: "hs_log t = hs_log s @ log_of item q" and q: "deliver lib red run item (hs_db s) = (q, db)"
    and t: "hs_item t = None" "hs_restarts s \<le> hs_restarts t" "distinct (map dl_delivery_id (deliveries t))"
    and rows: "\<And>y. y \<in> set (deliveries t) \<Longrightarrow> \<exists>x\<in>set (deliveries s). dl_delivery_id y = dl_delivery_id x
       \<and> dl_immutable_body y = dl_immutable_body x \<and> row_ok y \<and> \<not> leased y
       \<and> (if dl_delivery_id x = it_id item then dl_attempt_count x + hs_restarts s < dl_attempt_count y + hs_restarts t
          else dl_attempt_count x \<le> dl_attempt_count y)"
  shows "hook_inv t"
proof -
  have okay: "log_ok s" "flight_ok s" using inv by (simp_all add: hook_inv_def)
  have entries: "\<forall>(i, r)\<in>set (log_of item q). i = it_id item" using log_of_request(1) [OF q] by auto
  have sent: "sent i t \<le> sent i s + (if i = it_id item then 1 else 0)" for i
    by (rule sent_append [OF log entries log_of_request(2) [OF q]])
  have aloft: "it_attempt item < 8" "sent (it_id item) s \<le> it_attempt item + hs_restarts s"
    and carried: "\<And>r. r \<in> set (deliveries s) \<Longrightarrow> dl_delivery_id r = it_id item \<Longrightarrow> carries item r"
    using okay(2) item by (auto simp: flight_ok_def split: if_splits)
  have "sent i t \<le> 8 + hs_restarts t" for i
  proof (cases "i = it_id item")
    case True
    then show ?thesis using sent [of i] aloft t(2) by simp
  next
    case False
    then have "sent i t \<le> sent i s" using sent [of i] by simp
    moreover have "sent i s \<le> 8 + hs_restarts s" using okay(1) by (simp add: log_ok_def)
    ultimately show ?thesis using t(2) by simp
  qed
  moreover have "\<forall>(i, q)\<in>set (hs_log t). publicAddress (wq_address q)"
    using okay(1) log_of_request(1) [OF q] by (auto simp: log log_ok_def)
  moreover have "sent (dl_delivery_id y) t \<le> dl_attempt_count y + hs_restarts t
      \<and> (\<forall>(i, q)\<in>set (hs_log t). i = dl_delivery_id y \<longrightarrow> wq_body q = dl_immutable_body y)"
    if y: "y \<in> set (deliveries t)" for y
  proof -
    obtain x where x: "x \<in> set (deliveries s)" "dl_delivery_id y = dl_delivery_id x" "dl_immutable_body y = dl_immutable_body x"
      "if dl_delivery_id x = it_id item then dl_attempt_count x + hs_restarts s < dl_attempt_count y + hs_restarts t
       else dl_attempt_count x \<le> dl_attempt_count y"
      using rows [OF y] by blast
    have "sent (dl_delivery_id x) s \<le> dl_attempt_count x + hs_restarts s"
      and bodies: "\<forall>(i, q)\<in>set (hs_log s). i = dl_delivery_id x \<longrightarrow> wq_body q = dl_immutable_body x"
      using okay(1) x(1) by (simp_all add: log_ok_def)
    then have "sent (dl_delivery_id y) t \<le> dl_attempt_count y + hs_restarts t"
      using sent [of "dl_delivery_id x"] x t(2) by (auto split: if_splits)
    moreover have "wq_body r = dl_immutable_body y" if "(dl_delivery_id y, r) \<in> set (hs_log t)" for r
    proof (cases "(dl_delivery_id y, r) \<in> set (hs_log s)")
      case True
      then show ?thesis using bodies x by auto
    next
      case False
      then have "dl_delivery_id x = it_id item \<and> wq_body r = it_body item"
        using that log_of_request(1) [OF q] x(2) by (auto simp: log)
      then show ?thesis using carried [OF x(1)] x by (auto simp: carries_def)
    qed
    ultimately show ?thesis by auto
  qed
  ultimately have "log_ok t" by (simp add: log_ok_def)
  moreover have "flight_ok t" using t(1) rows by (auto simp: flight_ok_def)
  ultimately show ?thesis using t(3) rows by (auto simp: hook_inv_def)
qed

lemma hook_inv_deliver:
  assumes inv: "hook_inv s" and item: "hs_item s = Some item" and q: "deliver lib red run item (hs_db s) = (q, db)"
  shows "hook_inv (s\<lparr>hs_db := db, hs_item := None, hs_log := hs_log s @ log_of item q\<rparr>)"
proof (rule hook_inv_landed [OF inv item _ q])
  obtain status code excerpt delay where db: "db = hook_finish (dr_now run) item status code excerpt delay (hs_db s)"
    by (rule deliver_outcome [OF q])
  let ?t = "s\<lparr>hs_db := db, hs_item := None, hs_log := hs_log s @ log_of item q\<rparr>"
  show "distinct (map dl_delivery_id (deliveries ?t))"
    using inv by (simp add: hook_inv_def db hook_finish_def map_ids_update_where)
  fix y
  assume "y \<in> set (deliveries ?t)"
  then obtain x where x: "x \<in> set (deliveries s)"
    "y = (if dl_delivery_id x = it_id item \<and> dl_lease_token x = Some (it_lease item)
          then finish_row (dr_now run) (it_attempt item + 1) status code excerpt delay x else x)"
    by (auto simp: db hook_finish_def mem_update_where)
  have flight: "if dl_delivery_id x = it_id item then carries item x else \<not> leased x" "it_attempt item < 8" "row_ok x"
    using inv item x(1) by (auto simp: hook_inv_def flight_ok_def)
  show "\<exists>x\<in>set (deliveries s). dl_delivery_id y = dl_delivery_id x \<and> dl_immutable_body y = dl_immutable_body x
      \<and> row_ok y \<and> \<not> leased y
      \<and> (if dl_delivery_id x = it_id item then dl_attempt_count x + hs_restarts s < dl_attempt_count y + hs_restarts ?t
         else dl_attempt_count x \<le> dl_attempt_count y)"
    using x flight row_ok_updates(3) [OF flight(2)] by (intro bexI [OF _ x(1)]) (auto simp: carries_def split: if_splits)
qed simp_all

lemma hook_inv_restart:
  assumes inv: "hook_inv s" and t: "deliveries t = t_webhook_deliveries (release_leases now (hs_db s))" "hs_item t = None"
    "hs_restarts t = Suc (hs_restarts s)"
    and cases: "hs_log t = hs_log s \<or> (\<exists>item lib red run q db. hs_item s = Some item
      \<and> hs_log t = hs_log s @ log_of item q \<and> deliver lib red run item (hs_db s) = (q, db))"
  shows "hook_inv t"
proof -
  have ids: "distinct (map dl_delivery_id (deliveries t))"
    using inv by (simp add: hook_inv_def t(1) release_leases_def map_ids_update_where)
  have rows: "\<exists>x\<in>set (deliveries s). dl_delivery_id y = dl_delivery_id x \<and> dl_immutable_body y = dl_immutable_body x
      \<and> row_ok y \<and> \<not> leased y \<and> dl_attempt_count y = dl_attempt_count x" if y: "y \<in> set (deliveries t)" for y
  proof -
    obtain x where x: "x \<in> set (deliveries s)" "y = (if leased x then release_row now x else x)"
      using y by (auto simp: t(1) release_leases_def mem_update_where leased_def)
    then have "row_ok x" using inv by (simp add: hook_inv_def)
    then show ?thesis using x row_ok_updates(2) by (intro bexI [OF _ x(1)]) auto
  qed
  show ?thesis
  proof (cases "hs_log t = hs_log s")
    case True
    have "log_ok s" using inv by (simp add: hook_inv_def)
    then have "log_ok t" by (rule log_ok_rows) (auto simp: True t(3) dest!: rows)
    moreover have "flight_ok t" using rows by (auto simp: flight_ok_def t(2))
    ultimately show ?thesis using ids rows by (auto simp: hook_inv_def)
  next
    case False
    then obtain item lib red run q db where "hs_item s = Some item" "hs_log t = hs_log s @ log_of item q"
      "deliver lib red run item (hs_db s) = (q, db)" using cases by blast
    then show ?thesis
    proof (rule hook_inv_landed [OF inv])
      fix y
      assume "y \<in> set (deliveries t)"
      then obtain x where "x \<in> set (deliveries s)" "dl_delivery_id y = dl_delivery_id x" "dl_immutable_body y = dl_immutable_body x"
        "row_ok y" "\<not> leased y" "dl_attempt_count y = dl_attempt_count x" using rows by blast
      then show "\<exists>x\<in>set (deliveries s). dl_delivery_id y = dl_delivery_id x \<and> dl_immutable_body y = dl_immutable_body x
          \<and> row_ok y \<and> \<not> leased y
          \<and> (if dl_delivery_id x = it_id item then dl_attempt_count x + hs_restarts s < dl_attempt_count y + hs_restarts t
             else dl_attempt_count x \<le> dl_attempt_count y)"
        using t(3) by (intro bexI [of _ x]) auto
    qed (use t ids in simp_all)
  qed
qed

lemma hook_inv_step:
  assumes "hook_inv s" "hook_step lib red s t"
  shows "hook_inv t"
  using assms(2)
proof cases
  case (create newID now name target secret kind result db)
  then show ?thesis using hook_inv_subset [OF assms(1), of db] assms(1) by (simp add: hook_inv_def)
next
  case (set_enabled i enabled result db)
  then show ?thesis using hook_inv_subset [OF assms(1), of db] assms(1) by (simp add: hook_inv_def)
next
  case (delete i result db)
  obtain P where "t_webhook_deliveries db = filter P (deliveries s)" using deliveries_delete [OF delete(2)] by blast
  then show ?thesis using delete hook_inv_subset [OF assms(1), of db] assms(1)
    by (simp add: hook_inv_def distinct_map_filter)
next
  case (prune cutoff)
  then show ?thesis using hook_inv_subset [OF assms(1), of "prune_events cutoff (hs_db s)"] assms(1)
    by (simp add: hook_inv_def distinct_map_filter prune_events_def Let_def)
next
  case (emit newIDs newID now eventType subject details incident destination i db)
  obtain n bodies where "t_webhook_deliveries db = deliveries s
      @ map (\<lambda>k. new_delivery (newIDs k) newID now (fst (bodies k)) (snd (bodies k))) [0..<n]"
    by (rule deliveries_emit [OF emit(3)])
  then show ?thesis unfolding emit(1)
    by (rule hook_inv_add [OF assms(1), where newIDs = newIDs]) (use emit(2) in simp_all)
next
  case (claim now lease item db)
  show ?thesis
  proof (cases item)
    case None
    then have "db = hs_db s" using claim(3) claim_None by blast
    then have "t = s" using claim None by (cases s) simp
    then show ?thesis using assms(1) by simp
  next
    case (Some it)
    then show ?thesis using hook_inv_claim [OF assms(1) claim(2)] claim(1,3) by simp
  qed
next
  case (deliver item run q db)
  then show ?thesis using hook_inv_deliver [OF assms(1)] by simp
next
  case (restart now)
  then show ?thesis by (intro hook_inv_restart [OF assms(1)]) auto
next
  case (restart_after_send item run q db now)
  then show ?thesis by (intro hook_inv_restart [OF assms(1)]) auto
qed

interpretation hooks: inv_system hook_start "hook_step lib red" hook_inv
proof
  show "hook_start s \<Longrightarrow> hook_inv s" for s
    by (simp add: hook_start_def hook_inv_def flight_ok_def log_ok_def sent_def)
  show "hook_inv s \<Longrightarrow> hook_step lib red s t \<Longrightarrow> hook_inv t" for s t
    by (rule hook_inv_step)
qed

subsection \<open>Properties\<close>

text \<open>
  C9: whatever is created, emitted, deleted, pruned or restarted meanwhile, a delivery is sent at
  most eight times, and once more for each restart that came between sending and storing the
  result. Every request goes to a public address and carries the body the event was queued with.
\<close>

theorem webhook_requests_bounded:
  assumes "hook_start s0" and "(hook_step lib red)\<^sup>*\<^sup>* s0 s"
  shows "sent i s \<le> 8 + hs_restarts s
    \<and> (\<forall>(j, q)\<in>set (hs_log s). publicAddress (wq_address q)
         \<and> (\<forall>r\<in>set (deliveries s). dl_delivery_id r = j \<longrightarrow> wq_body q = dl_immutable_body r))"
proof -
  have "log_ok s" using hooks.reachable_inv [OF assms] by (simp add: hook_inv_def)
  then show ?thesis unfolding log_ok_def by auto
qed

lemma kept_update_where: "r \<in> set rows \<Longrightarrow> \<not> P r \<Longrightarrow> r \<in> set (update_where P f rows)"
  by (auto simp: mem_update_where intro!: bexI [of _ r])

lemma filtered_row:
  "hook_inv s \<Longrightarrow> r \<in> set (deliveries s) \<Longrightarrow> dl_delivery_id r \<in> dl_delivery_id ` set (filter P (deliveries s)) \<Longrightarrow>
   r \<in> set (filter P (deliveries s))"
  by (auto simp: hook_inv_def dest: distinct_row)

lemma terminal_row_stays:
  assumes inv: "hook_inv s" and step: "hook_step lib red s t" and r: "r \<in> set (deliveries s)" "terminal r"
    and there: "dl_delivery_id r \<in> dl_delivery_id ` set (deliveries t)"
  shows "r \<in> set (deliveries t)"
proof -
  have "row_ok r" using inv r(1) by (simp add: hook_inv_def)
  then have idle: "\<not> waiting r" "\<not> leased r" "dl_lease_token r = None"
    using r(2) by (auto simp: row_ok_def terminal_def waiting_def leased_def)
  from step show ?thesis
  proof cases
    case (delete i result db)
    obtain P where "t_webhook_deliveries db = filter P (deliveries s)" using deliveries_delete [OF delete(2)] by blast
    then have eq: "deliveries t = filter P (deliveries s)" using delete(1) by simp
    show ?thesis unfolding eq by (rule filtered_row [OF inv r(1) there [unfolded eq]])
  next
    case (prune cutoff)
    obtain P where "t_webhook_deliveries (prune_events cutoff (hs_db s)) = filter P (deliveries s)" using deliveries_prune by blast
    then have eq: "deliveries t = filter P (deliveries s)" using prune by simp
    show ?thesis unfolding eq by (rule filtered_row [OF inv r(1) there [unfolded eq]])
  next
    case (emit newIDs newID now eventType subject details incident destination i db)
    obtain n bodies where "t_webhook_deliveries db = deliveries s
        @ map (\<lambda>k. new_delivery (newIDs k) newID now (fst (bodies k)) (snd (bodies k))) [0..<n]"
      by (rule deliveries_emit [OF emit(3)])
    then show ?thesis using emit(1) r(1) by simp
  next
    case (claim now lease item db)
    show ?thesis
    proof (cases item)
      case None
      then have "db = hs_db s" using claim(3) claim_None by blast
      then show ?thesis using claim(1) r(1) by simp
    next
      case (Some it)
      obtain x d where "x \<in> set (deliveries s)" "claimable now (hs_db s) x" "destination_of (hs_db s) x = Some d"
        "it = claim_item lease x d" and db: "db = lease_delivery now lease (dl_delivery_id x) (hs_db s)"
        by (rule claim_Some [OF claim(3) [unfolded Some]])
      then show ?thesis using claim(1) r(1) idle by (simp add: db lease_delivery_def kept_update_where)
    qed
  next
    case (deliver item run q db)
    obtain status code excerpt delay where "db = hook_finish (dr_now run) item status code excerpt delay (hs_db s)"
      by (rule deliver_outcome [OF deliver(3)])
    then show ?thesis using deliver(1) r(1) idle by (simp add: hook_finish_def kept_update_where)
  next
    case (restart now)
    then show ?thesis using r(1) idle by (simp add: release_leases_def kept_update_where leased_def)
  next
    case (restart_after_send item run q db now)
    then show ?thesis using r(1) idle by (simp add: release_leases_def kept_update_where leased_def)
  qed (use r in simp_all)
qed

text \<open>
  C12: the deliveries are always well formed. One that waits or is leased has attempts left and no
  end; a completed one has one to eight attempts and its end; exactly the leased ones hold a
  lease. A completed delivery never changes again, until its destination or event is deleted.
\<close>

theorem webhook_deliveries_well_formed:
  assumes "hook_start s0" and "(hook_step lib red)\<^sup>*\<^sup>* s0 s"
  shows "(\<forall>r\<in>set (deliveries s). row_ok r)
    \<and> (\<forall>t r. hook_step lib red s t \<and> r \<in> set (deliveries s) \<and> terminal r
         \<and> dl_delivery_id r \<in> dl_delivery_id ` set (deliveries t) \<longrightarrow> r \<in> set (deliveries t))"
  using hooks.reachable_inv [OF assms] terminal_row_stays [of s lib red] by (auto simp: hook_inv_def)

subsection \<open>The dispatcher gets everything done\<close>

fun hook_turns :: "webhook_lib \<Rightarrow> redactor \<Rightarrow> hook_turn list \<Rightarrow> webhook_db \<Rightarrow> webhook_db" where
  "hook_turns lib red [] db = db"
| "hook_turns lib red (t # ts) db = hook_turns lib red ts (snd (hook_turn_step lib red t db))"

text \<open>Turns a day apart or more, the first not before \<open>due\<close>.\<close>

fun spaced :: "int \<Rightarrow> hook_turn list \<Rightarrow> bool" where
  "spaced due [] = True"
| "spaced due (t # ts) = (due \<le> ht_now t \<and> ht_now t \<le> dr_now (ht_run t) \<and> spaced (dr_now (ht_run t) + 86400000) ts)"

definition enabled_row :: "webhook_db \<Rightarrow> delivery_row \<Rightarrow> bool" where
  "enabled_row db r \<longleftrightarrow> (case destination_of db r of None \<Rightarrow> False | Some d \<Rightarrow> wd_enabled d)"

definition attempts_left :: "webhook_db \<Rightarrow> delivery_row \<Rightarrow> nat" where
  "attempts_left db r = (if waiting r \<and> enabled_row db r then 8 - dl_attempt_count r else 0)"

definition hook_work :: "webhook_db \<Rightarrow> nat" where
  "hook_work db = sum_list (map (attempts_left db) (t_webhook_deliveries db))"

definition idle_rows :: "int \<Rightarrow> webhook_db \<Rightarrow> bool" where
  "idle_rows due db \<longleftrightarrow> distinct (map dl_delivery_id (t_webhook_deliveries db))
     \<and> (\<forall>r\<in>set (t_webhook_deliveries db). row_ok r \<and> \<not> leased r \<and> (waiting r \<longrightarrow> dl_next_attempt_at_ms r \<le> due))"

lemma claimable_enabled: "claimable now db r \<longleftrightarrow> waiting r \<and> dl_next_attempt_at_ms r \<le> now \<and> enabled_row db r"
  by (simp add: claimable_def enabled_row_def)

lemma claim_Nothing:
  assumes "hook_claim now lease db = (None, db')" and "r \<in> set (t_webhook_deliveries db)"
  shows "\<not> claimable now db r"
proof -
  have "sort_key dl_next_attempt_at_ms (filter (claimable now db) (t_webhook_deliveries db)) = []"
    using assms(1) by (auto simp: hook_claim_def split: list.splits)
  then have "set (filter (claimable now db) (t_webhook_deliveries db)) = {}" by (metis list.set(1) set_sort)
  then show ?thesis using assms(2) by (auto simp: filter_empty_conv)
qed

text \<open>A turn that finds a delivery settles that one and no other.\<close>

lemma turn_settles:
  assumes idle: "idle_rows due db" and some: "hook_claim (ht_now t) (ht_lease t) db = (Some item, db1)"
  obtains r status code excerpt delay where "r \<in> set (t_webhook_deliveries db)" "claimable (ht_now t) db r" "delay \<le> 86400"
    "snd (hook_turn_step lib red t db) = db\<lparr>t_webhook_deliveries := map (\<lambda>x. if x = r then
        finish_row (dr_now (ht_run t)) (Suc (dl_attempt_count r)) status code excerpt delay (lease_row (ht_now t) (ht_lease t) r)
      else x) (t_webhook_deliveries db)\<rparr>"
proof -
  obtain r d where r: "r \<in> set (t_webhook_deliveries db)" "claimable (ht_now t) db r"
    and item: "item = claim_item (ht_lease t) r d" and db1: "db1 = lease_delivery (ht_now t) (ht_lease t) (dl_delivery_id r) db"
    by (rule claim_Some [OF some])
  obtain q db2 where q: "deliver lib red (ht_run t) item db1 = (q, db2)" by fastforce
  obtain status code excerpt delay where db2: "db2 = hook_finish (dr_now (ht_run t)) item status code excerpt delay db1"
    and delay: "delay \<le> 86400" by (rule deliver_outcome [OF q])
  have same: "dl_delivery_id x = dl_delivery_id r \<longleftrightarrow> x = r" if "x \<in> set (t_webhook_deliveries db)" for x
    using idle that r(1) by (auto simp: idle_rows_def dest: distinct_row)
  have "waiting r" using r(2) by (simp add: claimable_def)
  then have "t_webhook_deliveries db2 = map (\<lambda>x. if x = r then
        finish_row (dr_now (ht_run t)) (Suc (dl_attempt_count r)) status code excerpt delay (lease_row (ht_now t) (ht_lease t) r)
      else x) (t_webhook_deliveries db)"
    by (auto simp: db2 db1 item hook_finish_def lease_delivery_def update_where_def claim_item_def same comp_def)
  moreover have "db2 = db\<lparr>t_webhook_deliveries := t_webhook_deliveries db2\<rparr>"
    by (simp add: db2 db1 hook_finish_def lease_delivery_def)
  ultimately show ?thesis using that [OF r delay] q some by (simp add: hook_turn_step_def)
qed

lemma sum_list_decreases:
  fixes g :: "'a \<Rightarrow> nat"
  assumes "x \<in> set xs" "g (u x) < g x" "\<And>y. g (u y) \<le> g y"
  shows "sum_list (map g (map u xs)) < sum_list (map g xs)"
  using assms(1)
proof (induction xs)
  case (Cons y ys)
  have "sum_list (map g (map u ys)) \<le> sum_list (map g ys)"
    using assms(3) by (simp add: sum_list_mono comp_def)
  then show ?case using Cons assms(2) assms(3) [of y] by (auto intro: add_less_le_mono add_le_less_mono)
qed simp

lemma finish_row_next:
  "delay \<le> 86400 \<Longrightarrow> dl_next_attempt_at_ms (finish_row now (Suc n) status code excerpt delay r) \<le> now + 86400000"
proof -
  have "\<forall>d\<in>set retrySeconds. d \<le> 86400" by (simp add: retrySeconds_def)
  then have "retrySeconds ! k \<le> 86400" if "k < length retrySeconds" for k using that nth_mem by blast
  then show "delay \<le> 86400 \<Longrightarrow> ?thesis" by (auto simp: finish_row_def Let_def)
qed

lemma turn_progress:
  assumes idle: "idle_rows due db" and due: "due \<le> ht_now t" "ht_now t \<le> dr_now (ht_run t)"
  shows "idle_rows (dr_now (ht_run t) + 86400000) (snd (hook_turn_step lib red t db))
    \<and> t_webhook_destinations (snd (hook_turn_step lib red t db)) = t_webhook_destinations db
    \<and> (hook_work (snd (hook_turn_step lib red t db)) < hook_work db \<or> hook_work (snd (hook_turn_step lib red t db)) = 0)"
proof (cases "hook_claim (ht_now t) (ht_lease t) db")
  case (Pair found db1)
  show ?thesis
  proof (cases found)
    case None
    then have db: "snd (hook_turn_step lib red t db) = db"
      using Pair claim_None by (fastforce simp: hook_turn_step_def)
    have "attempts_left db r = 0" if r: "r \<in> set (t_webhook_deliveries db)" for r
    proof -
      have "waiting r \<Longrightarrow> dl_next_attempt_at_ms r \<le> ht_now t" using idle r due by (force simp: idle_rows_def)
      then have "\<not> (waiting r \<and> enabled_row db r)"
        using claim_Nothing [OF Pair [unfolded None] r] by (auto simp: claimable_enabled)
      then show ?thesis by (auto simp: attempts_left_def)
    qed
    then have "hook_work db = 0" by (simp add: hook_work_def)
    then show ?thesis using idle due by (auto simp: db idle_rows_def)
  next
    case (Some item)
    obtain r status code excerpt delay where r: "r \<in> set (t_webhook_deliveries db)" "claimable (ht_now t) db r" "delay \<le> 86400"
      and db: "snd (hook_turn_step lib red t db) = db\<lparr>t_webhook_deliveries := map (\<lambda>x. if x = r then
          finish_row (dr_now (ht_run t)) (Suc (dl_attempt_count r)) status code excerpt delay (lease_row (ht_now t) (ht_lease t) r)
        else x) (t_webhook_deliveries db)\<rparr>"
      by (rule turn_settles [OF idle Pair [unfolded Some]])
    let ?new = "finish_row (dr_now (ht_run t)) (Suc (dl_attempt_count r)) status code excerpt delay (lease_row (ht_now t) (ht_lease t) r)"
    let ?db = "db\<lparr>t_webhook_deliveries := map (\<lambda>x. if x = r then ?new else x) (t_webhook_deliveries db)\<rparr>"
    have ok: "row_ok r" "waiting r" "enabled_row db r" using idle r by (auto simp: idle_rows_def claimable_enabled)
    then have n: "dl_attempt_count r < 8" by (auto simp: row_ok_def waiting_def terminal_def split: if_splits)
    have "row_ok ?new" "\<not> leased ?new" "dl_next_attempt_at_ms ?new \<le> dr_now (ht_run t) + 86400000"
      using row_ok_updates(3) [OF n] finish_row_next [OF r(3)] by simp_all
    moreover have "map dl_delivery_id (t_webhook_deliveries ?db) = map dl_delivery_id (t_webhook_deliveries db)"
      by (auto intro!: map_cong)
    ultimately have rows: "idle_rows (dr_now (ht_run t) + 86400000) ?db"
      using idle due unfolding idle_rows_def by (auto simp del: map_map)
    have "destination_of ?db x = destination_of db x" for x by (simp add: destination_of_def)
    then have left: "attempts_left ?db x = attempts_left db x" for x by (simp add: attempts_left_def enabled_row_def)
    then have "attempts_left ?db = attempts_left db" by (rule ext)
    then have work: "hook_work ?db = sum_list (map (attempts_left db) (map (\<lambda>x. if x = r then ?new else x) (t_webhook_deliveries db)))"
      by (simp add: hook_work_def)
    have new: "attempts_left db ?new < attempts_left db r" using ok n by (auto simp: attempts_left_def)
    have "hook_work ?db < hook_work db"
      unfolding work unfolding hook_work_def by (rule sum_list_decreases [OF r(1)]) (use new in auto)
    then show ?thesis using rows by (simp add: db)
  qed
qed

lemma turns_settle:
  "idle_rows due db \<Longrightarrow> spaced due ts \<Longrightarrow> hook_work db \<le> length ts \<Longrightarrow>
   (\<exists>due'. idle_rows due' (hook_turns lib red ts db))
   \<and> t_webhook_destinations (hook_turns lib red ts db) = t_webhook_destinations db
   \<and> hook_work (hook_turns lib red ts db) = 0"
proof (induction ts arbitrary: due db)
  case (Cons t ts)
  let ?db = "snd (hook_turn_step lib red t db)"
  have progress: "idle_rows (dr_now (ht_run t) + 86400000) ?db" "t_webhook_destinations ?db = t_webhook_destinations db"
    "hook_work ?db < hook_work db \<or> hook_work ?db = 0"
    using turn_progress [OF Cons.prems(1), of t lib red] Cons.prems(2) by simp_all
  then have "hook_work ?db \<le> length ts" using Cons.prems(3) by auto
  then show ?case using Cons.IH [OF progress(1)] Cons.prems(2) progress(2) by simp
qed auto

text \<open>
  C10: the dispatcher gets everything done. From a state without leases, after enough turns spaced
  by a day (the longest delay), one for each attempt left, every delivery to an enabled
  destination has succeeded or finally failed, whatever the resolver and the receivers answer.
\<close>

theorem dispatcher_settles:
  assumes "idle_rows due db" and "spaced due ts" and "hook_work db \<le> length ts"
  shows "\<forall>r\<in>set (t_webhook_deliveries (hook_turns lib red ts db)).
    case find (\<lambda>d. wd_destination_id d = dl_destination_id r) (t_webhook_destinations db) of
      None \<Rightarrow> True
    | Some d \<Rightarrow> wd_enabled d \<longrightarrow> terminal r"
proof
  fix r
  let ?db = "hook_turns lib red ts db"
  assume r: "r \<in> set (t_webhook_deliveries ?db)"
  have settled: "hook_work ?db = 0" "t_webhook_destinations ?db = t_webhook_destinations db" "row_ok r" "\<not> leased r"
    using turns_settle [OF assms, of lib red] r by (auto simp: idle_rows_def)
  have "attempts_left ?db r = 0" using settled(1) r by (auto simp: hook_work_def)
  then have "\<not> (waiting r \<and> enabled_row ?db r)"
    using settled(3) by (auto simp: attempts_left_def row_ok_def waiting_def terminal_def)
  then show "case find (\<lambda>d. wd_destination_id d = dl_destination_id r) (t_webhook_destinations db) of
      None \<Rightarrow> True | Some d \<Rightarrow> wd_enabled d \<longrightarrow> terminal r"
    using settled(2-4) by (auto simp: enabled_row_def destination_of_def row_ok_def split: option.splits if_splits)
qed

subsection \<open>An example\<close>

definition ex_hook_lib :: webhook_lib where
  "ex_hook_lib = \<lparr>wl_url = (\<lambda>_. Some \<lparr>gu_Scheme = ''https'', gu_User = False, gu_Hostname = ''hooks.example'', gu_Port = [],
       gu_Path = ''/'', gu_RawQuery = [], gu_Fragment = []\<rparr>),
     wl_addr = (\<lambda>_. None), wl_seal = (\<lambda>_. Inr), wl_open = Some, wl_hmac_hex = (\<lambda>_ _. []), wl_json_float = (\<lambda>_. ''0''),
     wl_print = (\<lambda>_. []), wl_iso = (\<lambda>_. []), wl_rfc3339 = (\<lambda>_. [])\<rparr>"

definition ex_hook_db :: webhook_db where
  "ex_hook_db = \<lparr>t_webhook_destinations = [\<lparr>wd_destination_id = ''d'', wd_display_name = ''ops'', wd_kind = ''generic'',
       wd_enabled = True, wd_encrypted_url = ''https://hooks.example/'', wd_encrypted_signing_secret = None, wd_created_at_ms = 0\<rparr>],
     t_webhook_events = [], t_webhook_deliveries = []\<rparr>"

definition ex_hook_run :: "int \<Rightarrow> int \<Rightarrow> delivery_run" where
  "ex_hook_run now status = \<lparr>dr_addresses = Some [Addr4 (addr4 93 184 216 34)], dr_response = Some (status, [], []), dr_now = now\<rparr>"

definition ex_hook_start :: hook_state where
  "ex_hook_start = \<lparr>hs_db = ex_hook_db, hs_item = None, hs_log = [], hs_restarts = 0\<rparr>"

definition ex_hook_ids :: "nat \<Rightarrow> string" where "ex_hook_ids k = replicate k (CHR ''n'')"

definition ex_hook_row :: delivery_row where
  "ex_hook_row = new_delivery [] ''e'' 5 ''d'' ''{}''"

lemma ex_public: "publicAddress (Addr4 (addr4 93 184 216 34))"
  by (simp add: public4 outside_def reserved4_list addr4_def)

lemma ex_hook_sent:
  "\<exists>s. (hook_step ex_hook_lib ex_red)\<^sup>*\<^sup>* ex_hook_start s \<and> sent [] s = 1
     \<and> (\<exists>r\<in>set (deliveries s). dl_delivery_id r = [] \<and> dl_state r = ''SUCCEEDED'')"
proof -
  obtain i db1 where emit: "EmitTx ex_hook_lib ex_red ''e'' ex_hook_ids 5 ''codex-broker.test'' ''s'' [] [] [] ex_hook_db = Inr (i, db1)"
    by (simp add: EmitTx_def emit_targets_def Let_def)
  obtain body where rows: "t_webhook_deliveries db1 = [new_delivery [] ''e'' 5 ''d'' body]"
    and dests: "t_webhook_destinations db1 = t_webhook_destinations ex_hook_db"
    using emit by (auto simp: EmitTx_def emit_targets_def Let_def ex_hook_db_def ex_hook_ids_def)
  obtain item db2 where claim: "hook_claim 6 ''l'' db1 = (item, db2)" by fastforce
  have db2: "db2 = lease_delivery 6 ''l'' [] db1"
    and item: "item = Some (claim_item ''l'' (new_delivery [] ''e'' 5 ''d'' body) (hd (t_webhook_destinations ex_hook_db)))"
    using claim by (simp_all add: hook_claim_def rows dests claimable_def destination_of_def ex_hook_db_def waiting_def new_delivery_def)
  let ?item = "the item"
  let ?run = "ex_hook_run 7 204"
  obtain q db3 where q: "deliver ex_hook_lib ex_red ?run ?item db2 = (q, db3)" by fastforce
  have "q \<noteq> None" and db3: "\<exists>code excerpt. db3 = hook_finish 7 ?item 204 [] excerpt 0 db2"
    using q ex_public
    by (auto simp: deliver_def item claim_item_def ex_hook_lib_def ex_hook_run_def finish_answered_def Let_def ex_hook_db_def)
  let ?s1 = "ex_hook_start\<lparr>hs_db := db1\<rparr>"
  let ?s2 = "?s1\<lparr>hs_db := db2, hs_item := item\<rparr>"
  let ?s3 = "?s2\<lparr>hs_db := db3, hs_item := None, hs_log := hs_log ?s2 @ log_of ?item q\<rparr>"
  have "fresh_ids ex_hook_ids ex_hook_start"
    by (auto simp: fresh_ids_def used_ids_def ex_hook_start_def ex_hook_db_def inj_def ex_hook_ids_def)
  then have "hook_step ex_hook_lib ex_red ex_hook_start ?s1"
    by (rule hook_step.emit) (use emit in \<open>simp add: ex_hook_start_def\<close>)
  moreover have "hook_step ex_hook_lib ex_red ?s1 ?s2"
    by (rule hook_step.claim) (use claim in \<open>simp_all add: ex_hook_start_def\<close>)
  moreover have "hook_step ex_hook_lib ex_red ?s2 ?s3"
    by (rule hook_step.deliver) (use q item in simp_all)
  ultimately have steps: "(hook_step ex_hook_lib ex_red)\<^sup>*\<^sup>* ex_hook_start ?s3" by (meson rtranclp.rtrancl_into_rtrancl rtranclp.rtrancl_refl)
  have "sent [] ?s3 = 1" using \<open>q \<noteq> None\<close> by (auto simp: sent_def log_of_def ex_hook_start_def item claim_item_def new_delivery_def)
  moreover have "\<exists>r\<in>set (deliveries ?s3). dl_delivery_id r = [] \<and> dl_state r = ''SUCCEEDED''"
    using db3 by (auto simp: hook_finish_def db2 lease_delivery_def rows update_where_def item claim_item_def waiting_def new_delivery_def
        lease_row_def finish_row_def Let_def)
  ultimately show ?thesis using steps by blast
qed

lemma ex_hook_starts: "hook_start ex_hook_start"
  by (simp add: hook_start_def ex_hook_start_def ex_hook_db_def)

theorem webhook_requests_bounded_witness:
  "\<exists>s. (hook_step ex_hook_lib ex_red)\<^sup>*\<^sup>* ex_hook_start s \<and> sent [] s = 1 \<and> sent [] s \<le> 8 + hs_restarts s"
  using ex_hook_sent webhook_requests_bounded [OF ex_hook_starts] by blast

theorem webhook_deliveries_well_formed_witness:
  "\<exists>s r. (hook_step ex_hook_lib ex_red)\<^sup>*\<^sup>* ex_hook_start s \<and> r \<in> set (deliveries s) \<and> dl_state r = ''SUCCEEDED'' \<and> row_ok r"
  using ex_hook_sent webhook_deliveries_well_formed [OF ex_hook_starts] by blast

definition ex_hook_turns :: "hook_turn list" where
  "ex_hook_turns = map (\<lambda>k. \<lparr>ht_now = k * 100000000, ht_lease = ''l'', ht_run = ex_hook_run (k * 100000000) 500\<rparr>) [1, 2, 3, 4, 5, 6, 7, 8]"

theorem dispatcher_settles_witness:
  "hook_work (ex_hook_db\<lparr>t_webhook_deliveries := [ex_hook_row]\<rparr>) = 8
   \<and> \<not> (\<exists>r\<in>set (t_webhook_deliveries (hook_turns ex_hook_lib ex_red ex_hook_turns (ex_hook_db\<lparr>t_webhook_deliveries := [ex_hook_row]\<rparr>))).
        dl_destination_id r = ''d'' \<and> \<not> terminal r)"
proof -
  let ?db = "ex_hook_db\<lparr>t_webhook_deliveries := [ex_hook_row]\<rparr>"
  have work: "hook_work ?db = 8"
    by (simp add: hook_work_def attempts_left_def enabled_row_def destination_of_def ex_hook_db_def ex_hook_row_def new_delivery_def waiting_def)
  have "idle_rows 5 ?db" by (simp add: idle_rows_def ex_hook_row_def) (simp add: new_delivery_def)
  moreover have "spaced 5 ex_hook_turns" by (simp add: ex_hook_turns_def ex_hook_run_def)
  moreover have "hook_work ?db \<le> length ex_hook_turns" using work by (simp add: ex_hook_turns_def)
  ultimately have "\<forall>r\<in>set (t_webhook_deliveries (hook_turns ex_hook_lib ex_red ex_hook_turns ?db)).
      case find (\<lambda>d. wd_destination_id d = dl_destination_id r) (t_webhook_destinations ?db) of
        None \<Rightarrow> True | Some d \<Rightarrow> wd_enabled d \<longrightarrow> terminal r"
    by (rule dispatcher_settles)
  then show ?thesis using work by (auto simp: ex_hook_db_def)
qed

end
