(* ===== verification/Accounts.thy ===== *)
theory Accounts
  imports Usage_Jobs Client_Keys
begin

text \<open>
  The operations of internal/broker/service.go on accounts: creating, labelling, enabling and
  deleting them, what a restart does to unfinished work (\<open>Reconcile\<close>), whether public enrollment
  is open, and the pruning of old rows (\<open>maintenanceLoop\<close>).

  New identifiers and the clock are arguments, as is what stopping an account's runtime returned.
  \<open>strings.ToLower\<close> (\<open>lower\<close>) is an argument because it folds all of Unicode; SQLite's \<open>lower\<close> folds
  ASCII only.
\<close>

subsection \<open>Labels\<close>

definition sql_lower :: "string \<Rightarrow> string" where "sql_lower s = map lower_char s"

definition labels_invalid :: go_error where
  "labels_invalid = NewError ''ACCOUNT_LABELS_INVALID'' ''Use at most 20 labels of 1-40 characters'' 422"

text \<open>The last spelling of a label counts.\<close>

definition seen_labels :: "(string \<Rightarrow> string) \<Rightarrow> string list \<Rightarrow> (string \<times> string) list" where
  "seen_labels lower values =
     fold (\<lambda>v m. let v = squeeze_spaces v in if v = [] then m else AList.update (lower v) v m) values []"

definition cleanLabels :: "(string \<Rightarrow> string) \<Rightarrow> string list \<Rightarrow> string list" where
  "cleanLabels lower values = sort_slice (<) (map snd (seen_labels lower values))"

definition label_named :: "string \<Rightarrow> broker_db \<Rightarrow> string option" where
  "label_named name db = map_option fst (find (\<lambda>(i, n). sql_lower n = sql_lower name) (t_labels db))"

definition add_account_label :: "string \<Rightarrow> string \<Rightarrow> broker_db \<Rightarrow> go_error + broker_db" where
  "add_account_label account label db =
     (if (account, label) \<in> set (t_account_labels db) then Inl constraint_failed
      else Inr (db\<lparr>t_account_labels := t_account_labels db @ [(account, label)]\<rparr>))"

text \<open>The label of that name, with a new one for a name not yet there.\<close>

definition attach_label :: "string \<Rightarrow> string \<Rightarrow> string \<Rightarrow> broker_db \<Rightarrow> go_error + broker_db" where
  "attach_label account newID label db =
     (case label_named label db of
        Some i \<Rightarrow> add_account_label account i db
      | None \<Rightarrow> add_account_label account newID (db\<lparr>t_labels := t_labels db @ [(newID, label)]\<rparr>))"

text \<open>The labels of a new account; only existing ones where the account enrolls itself.\<close>

fun label_account :: "bool \<Rightarrow> string \<Rightarrow> (string \<times> string) list \<Rightarrow> broker_db \<Rightarrow> go_error + broker_db" where
  "label_account existingOnly account [] db = Inr db"
| "label_account existingOnly account ((newID, label) # rest) db =
     (if existingOnly
      then label_account existingOnly account rest
             (case label_named label db of
                Some i \<Rightarrow> if (account, i) \<in> set (t_account_labels db) then db
                          else db\<lparr>t_account_labels := t_account_labels db @ [(account, i)]\<rparr>
              | None \<Rightarrow> db)
      else case attach_label account newID label db of
             Inl e \<Rightarrow> Inl e
           | Inr db \<Rightarrow> label_account existingOnly account rest db)"

subsection \<open>Creating an account\<close>

definition login_method :: "string \<Rightarrow> go_error + string" where
  "login_method method =
     (if method = [] then Inr ''CHATGPT_DEVICE_CODE''
      else if method = ''MANUAL_TOKENS''
      then Inl (NewError ''LOGIN_METHOD_UNAVAILABLE'' ''Manual token import is retired; use device code or browser sign-in'' 409)
      else if method \<noteq> ''CHATGPT_DEVICE_CODE'' \<and> method \<noteq> ''CHATGPT_BROWSER''
      then Inl (NewError ''VALIDATION_ERROR'' ''The login method is invalid'' 422)
      else Inr method)"

definition name_exists :: go_error where
  "name_exists = NewError ''ACCOUNT_NAME_EXISTS'' ''An active account already uses that name'' 409"

definition empty_usage :: "int \<Rightarrow> usage_row" where
  "empty_usage now =
     \<lparr>uc_snapshot_id = None, uc_selected_limit_id = None, uc_short_raw_slot = None, uc_short_used_percent_raw = None,
      uc_short_duration_minutes = None, uc_short_resets_at_s = None, uc_short_anomaly = False, uc_weekly_raw_slot = None,
      uc_weekly_used_percent_raw = None, uc_weekly_duration_minutes = None, uc_weekly_resets_at_s = None,
      uc_weekly_anomaly = False, uc_complete_read_at_ms = None, uc_last_attempt_at_ms = Some now, uc_stale = True,
      uc_last_error_code = None, uc_last_error_summary = None, uc_source = ''NONE'', uc_state_version = 0\<rparr>"

definition new_state :: state_row where
  "new_state = \<lparr>as_auth_state = ''ENROLLING'', as_worker_state = ''STOPPED'', as_overall_state = ''STARTING'',
     as_usage_state = ''UNKNOWN'', as_upstream_email = None, as_upstream_plan = None, as_last_auth_verified_at_ms = None,
     as_last_error_code = None, as_last_error_summary = None, as_last_routed_at_ms = None, as_state_version = 1\<rparr>"

definition active_name :: "string \<Rightarrow> account_row \<Rightarrow> bool" where
  "active_name name a \<longleftrightarrow> ar_deleted_at_ms a = None \<and> sql_lower (ar_display_name a) = sql_lower name"

definition reserved_name :: "string \<Rightarrow> broker_db \<Rightarrow> bool" where
  "reserved_name name db \<longleftrightarrow> list_ex (\<lambda>e. en_state e = ''ACTIVE''
     \<and> map_option sql_lower (en_observed_email e) = Some (sql_lower name)) (t_public_enrollments db)"

definition insert_account :: "account_row \<Rightarrow> int \<Rightarrow> broker_db \<Rightarrow> go_error + broker_db" where
  "insert_account row now db =
     (if list_ex (\<lambda>a. ar_account_id a = ar_account_id row \<or> ar_public_token a = ar_public_token row
                      \<or> active_name (ar_display_name row) a) (t_accounts db)
      then Inl name_exists
      else Inr (db\<lparr>t_accounts := t_accounts db @ [row],
                   t_account_state := (t_account_state db)(ar_account_id row \<mapsto> new_state),
                   t_usage_current := (t_usage_current db)(ar_account_id row \<mapsto> empty_usage now),
                   t_account_profiles := (t_account_profiles db)(ar_account_id row \<mapsto> empty_profile)\<rparr>))"

definition create_transaction :: "account_row \<Rightarrow> (string \<times> string) list \<Rightarrow> bool \<Rightarrow> int \<Rightarrow> broker_db \<Rightarrow> go_error + unit \<times> broker_db" where
  "create_transaction row labels existingOnly now db =
     (if reserved_name (ar_display_name row) db then Inl name_exists
      else case insert_account row now db of
             Inl e \<Rightarrow> Inl e
           | Inr db \<Rightarrow> map_sum id (Pair ()) (label_account existingOnly (ar_account_id row) labels db))"

record new_account =
  na_id :: string
  na_token :: string
  na_now :: int
  na_label_ids :: "nat \<Rightarrow> string"

definition createAccount :: "(string \<Rightarrow> string) \<Rightarrow> new_account \<Rightarrow> string \<Rightarrow> string list \<Rightarrow> string \<Rightarrow> string \<Rightarrow> bool
    \<Rightarrow> broker \<Rightarrow> (go_error + account_row) \<times> broker" where
  "createAccount lower new displayName labels workspace method existingOnly b =
     (let name = squeeze_spaces displayName; labels = cleanLabels lower labels in
      if RuneCountInString name < 1 \<or> 80 < RuneCountInString name
      then (Inl (NewError ''ACCOUNT_NAME_INVALID'' ''Enter an account name of 1-80 characters'' 422), b)
      else if 20 < length labels \<or> list_ex (\<lambda>l. 40 < RuneCountInString l) labels then (Inl labels_invalid, b)
      else
        (case login_method method of
           Inl e \<Rightarrow> (Inl e, b)
         | Inr method \<Rightarrow>
             (let row = \<lparr>ar_account_id = na_id new, ar_public_token = ''acct_'' @ na_token new, ar_display_name = name,
                         ar_workspace_constraint = (if workspace = [] then None else Some workspace), ar_enabled = False,
                         ar_created_at_ms = na_now new, ar_deleted_at_ms = None, ar_lifecycle_state = ''ENROLLING'',
                         ar_preferred_login_method = method, ar_last_successful_login_method = None\<rparr>
              in case Write_b (create_transaction row (map (\<lambda>(k, l). (na_label_ids new k, l)) (enumerate 0 labels))
                                 existingOnly (na_now new)) b of
                   (Inl e, b) \<Rightarrow> (Inl e, b)
                 | (Inr _, b) \<Rightarrow>
                     (Inr row, publish ''account.updated'' [(''resource_id'', AStr (ar_public_token row)), (''state'', AStr ''STARTING'')] b))))"

definition CreateAccount :: "(string \<Rightarrow> string) \<Rightarrow> new_account \<Rightarrow> string \<Rightarrow> string list \<Rightarrow> string \<Rightarrow> string
    \<Rightarrow> broker \<Rightarrow> (go_error + account_row) \<times> broker" where
  "CreateAccount lower new displayName labels workspace method = createAccount lower new displayName labels workspace method False"

subsection \<open>Changing an account\<close>

text \<open>A label of more than 40 characters rolls the transaction back.\<close>

fun set_labels :: "string \<Rightarrow> (string \<times> string) list \<Rightarrow> broker_db \<Rightarrow> go_error + unit \<times> broker_db" where
  "set_labels account [] db = Inr ((), db)"
| "set_labels account ((newID, label) # rest) db =
     (if 40 < RuneCountInString label then Inl labels_invalid
      else case attach_label account newID label db of
             Inl e \<Rightarrow> Inl e
           | Inr db \<Rightarrow> set_labels account rest db)"

definition clear_labels :: "string \<Rightarrow> broker_db \<Rightarrow> broker_db" where
  "clear_labels account db = db\<lparr>t_account_labels := filter (\<lambda>(a, _). a \<noteq> account) (t_account_labels db)\<rparr>"

definition SetLabels :: "(string \<Rightarrow> string) \<Rightarrow> (nat \<Rightarrow> string) \<Rightarrow> string \<Rightarrow> string list \<Rightarrow> broker \<Rightarrow> (go_error + unit) \<times> broker" where
  "SetLabels lower newIDs public values b =
     (case service_account (br_db b) public of
        Inl e \<Rightarrow> (Inl e, b)
      | Inr (a, s) \<Rightarrow>
          (let labels = cleanLabels lower values in
           if 20 < length labels then (Inl labels_invalid, b)
           else case Write_b (\<lambda>db. set_labels (ar_account_id a) (map (\<lambda>(k, l). (newIDs k, l)) (enumerate 0 labels))
                                     (clear_labels (ar_account_id a) db)) b of
                  (Inl e, b) \<Rightarrow> (Inl e, b)
                | (Inr _, b) \<Rightarrow>
                    (Inr (), publish ''account.updated'' [(''resource_id'', AStr public), (''labels'', AStrs labels)] b)))"

definition on_account :: "string \<Rightarrow> (account_row \<Rightarrow> account_row) \<Rightarrow> broker_db \<Rightarrow> broker_db" where
  "on_account i f db = db\<lparr>t_accounts := update_where (\<lambda>a. ar_account_id a = i) f (t_accounts db)\<rparr>"

definition SetEnabled :: "string \<Rightarrow> bool \<Rightarrow> go_error option \<Rightarrow> broker \<Rightarrow> (go_error + unit) \<times> broker" where
  "SetEnabled public enabled stopped b =
     (case service_account (br_db b) public of
        Inl e \<Rightarrow> (Inl e, b)
      | Inr (a, s) \<Rightarrow>
          (let b = on_db (\<lambda>db. on_state (\<lambda>s. bump_version (s\<lparr>as_overall_state := (if enabled then ''STARTING'' else ''DISABLED'')\<rparr>))
                 (ar_account_id a) (on_account (ar_account_id a) (\<lambda>a. a\<lparr>ar_enabled := enabled\<rparr>) db)) b
           in case (if enabled then None else stopped) of
                Some e \<Rightarrow> (Inl e, b)
              | None \<Rightarrow> (Inr (), publish ''account.updated'' [(''resource_id'', AStr public), (''enabled'', ABool enabled)] b)))"

definition mark_deleted :: "int \<Rightarrow> account_row \<Rightarrow> account_row" where
  "mark_deleted now a = a\<lparr>ar_enabled := False, ar_lifecycle_state := ''DELETED'', ar_deleted_at_ms := Some now\<rparr>"

definition delete_account :: "int \<Rightarrow> string \<Rightarrow> broker_db \<Rightarrow> broker_db" where
  "delete_account now account db =
     (let db = on_account account (mark_deleted now) db;
          db = db\<lparr>t_credential_bundles := filter (\<lambda>row. bu_account_id row \<noteq> account) (t_credential_bundles db)\<rparr>
      in db\<lparr>t_incidents := update_where (\<lambda>r. ic_scope_key r = account \<and> ic_state r = ''OPEN'')
              (\<lambda>r. r\<lparr>ic_state := ''CLOSED'', ic_resolved_at_ms := Some now, ic_resolution_reason := Some ''administratively_closed''\<rparr>)
              (t_incidents db)\<rparr>)"

definition DeleteAccount :: "int \<Rightarrow> string \<Rightarrow> string \<Rightarrow> go_error option \<Rightarrow> broker \<Rightarrow> (go_error + unit) \<times> broker" where
  "DeleteAccount now public confirmation stopped b =
     (case service_account (br_db b) public of
        Inl e \<Rightarrow> (Inl e, b)
      | Inr (a, s) \<Rightarrow>
          if confirmation \<noteq> ar_display_name a
          then (Inl (NewError ''DELETE_CONFIRMATION_MISMATCH'' ''Type the account name exactly'' 409), b)
          else case stopped of
                 Some e \<Rightarrow> (Inl e, b)
               | None \<Rightarrow> (Inr (), publish ''account.updated'' [(''resource_id'', AStr public), (''deleted'', ABool True)]
                            (on_db (delete_account now (ar_account_id a)) b)))"

subsection \<open>Public enrollment\<close>

definition PublicEnrollmentOpen :: "broker_db \<Rightarrow> bool" where
  "PublicEnrollmentOpen db = (case t_public_enrollment_open db of None \<Rightarrow> True | Some enabled \<Rightarrow> enabled)"

definition SetPublicEnrollmentOpen :: "bool \<Rightarrow> broker_db \<Rightarrow> broker_db" where
  "SetPublicEnrollmentOpen enabled db = db\<lparr>t_public_enrollment_open := Some enabled\<rparr>"

subsection \<open>A restart\<close>

definition unfinished_use :: "state_row \<Rightarrow> bool" where
  "unfinished_use s \<longleftrightarrow> as_worker_state s = ''CREDENTIAL_IN_USE'' \<or> as_worker_state s = ''CREDENTIAL_QUARANTINED''"

definition quarantine_use :: "state_row \<Rightarrow> state_row" where
  "quarantine_use s =
     (if unfinished_use s
      then bump_version (s\<lparr>as_worker_state := ''CREDENTIAL_QUARANTINED'', as_auth_state := ''AUTH_REQUIRED'',
             as_overall_state := ''ERROR'', as_last_error_code := Some ''CREDENTIAL_CHECKPOINT_UNCERTAIN'',
             as_last_error_summary := Some ''Service restarted before credential checkpoint completion''\<rparr>)
      else s)"

definition quarantine_uses :: "broker_db \<Rightarrow> broker_db" where
  "quarantine_uses db = db\<lparr>t_account_state := (\<lambda>k. map_option quarantine_use (t_account_state db k))\<rparr>"

definition terminal_logins :: "string list" where
  "terminal_logins = [''COMPLETED'', ''CANCELLED'', ''EXPIRED'', ''FAILED_RETRYABLE'', ''FAILED_ACTION_REQUIRED'',
     ''RESTART_REQUIRED'', ''SUPERSEDED'']"

definition login_ended :: "login_row \<Rightarrow> bool" where
  "login_ended l \<longleftrightarrow> la_state l \<in> set terminal_logins"

definition interrupt_logins :: "broker_db \<Rightarrow> broker_db" where
  "interrupt_logins db =
     db\<lparr>t_login_attempts := update_where (\<lambda>l. \<not> login_ended l)
          (\<lambda>l. l\<lparr>la_state := ''RESTART_REQUIRED'', la_error_code := Some ''LOGIN_RESTART_REQUIRED''\<rparr>) (t_login_attempts db)\<rparr>"

definition fail_operations :: "int \<Rightarrow> broker_db \<Rightarrow> broker_db" where
  "fail_operations now db =
     db\<lparr>t_operations := update_where (\<lambda>row. op_state row \<in> {''QUEUED'', ''RUNNING'', ''WAITING_FOR_USER''})
          (\<lambda>row. row\<lparr>op_state := ''FAILED'', op_error_code := Some ''SERVICE_RESTARTED'',
                     op_error_summary := Some ''Operation was interrupted by service restart'',
                     op_completed_at_ms := Some now, op_state_version := op_state_version row + 1\<rparr>) (t_operations db)\<rparr>"

definition restarted_attempt :: "string \<Rightarrow> broker_db \<Rightarrow> bool" where
  "restarted_attempt attempt db \<longleftrightarrow>
     list_ex (\<lambda>l. la_login_attempt_id l = attempt \<and> la_state l = ''RESTART_REQUIRED'') (t_login_attempts db)"

definition fail_enrollments :: "broker_db \<Rightarrow> broker_db" where
  "fail_enrollments db =
     db\<lparr>t_public_enrollments := update_where (\<lambda>e. en_state e = ''ACTIVE'' \<and> restarted_attempt (en_login_attempt_id e) db)
          (\<lambda>e. e\<lparr>en_state := ''FAILED''\<rparr>) (t_public_enrollments db)\<rparr>"

definition delete_unenrolled :: "int \<Rightarrow> broker_db \<Rightarrow> broker_db" where
  "delete_unenrolled now db =
     db\<lparr>t_accounts := update_where
          (\<lambda>a. list_ex (\<lambda>e. en_account_id e = ar_account_id a \<and> en_state e = ''FAILED'') (t_public_enrollments db)
               \<and> \<not> has_active_bundle db (ar_account_id a))
          (mark_deleted now) (t_accounts db)\<rparr>"

fun open_incidents :: "redactor \<Rightarrow> (nat \<Rightarrow> string) \<Rightarrow> nat \<Rightarrow> int \<Rightarrow> string list \<Rightarrow> broker \<Rightarrow> (go_error + unit) \<times> broker" where
  "open_incidents red newIDs k now [] b = (Inr (), b)"
| "open_incidents red newIDs k now (account # rest) b =
     (case OpenIncident red (newIDs k) now account ''credential_checkpoint'' ''ERROR''
             ''Service restarted before credential checkpoint completion'' b of
        (Inl e, b) \<Rightarrow> (Inl e, b)
      | (Inr _, b) \<Rightarrow> open_incidents red newIDs (Suc k) now rest b)"

definition interrupted_accounts :: "broker_db \<Rightarrow> string list" where
  "interrupted_accounts db =
     filter (\<lambda>k. case t_account_state db k of None \<Rightarrow> False | Some s \<Rightarrow> unfinished_use s) (map ar_account_id (t_accounts db))"

definition Reconcile :: "redactor \<Rightarrow> (nat \<Rightarrow> string) \<Rightarrow> int \<Rightarrow> broker \<Rightarrow> (go_error + unit) \<times> broker" where
  "Reconcile red newIDs now b =
     open_incidents red newIDs 0 now (interrupted_accounts (br_db b))
       (on_db (\<lambda>db. delete_unenrolled now (fail_enrollments (fail_operations now (interrupt_logins (quarantine_uses db))))) b)"

subsection \<open>Pruning\<close>

text \<open>The first \<open>n\<close> of the old rows, oldest first, are deleted.\<close>

definition prune_rows :: "nat \<Rightarrow> ('r \<Rightarrow> string) \<Rightarrow> ('r \<Rightarrow> nullint) \<Rightarrow> int \<Rightarrow> 'r list \<Rightarrow> 'r list" where
  "prune_rows n key when_ms cutoff rows =
     (let old = map key (take n (sort_key (\<lambda>r. the (when_ms r)) (filter (\<lambda>r. when_ms r \<noteq> None \<and> the (when_ms r) < cutoff) rows)))
      in filter (\<lambda>r. key r \<notin> set old) rows)"

definition day_ms :: int where "day_ms = 24 * 60 * 60 * 1000"

definition prune_bundles :: "int \<Rightarrow> bundle_row list \<Rightarrow> bundle_row list" where
  "prune_bundles = prune_rows 250 bu_bundle_id (\<lambda>r. if bu_state r = ''RETIRED''
     then Some (coalesce (bu_retired_at_ms r) (bu_created_at_ms r)) else None)"

definition prune_incidents :: "int \<Rightarrow> incident_row list \<Rightarrow> incident_row list" where
  "prune_incidents = prune_rows 250 ic_incident_id (\<lambda>r. if ic_state r = ''RESOLVED'' then ic_resolved_at_ms r else None)"

text \<open>A login attempt goes with its operation and an enrollment with its attempt (ON DELETE CASCADE).\<close>

definition cascade_operations :: "broker_db \<Rightarrow> broker_db" where
  "cascade_operations db =
     (let logins = filter (\<lambda>l. la_operation_id l \<in> op_operation_id ` set (t_operations db)) (t_login_attempts db)
      in db\<lparr>t_login_attempts := logins,
            t_public_enrollments := filter (\<lambda>e. en_login_attempt_id e \<in> la_login_attempt_id ` set logins) (t_public_enrollments db)\<rparr>)"

definition maintain :: "int \<Rightarrow> broker_db \<Rightarrow> broker_db" where
  "maintain now db =
     (let cutoff = now - 30 * day_ms;
          db = db\<lparr>t_usage_snapshots := prune_rows 1000 us_snapshot_id (\<lambda>r. Some (us_attempted_at_ms r)) (now - 7 * day_ms) (t_usage_snapshots db)\<rparr>;
          db = cascade_operations (db\<lparr>t_operations := prune_rows 250 op_operation_id op_completed_at_ms cutoff (t_operations db)\<rparr>)
      in db\<lparr>t_credential_bundles := prune_bundles cutoff (t_credential_bundles db),
            t_incidents := prune_incidents (now - 90 * day_ms) (t_incidents db)\<rparr>)"

end
