(* ===== verification/Accounts_Correct.thy ===== *)
theory Accounts_Correct
  imports Accounts Credentials_Correct
begin

text \<open>
  What a restart leaves behind, and that an account can be found by its name only once: the
  facts about internal/broker/service.go.
\<close>

subsection \<open>Incidents\<close>

definition open_incident :: "string \<Rightarrow> string \<Rightarrow> broker_db \<Rightarrow> bool" where
  "open_incident account kind db \<longleftrightarrow> (\<exists>r\<in>set (t_incidents db). open_incident_of account kind r)"

definition fresh_incidents :: "(nat \<Rightarrow> string) \<Rightarrow> nat \<Rightarrow> broker_db \<Rightarrow> bool" where
  "fresh_incidents newIDs k db \<longleftrightarrow> inj newIDs \<and> distinct (map ic_incident_id (t_incidents db))
     \<and> (\<forall>j\<ge>k. newIDs j \<notin> ic_incident_id ` set (t_incidents db))"

lemma fresh_incidents_cong: "t_incidents db' = t_incidents db \<Longrightarrow> fresh_incidents newIDs k db' = fresh_incidents newIDs k db"
  by (simp add: fresh_incidents_def)

lemma open_incident_cong: "t_incidents db' = t_incidents db \<Longrightarrow> open_incident a k db' = open_incident a k db"
  by (simp add: open_incident_def)

lemma note_incident_opens:
  assumes fresh: "fresh_incidents newIDs k db"
    and noted: "note_incident (newIDs k) now account kind severity summary db = (opened, row, db')"
  shows "fresh_incidents newIDs (Suc k) db' \<and> open_incident account kind db'
    \<and> (open_incident a c db \<longrightarrow> open_incident a c db')"
proof (cases "find (open_incident_of account kind) (t_incidents db)")
  case None
  then obtain r where r: "t_incidents db' = t_incidents db @ [r]" "ic_incident_id r = newIDs k" "open_incident_of account kind r"
    using noted by (auto simp: note_incident_def Let_def open_incident_of_def)
  then show ?thesis using fresh by (auto simp: fresh_incidents_def open_incident_def inj_eq)
next
  case (Some r)
  then have r: "r \<in> set (t_incidents db)" "open_incident_of account kind r" by (auto simp: find_Some_iff in_set_conv_nth)
  obtain r' where r': "t_incidents db' = update_where (\<lambda>x. ic_incident_id x = ic_incident_id r) (\<lambda>_. r') (t_incidents db)"
    "ic_incident_id r' = ic_incident_id r" "ic_scope_key r' = ic_scope_key r" "ic_problem_type r' = ic_problem_type r"
    "ic_state r' = ic_state r"
    using noted Some by (auto simp: note_incident_def Let_def)
  have ids: "map ic_incident_id (t_incidents db') = map ic_incident_id (t_incidents db)"
    unfolding r'(1) by (auto simp: update_where_def r'(2))
  then have idset: "ic_incident_id ` set (t_incidents db') = ic_incident_id ` set (t_incidents db)"
    by (metis image_set)
  have "fresh_incidents newIDs (Suc k) db'"
    using fresh unfolding fresh_incidents_def ids idset by simp
  moreover have one: "\<exists>x\<in>set (t_incidents db'). open_incident_of a c x"
    if x: "x \<in> set (t_incidents db)" "open_incident_of a c x" for x a c
  proof (cases "ic_incident_id x = ic_incident_id r")
    case True
    then have "x = r" using x(1) r(1) fresh by (auto simp: fresh_incidents_def distinct_map inj_on_def)
    then have "open_incident_of a c r'" using x(2) r' by (simp add: open_incident_of_def)
    moreover have "r' \<in> set (t_incidents db')" using r(1) by (auto simp: r'(1) set_update_where intro!: image_eqI [of _ _ r])
    ultimately show ?thesis by blast
  next
    case False
    then have "x \<in> set (t_incidents db')" using x(1) by (auto simp: r'(1) set_update_where intro!: image_eqI [of _ _ x])
    then show ?thesis using x(2) by blast
  qed
  ultimately show ?thesis using r by (auto simp: open_incident_def)
qed

lemma OpenIncident_opens:
  assumes fresh: "fresh_incidents newIDs k (br_db b)"
    and run: "OpenIncident red (newIDs k) now account kind severity summary b = (Inr (), b')"
  shows "fresh_incidents newIDs (Suc k) (br_db b') \<and> open_incident account kind (br_db b')
    \<and> (open_incident a c (br_db b) \<longrightarrow> open_incident a c (br_db b'))"
proof -
  obtain opened row db' where noted: "note_incident (newIDs k) now account kind severity (safe_summary red summary) (br_db b) = (opened, row, db')"
    by (metis prod_cases3)
  then have "br_db b' = db'"
    using run by (auto simp: OpenIncident_def Let_def Write_b_def Write_def split: option.splits sum.splits prod.splits)
  then show ?thesis using note_incident_opens [OF fresh noted] by simp
qed

lemma open_incidents_opens:
  "fresh_incidents newIDs k (br_db b) \<Longrightarrow> open_incidents red newIDs k now accs b = (Inr (), b') \<Longrightarrow>
   (\<forall>a\<in>set accs. open_incident a ''credential_checkpoint'' (br_db b'))
   \<and> (\<forall>a c. open_incident a c (br_db b) \<longrightarrow> open_incident a c (br_db b'))
   \<and> (\<exists>rows. br_db b' = (br_db b)\<lparr>t_incidents := rows\<rparr>)"
proof (induction accs arbitrary: k b)
  case Nil
  then show ?case by (auto intro!: exI [of _ "t_incidents (br_db b)"])
next
  case (Cons account accs)
  obtain b1 where one: "OpenIncident red (newIDs k) now account ''credential_checkpoint'' ''ERROR''
      ''Service restarted before credential checkpoint completion'' b = (Inr (), b1)"
    and rest: "open_incidents red newIDs (Suc k) now accs b1 = (Inr (), b')"
    using Cons.prems(2) by (auto split: sum.splits prod.splits)
  note opens = OpenIncident_opens [OF Cons.prems(1) one]
  obtain rows where rows: "br_db b1 = (br_db b)\<lparr>t_incidents := rows\<rparr>"
    using OpenIncident_db [of red "newIDs k" now account "''credential_checkpoint''" "''ERROR''"] one by (metis snd_conv)
  show ?case using Cons.IH [OF conjunct1 [OF opens] rest] opens rows by auto
qed

subsection \<open>A restart leaves nothing unfinished\<close>

definition reconciled :: "int \<Rightarrow> broker_db \<Rightarrow> broker_db" where
  "reconciled now db = delete_unenrolled now (fail_enrollments (fail_operations now (interrupt_logins (quarantine_uses db))))"

lemmas reconcile_defs = reconciled_def delete_unenrolled_def fail_enrollments_def fail_operations_def interrupt_logins_def
  quarantine_uses_def

lemma reconciled_tables:
  "t_account_state (reconciled now db) = t_account_state (quarantine_uses db)"
  "t_login_attempts (reconciled now db) = t_login_attempts (interrupt_logins db)"
  "t_operations (reconciled now db) = t_operations (fail_operations now db)"
  "t_incidents (reconciled now db) = t_incidents db"
  "t_credential_bundles (reconciled now db) = t_credential_bundles db"
  by (simp_all add: reconcile_defs)

lemma reconciled_unfinished:
  "(\<forall>row\<in>set (t_operations (reconciled now db)). op_state row \<notin> {''QUEUED'', ''RUNNING'', ''WAITING_FOR_USER''})
   \<and> (\<forall>l\<in>set (t_login_attempts (reconciled now db)). login_ended l)"
  by (auto simp: reconciled_tables fail_operations_def interrupt_logins_def set_update_where login_ended_def terminal_logins_def)

lemma reconciled_use:
  assumes "t_account_state (reconciled now db) k = Some s"
  shows "as_worker_state s \<noteq> ''CREDENTIAL_IN_USE''
    \<and> (as_worker_state s = ''CREDENTIAL_QUARANTINED'' \<longrightarrow> as_auth_state s = ''AUTH_REQUIRED''
        \<and> (\<exists>s0. t_account_state db k = Some s0 \<and> unfinished_use s0))"
proof -
  obtain s0 where "t_account_state db k = Some s0" "s = quarantine_use s0"
    using assms by (auto simp: reconciled_tables quarantine_uses_def)
  then show ?thesis by (cases "unfinished_use s0") (simp_all add: quarantine_use_def, simp add: unfinished_use_def)
qed

lemma reconciled_accounts:
  assumes "a \<in> set (t_accounts (reconciled now db))" and "ar_deleted_at_ms a = None"
    and "e \<in> set (t_public_enrollments (reconciled now db))" "en_account_id e = ar_account_id a" "en_state e = ''FAILED''"
  shows "has_active_bundle db (ar_account_id a)"
proof -
  have "t_public_enrollments (reconciled now db) = t_public_enrollments (fail_enrollments (fail_operations now (interrupt_logins (quarantine_uses db))))"
    by (simp add: reconcile_defs)
  then show ?thesis
    using assms by (auto simp: reconciled_def delete_unenrolled_def set_update_where mark_deleted_def list_ex_iff has_active_bundle_def
        fail_enrollments_def fail_operations_def interrupt_logins_def quarantine_uses_def split: if_splits)
qed


subsection \<open>An example\<close>

definition ex_ids :: "nat \<Rightarrow> string" where "ex_ids k = replicate k (CHR ''i'')"

definition ex_restart_account :: account_row where
  "ex_restart_account = \<lparr>ar_account_id = ''a'', ar_public_token = ''pa'', ar_display_name = ''a'', ar_workspace_constraint = None,
     ar_enabled = True, ar_created_at_ms = 1, ar_deleted_at_ms = None, ar_lifecycle_state = ''ACTIVE'',
     ar_preferred_login_method = ''CHATGPT_DEVICE_CODE'', ar_last_successful_login_method = None\<rparr>"

definition ex_interrupted :: broker where
  "ex_interrupted = on_db (\<lambda>db. add_operation (queued_operation ''o'' (Some ''a'') ''usage.refresh'' ''USER'' 1000)
     (on_state (\<lambda>s. s\<lparr>as_worker_state := ''CREDENTIAL_IN_USE''\<rparr>) ''a'' (db\<lparr>t_accounts := [ex_restart_account]\<rparr>))) ex_cred_broker"


lemma ex_interrupted_tables:
  "t_accounts (br_db ex_interrupted) = [ex_restart_account]"
  "t_account_state (br_db ex_interrupted) = [''a'' \<mapsto> ex_cred_state\<lparr>as_worker_state := ''CREDENTIAL_IN_USE''\<rparr>]"
  "t_incidents (br_db ex_interrupted) = []"
  "t_operations (br_db ex_interrupted) = [queued_operation ''o'' (Some ''a'') ''usage.refresh'' ''USER'' 1000]"
  by (simp_all add: ex_interrupted_def ex_cred_broker_def add_operation_def on_state_def update_row_def empty_db_def)

lemma ex_reconciled:
  "t_accounts (reconciled 2000 (br_db ex_interrupted)) = [ex_restart_account]"
  "t_account_state (reconciled 2000 (br_db ex_interrupted)) ''a''
     = Some (quarantine_use (ex_cred_state\<lparr>as_worker_state := ''CREDENTIAL_IN_USE''\<rparr>))"
  "t_incidents (reconciled 2000 (br_db ex_interrupted)) = []"
  "op_operation_id ` set (t_operations (reconciled 2000 (br_db ex_interrupted))) = {''o''}"
proof -
  have none: "t_public_enrollments (br_db ex_interrupted) = []"
    by (simp add: ex_interrupted_def ex_cred_broker_def add_operation_def on_state_def empty_db_def)
  show "t_accounts (reconciled 2000 (br_db ex_interrupted)) = [ex_restart_account]"
    by (simp add: reconcile_defs update_where_def ex_interrupted_tables none)
  show "t_account_state (reconciled 2000 (br_db ex_interrupted)) ''a''
     = Some (quarantine_use (ex_cred_state\<lparr>as_worker_state := ''CREDENTIAL_IN_USE''\<rparr>))"
    by (simp add: reconciled_tables quarantine_uses_def ex_interrupted_tables)
  show "t_incidents (reconciled 2000 (br_db ex_interrupted)) = []"
    by (simp add: reconciled_tables ex_interrupted_tables)
  show "op_operation_id ` set (t_operations (reconciled 2000 (br_db ex_interrupted))) = {''o''}"
    by (simp add: reconciled_tables fail_operations_def set_update_where ex_interrupted_tables queued_operation_def)
qed

lemma ex_restart: "\<exists>b'. Reconcile ex_red ex_ids 2000 ex_interrupted = (Inr (), b')
   \<and> t_account_state (br_db b') ''a'' = Some (quarantine_use (ex_cred_state\<lparr>as_worker_state := ''CREDENTIAL_IN_USE''\<rparr>))
   \<and> op_operation_id ` set (t_operations (br_db b')) = {''o''}"
proof -
  have accs: "interrupted_accounts (br_db ex_interrupted) = [''a'']"
    by (simp add: interrupted_accounts_def ex_interrupted_tables unfinished_use_def ex_restart_account_def)
  obtain a s where joined: "incident_account ((reconciled 2000 (br_db ex_interrupted))\<lparr>t_incidents := rows\<rparr>) ''a'' = Some (a, s)" for rows
    by (simp add: incident_account_def ex_reconciled ex_restart_account_def)
  obtain r b' where run: "OpenIncident ex_red (ex_ids 0) 2000 ''a'' ''credential_checkpoint'' ''ERROR''
      ''Service restarted before credential checkpoint completion'' (on_db (reconciled 2000) ex_interrupted) = (r, b')"
    by (metis surj_pair)
  have ok: "r = Inr ()"
    using run joined by (auto simp del: list.map simp: OpenIncident_def Let_def Write_b_def Write_def note_incident_def
        ex_reconciled joined split: option.splits sum.splits prod.splits)
  obtain rows where rows: "br_db b' = (reconciled 2000 (br_db ex_interrupted))\<lparr>t_incidents := rows\<rparr>"
    using OpenIncident_db [of ex_red "ex_ids 0" 2000 "''a''" "''credential_checkpoint''" "''ERROR''"
        "''Service restarted before credential checkpoint completion''" "on_db (reconciled 2000) ex_interrupted"] run by auto
  show ?thesis
    using run ok by (simp add: Reconcile_def accs reconciled_def [symmetric, abs_def] rows ex_reconciled)
qed


end
