(* ===== verification/Spec2Isabelle.thy ===== *)
theory Spec2Isabelle
  imports Event_Bus Scrub_Correct Gateway_Relay Broker_Gateway Usage_One_Job
    Webhook_Correct Accounts_Correct
begin

text \<open>
  A verification development for codex-broker, a Go service that shares a pool of ChatGPT
  accounts among clients. A client's request passes the gateway (\<open>internal/gateway\<close>),
  which asks an authority for the lease of an account, forwards the request to the upstream
  (\<open>internal/responsesproxy\<close>) and retries on another account after a refusal. The authority is
  the broker itself (\<open>internal/broker\<close>, on its database) or a relay edge
  (\<open>internal/relay\<close>), which keeps routing from a cached snapshot while the broker is away and
  reconciles an outbox of events with it.

  Theories.

  \<^item> \<open>Prelude\<close>: Go values, \<open>sort.Slice\<close>, and the generic contracts \<open>ranking\<close>,
    \<open>keyed_ranking\<close> (comparison functions) and \<open>inv_system\<close> (steps that keep an invariant).
  \<^item> \<open>Json\<close>, \<open>Go_Strings\<close>: what the code uses of encoding/json, unicode/utf8, strings and maps.
  \<^item> \<open>Event_Bus\<close>: events/events.go. Publishing, bounded client buffers, replay and gap markers.
  \<^item> \<open>Scrub\<close>, \<open>Scrub_Correct\<close>: responsesproxy/scrub.go. The stages of shrinking a request;
    protected items are kept, tool calls are evicted with their outputs, the target is met or
    an error is reported.
  \<^item> \<open>Notice\<close>, \<open>Notice_Correct\<close>: responsesproxy/notice.go. Reading frames, rewriting the events
    of a stream, telemetry, the text of a notice and its removal; order, completeness and
    the round trip of notices.
  \<^item> \<open>Transport\<close>: responsesproxy/transport.go and \<open>CopyNoticeResponse\<close>. Headers, classification of
    failures, pass-through of other responses.
  \<^item> \<open>Gateway_Types\<close>: the records of gateway/engine.go and relayprotocol/protocol.go.
  \<^item> \<open>Gateway\<close>, \<open>Gateway_Correct\<close>: gateway/engine.go and health.go. The serving loop over an
    abstract authority, and the contracts \<open>authority_contract\<close> and \<open>bounded_authority\<close> under which
    it keeps the authority's invariant and ends.
  \<^item> \<open>Relay_Edge\<close>, \<open>Relay_Correct\<close>, \<open>Relay_Properties\<close>: relay/relay.go. The state of a relay, its
    operations and their interleavings with flushes and restarts; the invariant, the leases it
    routes and the reconciliation of its outbox.
  \<^item> \<open>Gateway_Relay\<close>: the relay as the gateway's authority; it interprets both contracts.

  The broker works on its database.

  \<^item> \<open>Broker_Db\<close>: store/store.go. The tables as maps and row lists, and \<open>Write\<close> as an
    all-or-nothing transaction.
  \<^item> \<open>Client_Keys\<close>: auth/clients.go, auth/scopes.go, broker/labels.go. Client keys, their life and
    the accounts a restricted key may use.
  \<^item> \<open>Usage_Norm\<close>: broker/usage.go. Normalising a usage answer, with its specification.
  \<^item> \<open>Cycle\<close>, \<open>Cycle_Correct\<close>: broker/cycle.go. Reconciling the weekly cycle and viewing it.
  \<^item> \<open>Redact\<close>: logbook/redact.go. Redaction of structured values.
  \<^item> \<open>Credentials\<close>, \<open>Credentials_Correct\<close>: the first half of broker/credentials.go. The active
    bundle, the managed runtime with its checkpoint, leases and incidents.
  \<^item> \<open>Operations\<close>: broker/operations.go. \<open>Usage_Polls\<close>: broker/usage_poll.go, reset_poll.go.
  \<^item> \<open>Usage_Commit\<close>, \<open>Usage_Jobs\<close>: the second half of broker/credentials.go. Claiming and running
    usage refreshes and pulses, and the transactions that store what they read.
    \<open>Usage_Jobs_Correct\<close> states what a job may touch (\<open>job_frame\<close>, \<open>run_frame\<close>), \<open>Usage_One_Job\<close>
    the interleavings of claims and runs (\<open>usage_step\<close>) and their invariant.
  \<^item> \<open>Router\<close>, \<open>Router_Correct\<close>: broker/router.go. Routing, failures, and which lease is granted.
  \<^item> \<open>Telemetry\<close>, \<open>Telemetry_Correct\<close>: proxytelemetry. Recording, correcting and pruning responses
    and activity; totals always balance.
  \<^item> \<open>Broker_Relay\<close>, \<open>Broker_Relay_Correct\<close>: the broker's side of a relay (broker/relay.go).
  \<^item> \<open>Broker_Gateway\<close>: the broker as the gateway's authority (httpserver/proxy.go); it interprets
    the gateway's contracts on the router.
  \<^item> \<open>Public_Address\<close>, \<open>Webhook\<close>, \<open>Webhook_Correct\<close>: webhook/webhook.go. Which addresses may be
    dialled, the texts of notifications, and the dispatcher with its retries beside the operations
    that change its tables (\<open>hook_step\<close>).
  \<^item> \<open>Accounts\<close>, \<open>Accounts_Correct\<close>: broker/service.go. Creating, labelling, enabling and deleting
    accounts, pruning, and what a restart does to unfinished work.

  Correspondence. Each Go method is a function from its receiver's state to the new state and
  its results; errors are values of \<open>go_error\<close>. A section guarded by a mutex is one step, and
  concurrency is the interleaving of steps (\<open>relay_step\<close>, \<open>bus_step\<close>). What a step reads from
  outside (clock, new identifiers, the outcome of a call or of a write) is an argument, so that
  the theorems hold for every such outcome. Libraries that are not under src/ (JSON parsing,
  ciphers, HTTP) are arguments too.

  Bounds. Integers that hold times and counts are \<open>int\<close>; where a value from outside is scaled
  or added, the wrap-around of an int64 is written out by \<open>w64\<close>. Loops are structural or
  terminate by a measure on their input; the serving loop has fuel, and
  \<open>edge_answers_every_request\<close> shows that two attempts for each known account and one more turn
  are enough.

  Not modelled: rendering of pages, process and operating-system glue, the HTTP client, logging
  and metrics. Signing in, reports and the distribution of credentials to clients are not
  modelled yet.
\<close>

end
